(* ===== verification/Lockframe_Prelude.thy ===== *)
theory Lockframe_Prelude
  imports Main "HOL-Library.Word"
begin

text \<open>
  Shared vocabulary of the development: the machine types of the Rust sources, the
  big-endian byte codecs behind \<^verbatim>\<open>to_be_bytes\<close> and \<^verbatim>\<open>from_be_bytes\<close>, the part of
  \<^verbatim>\<open>std::fmt\<close> that error messages use, results with panics, and generic list and map
  lemmas.
\<close>

section \<open>Types and lemma collections\<close>

type_synonym u8 = "8 word"
type_synonym u16 = "16 word"
type_synonym u32 = "32 word"
type_synonym u64 = "64 word"
type_synonym u128 = "128 word"
type_synonym bytes = "u8 list"

text \<open>
  Instants and durations are nanosecond counts. \<^verbatim>\<open>Instant - Instant\<close> of the standard
  library saturates at zero, as subtraction on \<^typ>\<open>nat\<close> does.
\<close>

type_synonym instant = nat
type_synonym duration = nat

text \<open>
  A Rust expression that may panic yields a value of type \<open>'a exec\<close>; a fallible one
  without panics yields a sum whose left summand is the error.
\<close>

datatype 'a exec = Panic | Done 'a

named_theorems wf_simps \<open>unfolding rules of the well-formedness predicates\<close>
named_theorems wf_intros \<open>operations preserve the well-formedness predicates\<close>
named_theorems field_simps_model \<open>reading a field after an update\<close>

section \<open>Machines driven by events\<close>

text \<open>
  Every stateful component handles one event at a time and returns its new state with what it
  emits. \<open>run_events\<close> feeds a sequence of events; the two contracts below lift what one step
  guarantees to every sequence.
\<close>

definition run_events :: "('e \<Rightarrow> 's \<Rightarrow> 's \<times> 'o) \<Rightarrow> 'e list \<Rightarrow> 's \<Rightarrow> 's" where
  "run_events step es s = foldl (\<lambda>s e. fst (step e s)) s es"

lemma run_events_simps [simp]:
  "run_events step [] s = s"
  "run_events step (e # es) s = run_events step es (fst (step e s))"
  by (simp_all add: run_events_def)

lemma run_events_append [simp]:
  "run_events step (es @ fs) s = run_events step fs (run_events step es s)"
  by (simp add: run_events_def)

locale preserved_by =
  fixes step :: "'e \<Rightarrow> 's \<Rightarrow> 's \<times> 'o" and inv :: "'s \<Rightarrow> bool"
  assumes step_inv: "inv s \<Longrightarrow> inv (fst (step e s))"
begin

lemma run_inv: "inv s \<Longrightarrow> inv (run_events step es s)"
  by (induction es arbitrary: s) (simp_all add: step_inv)

end

locale monotone_steps =
  fixes step :: "'e \<Rightarrow> 's \<Rightarrow> 's \<times> 'o" and level :: "'s \<Rightarrow> 'l::order"
  assumes step_mono: "level s \<le> level (fst (step e s))"
begin

sublocale above: preserved_by step "\<lambda>s. l \<le> level s" for l
  by unfold_locales (rule order_trans [OF _ step_mono])

lemma run_mono: "level s \<le> level (run_events step es s)"
  by (rule above.run_inv) simp

end

text \<open>What a machine emits along a run, and the contract of an implementation that refines it.\<close>

fun run_outputs :: "('e \<Rightarrow> 's \<Rightarrow> 's \<times> 'o) \<Rightarrow> 'e list \<Rightarrow> 's \<Rightarrow> 'o list" where
  "run_outputs step [] s = []"
| "run_outputs step (e # es) s = snd (step e s) # run_outputs step es (fst (step e s))"

locale simulation =
  preserved_by step inv
  for step :: "'e \<Rightarrow> 's \<Rightarrow> 's \<times> 'o" and inv :: "'s \<Rightarrow> bool" +
  fixes spec :: "'e \<Rightarrow> 'a \<Rightarrow> 'a \<times> 'o" and absf :: "'s \<Rightarrow> 'a"
  assumes step_sim: "inv s \<Longrightarrow> spec e (absf s) = (absf (fst (step e s)), snd (step e s))"
begin

lemma run_sim: "inv s \<Longrightarrow> absf (run_events step es s) = run_events spec es (absf s)"
  by (induction es arbitrary: s) (simp_all add: step_sim step_inv)

lemma outputs_sim: "inv s \<Longrightarrow> run_outputs step es s = run_outputs spec es (absf s)"
  by (induction es arbitrary: s) (simp_all add: step_sim step_inv)

end

section \<open>Lists and maps\<close>

lemma take_append_exact: "length xs = n \<Longrightarrow> take n (xs @ ys) = xs"
  by simp

lemma drop_append_exact: "length xs = n \<Longrightarrow> drop n (xs @ ys) = ys"
  by simp

lemma take_split_append:
  "take (m + n) xs = take m xs @ take n (drop m xs)"
  by (simp add: take_add)

lemma last_conv_nth_Suc: "length xs = Suc n \<Longrightarrow> last xs = xs ! n"
  by (cases xs rule: rev_cases) (auto simp: nth_append)

lemma map_upd_eq_None_iff [simp]: "(m(k \<mapsto> v)) k' = None \<longleftrightarrow> k' \<noteq> k \<and> m k' = None"
  by simp

section \<open>Big-endian byte codecs\<close>

fun be_bytes_nat :: "nat \<Rightarrow> nat \<Rightarrow> bytes" where
  "be_bytes_nat 0 x = []"
| "be_bytes_nat (Suc n) x = be_bytes_nat n (x div 256) @ [of_nat (x mod 256)]"

lemma be_bytes_nat_numeral [simp]:
  "be_bytes_nat (numeral k) x =
     be_bytes_nat (pred_numeral k) (x div 256) @ [of_nat (x mod 256)]"
  by (simp only: numeral_eq_Suc [of k] be_bytes_nat.simps)

definition be_nat :: "bytes \<Rightarrow> nat" where
  "be_nat bs = foldl (\<lambda>acc b. acc * 256 + unat b) 0 bs"

definition to_be_bytes :: "'a::len word \<Rightarrow> bytes" where
  "to_be_bytes w = be_bytes_nat (LENGTH('a) div 8) (unat w)"

definition from_be_bytes :: "bytes \<Rightarrow> 'a::len word" where
  "from_be_bytes bs = of_nat (be_nat bs)"

definition to_le_bytes :: "'a::len word \<Rightarrow> bytes" where
  "to_le_bytes w = rev (to_be_bytes w)"

definition from_le_bytes :: "bytes \<Rightarrow> 'a::len word" where
  "from_le_bytes bs = from_be_bytes (rev bs)"

lemma length_be_bytes_nat [simp]: "length (be_bytes_nat n x) = n"
  by (induction n arbitrary: x) auto

lemma be_nat_Nil [simp]: "be_nat [] = 0"
  by (simp add: be_nat_def)

lemma be_nat_snoc [simp]: "be_nat (bs @ [b]) = be_nat bs * 256 + unat b"
  by (simp add: be_nat_def)

lemma byte_bound: "unat (b :: u8) < 256"
  using unsigned_less [of b] by simp

lemma be_nat_bound: "be_nat bs < 256 ^ length bs"
proof (induction bs rule: rev_induct)
  case Nil
  then show ?case by simp
next
  case (snoc b bs)
  have "be_nat bs * 256 + unat b < (be_nat bs + 1) * 256"
    using byte_bound [of b] by simp
  also have "\<dots> \<le> 256 ^ length bs * 256"
    using snoc by (intro mult_le_mono) simp_all
  finally show ?case by (simp add: mult.commute)
qed

lemma unat_of_nat_byte: "unat (of_nat x :: u8) = x mod 256"
  by (simp add: unat_of_nat)

lemma char_byte_round_trip: "char_of (unat (of_nat (of_char c) :: u8)) = c"
  unfolding unat_of_nat_byte by simp

lemma be_nat_be_bytes_nat: "be_nat (be_bytes_nat n x) = x mod 256 ^ n"
proof (induction n arbitrary: x)
  case 0
  then show ?case by simp
next
  case (Suc n)
  have "be_nat (be_bytes_nat (Suc n) x) = (x div 256) mod 256 ^ n * 256 + x mod 256"
    by (simp only: be_bytes_nat.simps be_nat_snoc Suc.IH unat_of_nat_byte mod_mod_trivial)
  also have "\<dots> = x mod (256 * 256 ^ n)"
    by (simp only: mod_mult2_eq mult.commute)
  also have "256 * 256 ^ n = (256::nat) ^ Suc n"
    by (simp only: power_Suc)
  finally show ?case .
qed

lemma be_bytes_nat_be_nat: "be_bytes_nat (length bs) (be_nat bs) = bs"
proof (induction bs rule: rev_induct)
  case Nil
  then show ?case by simp
next
  case (snoc b bs)
  have "(be_nat bs * 256 + unat b) div 256 = be_nat bs"
    and "(be_nat bs * 256 + unat b) mod 256 = unat b"
    using byte_bound [of b] by simp_all
  with snoc show ?case
    by (simp only: length_append length_Cons list.size add_Suc_right add_0_right
        be_bytes_nat.simps be_nat_snoc of_nat_unat ucast_id)
qed

text \<open>
  The contract of one integer width: encoding has that width, and the two directions are
  inverse to each other on byte strings of that width.
\<close>

locale int_codec =
  fixes enc :: "'w \<Rightarrow> bytes" and dec :: "bytes \<Rightarrow> 'w" and width :: nat
  assumes length_enc: "length (enc w) = width"
    and dec_enc: "dec (enc w) = w"
    and enc_dec: "length bs = width \<Longrightarrow> enc (dec bs) = bs"
begin

lemma enc_inject: "enc v = enc w \<longleftrightarrow> v = w"
  by (metis dec_enc)

lemma dec_eq_iff: "length bs = width \<Longrightarrow> dec bs = w \<longleftrightarrow> bs = enc w"
  using dec_enc enc_dec by metis

lemma enc_append_inject: "enc v @ xs = enc w @ ys \<longleftrightarrow> v = w \<and> xs = ys"
  by (simp add: append_eq_append_conv length_enc enc_inject)

lemma dec_take_enc: "dec (take width (enc w @ rest)) = w"
  by (simp add: length_enc dec_enc)

end

lemma length_to_be_bytes: "length (to_be_bytes (w :: 'a::len word)) = LENGTH('a) div 8"
  by (simp add: to_be_bytes_def)

lemma power_256_div_8: "8 dvd n \<Longrightarrow> (256::nat) ^ (n div 8) = 2 ^ n"
proof -
  assume "8 dvd n"
  then obtain k where "n = 8 * k" by blast
  then show ?thesis by (simp add: power_mult)
qed

lemma from_be_to_be:
  assumes "8 dvd LENGTH('a)"
  shows "from_be_bytes (to_be_bytes (w :: 'a::len word)) = w"
proof -
  have "unat w mod 256 ^ (LENGTH('a) div 8) = unat w"
    using unsigned_less [of w] by (simp add: power_256_div_8 [OF assms])
  then show ?thesis
    by (simp add: from_be_bytes_def to_be_bytes_def be_nat_be_bytes_nat)
qed

lemma to_be_from_be:
  assumes "8 dvd LENGTH('a::len)" and "length bs = LENGTH('a) div 8"
  shows "to_be_bytes (from_be_bytes bs :: 'a word) = bs"
proof -
  have "be_nat bs < 2 ^ LENGTH('a)"
    using be_nat_bound [of bs] assms by (simp add: power_256_div_8)
  then have "unat (from_be_bytes bs :: 'a word) = be_nat bs"
    by (simp add: from_be_bytes_def unat_of_nat)
  with assms(2) show ?thesis
    by (metis to_be_bytes_def be_bytes_nat_be_nat)
qed

interpretation be16: int_codec "to_be_bytes :: u16 \<Rightarrow> bytes" from_be_bytes 2
  by unfold_locales (simp_all add: length_to_be_bytes from_be_to_be to_be_from_be)

interpretation be32: int_codec "to_be_bytes :: u32 \<Rightarrow> bytes" from_be_bytes 4
  by unfold_locales (simp_all add: length_to_be_bytes from_be_to_be to_be_from_be)

interpretation be64: int_codec "to_be_bytes :: u64 \<Rightarrow> bytes" from_be_bytes 8
  by unfold_locales (simp_all add: length_to_be_bytes from_be_to_be to_be_from_be)

interpretation be128: int_codec "to_be_bytes :: u128 \<Rightarrow> bytes" from_be_bytes 16
  by unfold_locales (simp_all add: length_to_be_bytes from_be_to_be to_be_from_be)

interpretation le64: int_codec "to_le_bytes :: u64 \<Rightarrow> bytes" from_le_bytes 8
  by unfold_locales
    (simp_all add: to_le_bytes_def from_le_bytes_def be64.length_enc be64.dec_enc be64.enc_dec)

lemmas codec_simps [simp] =
  be16.length_enc be32.length_enc be64.length_enc be128.length_enc le64.length_enc
  be16.dec_enc be32.dec_enc be64.dec_enc be128.dec_enc le64.dec_enc
  be16.enc_inject be32.enc_inject be64.enc_inject be128.enc_inject le64.enc_inject

section \<open>Checked and saturating arithmetic\<close>

definition checked_add :: "'a::len word \<Rightarrow> 'a word \<Rightarrow> 'a word option" where
  "checked_add a b = (if unat a + unat b < 2 ^ LENGTH('a) then Some (a + b) else None)"

definition saturating_sub :: "'a::len word \<Rightarrow> 'a word \<Rightarrow> 'a word" where
  "saturating_sub a b = (if b \<le> a then a - b else 0)"

definition saturating_add :: "'a::len word \<Rightarrow> 'a word \<Rightarrow> 'a word" where
  "saturating_add a b = (if unat a + unat b < 2 ^ LENGTH('a) then a + b else - 1)"

text \<open>\<^verbatim>\<open>usize\<close> is 64 bits wide; lengths are naturals and the overflow checks are explicit.\<close>

definition usize_checked_add :: "nat \<Rightarrow> nat \<Rightarrow> nat option" where
  "usize_checked_add a b = (if a + b < 2 ^ 64 then Some (a + b) else None)"

lemma unat_u32_bound: "unat (w :: u32) < 4294967296"
  by (rule order.strict_trans2 [OF unsigned_less]) simp

lemma unat_u64_bound: "unat (w :: u64) < 18446744073709551616"
  by (rule order.strict_trans2 [OF unsigned_less]) simp

lemma unat_u32_max: "unat (- 1 :: u32) = 4294967295"
  by (simp add: unsigned_minus_1_eq_mask mask_eq_exp_minus_1)

lemma checked_add_Some_unat:
  "checked_add a b = Some c \<Longrightarrow> unat c = unat a + unat b"
  by (auto simp: checked_add_def unat_word_ariths split: if_splits)

lemma checked_add_1_eq_None_iff:
  "checked_add (a :: 'a::len word) 1 = None \<longleftrightarrow> a = - 1"
proof -
  have lt: "unat a < 2 ^ LENGTH('a)" by simp
  have "a = - 1 \<longleftrightarrow> unat a = 2 ^ LENGTH('a) - 1"
    by (simp add: word_unat_eq_iff unsigned_minus_1_eq_mask mask_eq_exp_minus_1)
  moreover have "unat a + 1 < 2 ^ LENGTH('a) \<longleftrightarrow> unat a \<noteq> 2 ^ LENGTH('a) - 1"
    using lt by linarith
  ultimately show ?thesis by (simp add: checked_add_def)
qed

lemma unat_plus_one: "(w :: 'a::len word) \<noteq> - 1 \<Longrightarrow> unat (w + 1) = unat w + 1"
  by (metis checked_add_Some_unat checked_add_1_eq_None_iff checked_add_def option.discI unsigned_1
      Suc_eq_plus1)

section \<open>Formatting\<close>

text \<open>\<^verbatim>\<open>{}\<close> and \<^verbatim>\<open>{:x}\<close> of unsigned integers, and zero padding.\<close>

definition digit_char :: "nat \<Rightarrow> char" where
  "digit_char d = char_of (if d < 10 then 48 + d else 87 + d)"

fun digits_base :: "nat \<Rightarrow> nat \<Rightarrow> string" where
  "digits_base b n =
     (if n < b \<or> b < 2 then [digit_char n] else digits_base b (n div b) @ [digit_char (n mod b)])"

declare digits_base.simps [simp del]

definition show_nat :: "nat \<Rightarrow> string" where
  "show_nat n = digits_base 10 n"

definition show_word :: "'a::len word \<Rightarrow> string" where
  "show_word w = show_nat (unat w)"

definition hex_padded :: "nat \<Rightarrow> nat \<Rightarrow> string" where
  "hex_padded width n =
     (let ds = digits_base 16 n in replicate (width - length ds) (CHR ''0'') @ ds)"

text \<open>\<^verbatim>\<open>{:x}\<close>, \<^verbatim>\<open>{:032x}\<close>, \<^verbatim>\<open>{:#06x}\<close> and \<^verbatim>\<open>{:#010x}\<close>; the width of the alternate form counts the prefix.\<close>

definition show_hex :: "'a::len word \<Rightarrow> string" where
  "show_hex w = digits_base 16 (unat w)"

definition show_hex32 :: "'a::len word \<Rightarrow> string" where
  "show_hex32 w = hex_padded 32 (unat w)"

definition show_hex_alt :: "nat \<Rightarrow> 'a::len word \<Rightarrow> string" where
  "show_hex_alt width w = ''0x'' @ hex_padded (width - 2) (unat w)"

text \<open>\<^verbatim>\<open>{:?}\<close> of a \<^verbatim>\<open>Duration\<close>: the largest unit, then the significant decimals of the rest.\<close>

definition strip_zeros :: "string \<Rightarrow> string" where
  "strip_zeros s = rev (dropWhile (\<lambda>c. c = CHR ''0'') (rev s))"

definition show_fraction :: "nat \<Rightarrow> nat \<Rightarrow> string" where
  "show_fraction width n =
     (let ds = show_nat n;
          frac = strip_zeros (replicate (width - length ds) (CHR ''0'') @ ds)
      in if n = 0 then [] else CHR ''.'' # frac)"

definition show_duration :: "duration \<Rightarrow> string" where
  "show_duration d =
     (if 1000000000 \<le> d then show_nat (d div 1000000000) @ show_fraction 9 (d mod 1000000000) @ ''s''
      else if 1000000 \<le> d then show_nat (d div 1000000) @ show_fraction 6 (d mod 1000000) @ ''ms''
      else if 1000 \<le> d then show_nat (d div 1000) @ show_fraction 3 (d mod 1000) @ [CHR 0xC2, CHR 0xB5] @ ''s''
      else show_nat d @ ''ns'')"

end
