(* ===== verification/Opcodes.thy ===== *)
theory Opcodes
  imports Lockframe_Prelude
begin

text \<open>
  Operation codes (\<^verbatim>\<open>lockframe-proto/src/opcodes.rs\<close>): the enumeration, its numeric values
  and the partial inverse used by every component that dispatches on a frame.
\<close>

datatype opcode =
    Op_Hello
  | Op_HelloReply
  | Op_Goodbye
  | Op_Ping
  | Op_Pong
  | Op_SyncRequest
  | Op_SyncResponse
  | Op_Error
  | Op_KeyPackage
  | Op_Proposal
  | Op_Commit
  | Op_Welcome
  | Op_GroupInfo
  | Op_PSKProposal
  | Op_ReInit
  | Op_ExternalCommit
  | Op_AppMessage
  | Op_AppReceipt
  | Op_AppReaction
  | Op_AppEdit
  | Op_AppDelete
  | Op_Typing
  | Op_Presence
  | Op_Redact
  | Op_Ban
  | Op_Unban
  | Op_Kick
  | Op_Mute
  | Op_Pin
  | Op_Report
  | Op_FedAppend
  | Op_FedSync
  | Op_FedAck
  | Op_FedNack
  | Op_FedQuery
  | Op_CASPut
  | Op_CASGet
  | Op_CASDelete
  | Op_CASProof

fun to_u16 :: "opcode \<Rightarrow> u16" where
  "to_u16 Op_Hello = 0x0001"
| "to_u16 Op_HelloReply = 0x0002"
| "to_u16 Op_Goodbye = 0x0003"
| "to_u16 Op_Ping = 0x0004"
| "to_u16 Op_Pong = 0x0005"
| "to_u16 Op_SyncRequest = 0x0006"
| "to_u16 Op_SyncResponse = 0x0007"
| "to_u16 Op_Error = 0x00FF"
| "to_u16 Op_KeyPackage = 0x1000"
| "to_u16 Op_Proposal = 0x1001"
| "to_u16 Op_Commit = 0x1002"
| "to_u16 Op_Welcome = 0x1003"
| "to_u16 Op_GroupInfo = 0x1004"
| "to_u16 Op_PSKProposal = 0x1005"
| "to_u16 Op_ReInit = 0x1006"
| "to_u16 Op_ExternalCommit = 0x1007"
| "to_u16 Op_AppMessage = 0x2000"
| "to_u16 Op_AppReceipt = 0x2001"
| "to_u16 Op_AppReaction = 0x2002"
| "to_u16 Op_AppEdit = 0x2003"
| "to_u16 Op_AppDelete = 0x2004"
| "to_u16 Op_Typing = 0x2005"
| "to_u16 Op_Presence = 0x2006"
| "to_u16 Op_Redact = 0x3000"
| "to_u16 Op_Ban = 0x3001"
| "to_u16 Op_Unban = 0x3002"
| "to_u16 Op_Kick = 0x3003"
| "to_u16 Op_Mute = 0x3004"
| "to_u16 Op_Pin = 0x3005"
| "to_u16 Op_Report = 0x3006"
| "to_u16 Op_FedAppend = 0x4000"
| "to_u16 Op_FedSync = 0x4001"
| "to_u16 Op_FedAck = 0x4002"
| "to_u16 Op_FedNack = 0x4003"
| "to_u16 Op_FedQuery = 0x4004"
| "to_u16 Op_CASPut = 0x5000"
| "to_u16 Op_CASGet = 0x5001"
| "to_u16 Op_CASDelete = 0x5002"
| "to_u16 Op_CASProof = 0x5003"

definition from_u16 :: "u16 \<Rightarrow> opcode option" where
  "from_u16 value =
    (if value = 0x0001 then Some Op_Hello
     else if value = 0x0002 then Some Op_HelloReply
     else if value = 0x0003 then Some Op_Goodbye
     else if value = 0x0004 then Some Op_Ping
     else if value = 0x0005 then Some Op_Pong
     else if value = 0x0006 then Some Op_SyncRequest
     else if value = 0x0007 then Some Op_SyncResponse
     else if value = 0x00FF then Some Op_Error
     else if value = 0x1000 then Some Op_KeyPackage
     else if value = 0x1001 then Some Op_Proposal
     else if value = 0x1002 then Some Op_Commit
     else if value = 0x1003 then Some Op_Welcome
     else if value = 0x1004 then Some Op_GroupInfo
     else if value = 0x1005 then Some Op_PSKProposal
     else if value = 0x1006 then Some Op_ReInit
     else if value = 0x1007 then Some Op_ExternalCommit
     else if value = 0x2000 then Some Op_AppMessage
     else if value = 0x2001 then Some Op_AppReceipt
     else if value = 0x2002 then Some Op_AppReaction
     else if value = 0x2003 then Some Op_AppEdit
     else if value = 0x2004 then Some Op_AppDelete
     else if value = 0x2005 then Some Op_Typing
     else if value = 0x2006 then Some Op_Presence
     else if value = 0x3000 then Some Op_Redact
     else if value = 0x3001 then Some Op_Ban
     else if value = 0x3002 then Some Op_Unban
     else if value = 0x3003 then Some Op_Kick
     else if value = 0x3004 then Some Op_Mute
     else if value = 0x3005 then Some Op_Pin
     else if value = 0x3006 then Some Op_Report
     else if value = 0x4000 then Some Op_FedAppend
     else if value = 0x4001 then Some Op_FedSync
     else if value = 0x4002 then Some Op_FedAck
     else if value = 0x4003 then Some Op_FedNack
     else if value = 0x4004 then Some Op_FedQuery
     else if value = 0x5000 then Some Op_CASPut
     else if value = 0x5001 then Some Op_CASGet
     else if value = 0x5002 then Some Op_CASDelete
     else if value = 0x5003 then Some Op_CASProof
     else None)"

lemma from_u16_to_u16 [simp]: "from_u16 (to_u16 op) = Some op"
  by (cases op) (simp_all add: from_u16_def)

lemma to_u16_inject [simp]: "to_u16 a = to_u16 b \<longleftrightarrow> a = b"
  by (metis from_u16_to_u16 option.inject)

lemma from_u16_SomeD: "from_u16 value = Some op \<Longrightarrow> value = to_u16 op"
  unfolding from_u16_def by (auto split: if_splits)

text \<open>
  The numeric encoding of opcodes is a bijection onto the recognised values: decoding
  yields an opcode exactly when the value is that opcode's code, so no two opcodes share
  a code and no other value is recognised.
\<close>

lemma from_u16_iff: "from_u16 value = Some op \<longleftrightarrow> value = to_u16 op"
  using from_u16_SomeD by auto

end
