(* ===== verification/Frame_Header.thy ===== *)
theory Frame_Header
  imports Opcodes
begin

text \<open>
  The fixed 128-byte frame header (\<^verbatim>\<open>lockframe-proto/src/header.rs\<close>), the flag byte
  (\<^verbatim>\<open>flags.rs\<close>) and the protocol errors (\<^verbatim>\<open>errors.rs\<close>). The packed struct of byte arrays is a
  record of byte strings; \<open>wf_header\<close> states their lengths, which the Rust types fix.
  Debug assertions are not part of the release build and are not modelled.
\<close>

section \<open>Protocol errors\<close>

datatype protocol_error =
    FrameTooShort nat nat          \<comment> \<open>expected, actual\<close>
  | InvalidMagic
  | PE_UnsupportedVersion u8
  | PayloadTooLarge nat nat        \<comment> \<open>size, max\<close>
  | FrameTruncated nat nat         \<comment> \<open>expected, actual\<close>
  | CborEncode string
  | CborDecode string
  | InvalidOpcode u16
  | PayloadSizeMismatch nat nat    \<comment> \<open>header, actual\<close>
  | InvalidFlags u8

fun show_protocol_error :: "protocol_error \<Rightarrow> string" where
  "show_protocol_error (FrameTooShort expected actual) =
     ''frame too short: expected at least '' @ show_nat expected @ '' bytes, got '' @ show_nat actual"
| "show_protocol_error InvalidMagic =
     ''invalid magic number: expected 0x4C4F4652 ('' @ [CHR 34] @ ''LOFR'' @ [CHR 34] @ '')''"
| "show_protocol_error (PE_UnsupportedVersion v) = ''unsupported protocol version: '' @ show_word v"
| "show_protocol_error (PayloadTooLarge n m) =
     ''payload too large: '' @ show_nat n @ '' bytes exceeds maximum '' @ show_nat m"
| "show_protocol_error (FrameTruncated expected actual) =
     ''frame truncated: header claims '' @ show_nat expected @ '' payload bytes, but only ''
       @ show_nat actual @ '' available''"
| "show_protocol_error (CborEncode e) = ''failed to encode CBOR: '' @ e"
| "show_protocol_error (CborDecode e) = ''failed to decode CBOR: '' @ e"
| "show_protocol_error (InvalidOpcode c) = ''invalid opcode: '' @ show_hex_alt 6 c"
| "show_protocol_error (PayloadSizeMismatch h actual) =
     ''payload size mismatch: header says '' @ show_nat h @ '' bytes, actual '' @ show_nat actual"
| "show_protocol_error (InvalidFlags f) = ''invalid flags: '' @ show_hex_alt 4 f"

section \<open>Frame flags\<close>

datatype frame_flags = FrameFlags (flag_bits: u8)

definition COMPRESSED :: frame_flags where "COMPRESSED = FrameFlags 0x01"
definition FRAGMENTED :: frame_flags where "FRAGMENTED = FrameFlags 0x02"
definition PRIORITY :: frame_flags where "PRIORITY = FrameFlags 0x04"
definition FEDERATED :: frame_flags where "FEDERATED = FrameFlags 0x08"
definition EXTERNAL :: frame_flags where "EXTERNAL = FrameFlags 0x10"
definition EPHEMERAL :: frame_flags where "EPHEMERAL = FrameFlags 0x20"
definition REDACTABLE :: frame_flags where "REDACTABLE = FrameFlags 0x40"
definition RESERVED :: frame_flags where "RESERVED = FrameFlags 0x80"

definition flags_from_byte :: "u8 \<Rightarrow> frame_flags" where
  "flags_from_byte b = FrameFlags b"

definition flags_to_byte :: "frame_flags \<Rightarrow> u8" where
  "flags_to_byte f = flag_bits f"

definition flags_default :: frame_flags where
  "flags_default = FrameFlags 0"

section \<open>The header\<close>

record frame_header =
  magic_bytes :: bytes
  version_byte :: u8
  flags_byte :: u8
  opcode_bytes :: bytes
  request_id_bytes :: bytes
  payload_size_bytes :: bytes
  room_id_bytes :: bytes
  sender_id_bytes :: bytes
  context_id_bytes :: bytes
  hlc_timestamp_bytes :: bytes
  epoch_bytes :: bytes
  signature_bytes :: bytes

definition HEADER_SIZE :: nat where "HEADER_SIZE = 128"
definition MAGIC :: u32 where "MAGIC = 0x4C4F4652"
definition VERSION :: u8 where "VERSION = 0x01"
definition MAX_PAYLOAD_SIZE :: u32 where "MAX_PAYLOAD_SIZE = 16 * 1024 * 1024"

lemma unat_MAX_PAYLOAD_SIZE [simp]: "unat MAX_PAYLOAD_SIZE = 16777216"
  by (simp add: MAX_PAYLOAD_SIZE_def)

definition wf_header :: "frame_header \<Rightarrow> bool" where
  "wf_header h \<longleftrightarrow>
     length (magic_bytes h) = 4 \<and> length (opcode_bytes h) = 2 \<and>
     length (request_id_bytes h) = 4 \<and> length (payload_size_bytes h) = 4 \<and>
     length (room_id_bytes h) = 16 \<and> length (sender_id_bytes h) = 8 \<and>
     length (context_id_bytes h) = 8 \<and> length (hlc_timestamp_bytes h) = 8 \<and>
     length (epoch_bytes h) = 8 \<and> length (signature_bytes h) = 64"

subsection \<open>Parsing and serialisation\<close>

definition slice :: "bytes \<Rightarrow> nat \<Rightarrow> nat \<Rightarrow> bytes" where
  "slice bs i n = take n (drop i bs)"

text \<open>The layout-compatible view of a 128-byte prefix (\<^verbatim>\<open>ref_from_prefix\<close>).\<close>

definition header_of_bytes :: "bytes \<Rightarrow> frame_header" where
  "header_of_bytes bs =
     \<lparr>magic_bytes = slice bs 0 4,
      version_byte = bs ! 4,
      flags_byte = bs ! 5,
      opcode_bytes = slice bs 6 2,
      request_id_bytes = slice bs 8 4,
      payload_size_bytes = slice bs 12 4,
      room_id_bytes = slice bs 16 16,
      sender_id_bytes = slice bs 32 8,
      context_id_bytes = slice bs 40 8,
      hlc_timestamp_bytes = slice bs 48 8,
      epoch_bytes = slice bs 56 8,
      signature_bytes = slice bs 64 64\<rparr>"

definition from_bytes :: "bytes \<Rightarrow> protocol_error + frame_header" where
  "from_bytes bs =
     (if length bs < HEADER_SIZE then Inl (FrameTooShort HEADER_SIZE (length bs))
      else let h = header_of_bytes bs in
        if from_be_bytes (magic_bytes h) \<noteq> MAGIC then Inl InvalidMagic
        else if version_byte h \<noteq> VERSION then Inl (PE_UnsupportedVersion (version_byte h))
        else let payload_size = from_be_bytes (payload_size_bytes h) :: u32 in
          if MAX_PAYLOAD_SIZE < payload_size
          then Inl (PayloadTooLarge (unat payload_size) (unat MAX_PAYLOAD_SIZE))
          else Inr h)"

definition to_bytes :: "frame_header \<Rightarrow> bytes" where
  "to_bytes h =
     magic_bytes h @ version_byte h # flags_byte h # opcode_bytes h @ request_id_bytes h
     @ payload_size_bytes h @ room_id_bytes h @ sender_id_bytes h @ context_id_bytes h
     @ hlc_timestamp_bytes h @ epoch_bytes h @ signature_bytes h"

text \<open>\<^verbatim>\<open>bytes[i..i + n].copy_from_slice(xs)\<close>\<close>

definition copy_at :: "nat \<Rightarrow> bytes \<Rightarrow> bytes \<Rightarrow> bytes" where
  "copy_at i xs bs = take i bs @ xs @ drop (i + length xs) bs"

definition new_header_bytes :: "opcode \<Rightarrow> bytes" where
  "new_header_bytes op =
     copy_at 6 (to_be_bytes (to_u16 op))
       ((copy_at 0 (to_be_bytes MAGIC) (replicate HEADER_SIZE 0))[4 := VERSION])"

text \<open>
  \<^verbatim>\<open>FrameHeader::new\<close> parses those bytes and would reach \<^verbatim>\<open>unreachable!\<close> on an error;
  \<open>header_new_exec\<close> keeps that branch, \<open>header_new\<close> is its result.
\<close>

definition header_new_exec :: "opcode \<Rightarrow> frame_header exec" where
  "header_new_exec op =
     (case from_bytes (new_header_bytes op) of Inl _ \<Rightarrow> Panic | Inr h \<Rightarrow> Done h)"

definition header_new :: "opcode \<Rightarrow> frame_header" where
  "header_new op = header_of_bytes (new_header_bytes op)"

subsection \<open>Accessors\<close>

definition header_magic :: "frame_header \<Rightarrow> u32" where
  "header_magic h = from_be_bytes (magic_bytes h)"

definition header_version :: "frame_header \<Rightarrow> u8" where
  "header_version h = version_byte h"

definition header_flags :: "frame_header \<Rightarrow> frame_flags" where
  "header_flags h = flags_from_byte (flags_byte h)"

definition header_opcode :: "frame_header \<Rightarrow> u16" where
  "header_opcode h = from_be_bytes (opcode_bytes h)"

definition opcode_enum :: "frame_header \<Rightarrow> opcode option" where
  "opcode_enum h = from_u16 (header_opcode h)"

definition header_request_id :: "frame_header \<Rightarrow> u32" where
  "header_request_id h = from_be_bytes (request_id_bytes h)"

definition header_room_id :: "frame_header \<Rightarrow> u128" where
  "header_room_id h = from_be_bytes (room_id_bytes h)"

definition header_sender_id :: "frame_header \<Rightarrow> u64" where
  "header_sender_id h = from_be_bytes (sender_id_bytes h)"

definition header_log_index :: "frame_header \<Rightarrow> u64" where
  "header_log_index h = from_be_bytes (context_id_bytes h)"

definition header_recipient_id :: "frame_header \<Rightarrow> u64" where
  "header_recipient_id h = from_be_bytes (context_id_bytes h)"

definition header_hlc_timestamp :: "frame_header \<Rightarrow> u64" where
  "header_hlc_timestamp h = from_be_bytes (hlc_timestamp_bytes h)"

definition header_epoch :: "frame_header \<Rightarrow> u64" where
  "header_epoch h = from_be_bytes (epoch_bytes h)"

definition header_payload_size :: "frame_header \<Rightarrow> u32" where
  "header_payload_size h = from_be_bytes (payload_size_bytes h)"

definition header_signature :: "frame_header \<Rightarrow> bytes" where
  "header_signature h = signature_bytes h"

text \<open>Bytes 0-39 and 48-63 of the serialised header.\<close>

definition signing_data :: "frame_header \<Rightarrow> bytes" where
  "signing_data h = (let bs = to_bytes h in take 40 bs @ slice bs 48 16)"

subsection \<open>Setters\<close>

definition set_room_id :: "u128 \<Rightarrow> frame_header \<Rightarrow> frame_header" where
  "set_room_id r h = h\<lparr>room_id_bytes := to_be_bytes r\<rparr>"

definition set_log_index :: "u64 \<Rightarrow> frame_header \<Rightarrow> frame_header" where
  "set_log_index i h = h\<lparr>context_id_bytes := to_be_bytes i\<rparr>"

definition set_recipient_id :: "u64 \<Rightarrow> frame_header \<Rightarrow> frame_header" where
  "set_recipient_id r h = h\<lparr>context_id_bytes := to_be_bytes r\<rparr>"

definition set_sender_id :: "u64 \<Rightarrow> frame_header \<Rightarrow> frame_header" where
  "set_sender_id s h = h\<lparr>sender_id_bytes := to_be_bytes s\<rparr>"

definition set_epoch :: "u64 \<Rightarrow> frame_header \<Rightarrow> frame_header" where
  "set_epoch e h = h\<lparr>epoch_bytes := to_be_bytes e\<rparr>"

definition set_signature :: "bytes \<Rightarrow> frame_header \<Rightarrow> frame_header" where
  "set_signature sig h = h\<lparr>signature_bytes := sig\<rparr>"

definition set_request_id :: "u32 \<Rightarrow> frame_header \<Rightarrow> frame_header" where
  "set_request_id r h = h\<lparr>request_id_bytes := to_be_bytes r\<rparr>"

definition set_flags :: "frame_flags \<Rightarrow> frame_header \<Rightarrow> frame_header" where
  "set_flags f h = h\<lparr>flags_byte := flags_to_byte f\<rparr>"

definition set_hlc_timestamp :: "u64 \<Rightarrow> frame_header \<Rightarrow> frame_header" where
  "set_hlc_timestamp t h = h\<lparr>hlc_timestamp_bytes := to_be_bytes t\<rparr>"

text \<open>Header equality compares the serialised bytes.\<close>

definition header_eq :: "frame_header \<Rightarrow> frame_header \<Rightarrow> bool" where
  "header_eq a b \<longleftrightarrow> to_bytes a = to_bytes b"

section \<open>Lemmas\<close>

subsection \<open>Slices\<close>

lemma length_slice [simp]: "i + n \<le> length bs \<Longrightarrow> length (slice bs i n) = n"
  by (simp add: slice_def)

lemma slice_join: "j = i + m \<Longrightarrow> slice bs i m @ slice bs j n = slice bs i (m + n)"
  by (simp add: slice_def take_add add.commute)

lemma slice_join_append:
  "j = i + m \<Longrightarrow> slice bs i m @ slice bs j n @ rest = slice bs i (m + n) @ rest"
  by (metis append_assoc slice_join)

lemma nth_Cons_slice: "i < length bs \<Longrightarrow> bs ! i # xs = slice bs i 1 @ xs"
  by (simp add: slice_def take_Suc_conv_app_nth hd_drop_conv_nth take_Suc)

lemma slice_skip: "length xs \<le> i \<Longrightarrow> slice (xs @ ys) i n = slice ys (i - length xs) n"
  by (simp add: slice_def)

lemma slice_here: "length xs = n \<Longrightarrow> slice (xs @ ys) 0 n = xs"
  by (simp add: slice_def)

lemma slice_skip_Cons: "0 < i \<Longrightarrow> slice (x # xs) i n = slice xs (i - 1) n"
  by (cases i) (simp_all add: slice_def)

lemma nth_skip: "length xs \<le> i \<Longrightarrow> (xs @ ys) ! i = ys ! (i - length xs)"
  by (simp add: nth_append)

lemma slice_prefix: "i + n \<le> m \<Longrightarrow> slice (take m bs) i n = slice bs i n"
  by (simp add: slice_def drop_take min_def)

lemmas slice_simps = slice_skip slice_here slice_skip_Cons nth_skip

subsection \<open>Layout\<close>

lemmas [wf_simps] = wf_header_def

lemma wf_header_lengths:
  assumes "wf_header h"
  shows "length (magic_bytes h) = 4" "length (opcode_bytes h) = 2"
    "length (request_id_bytes h) = 4" "length (payload_size_bytes h) = 4"
    "length (room_id_bytes h) = 16" "length (sender_id_bytes h) = 8"
    "length (context_id_bytes h) = 8" "length (hlc_timestamp_bytes h) = 8"
    "length (epoch_bytes h) = 8" "length (signature_bytes h) = 64"
  using assms by (simp_all add: wf_header_def)

lemma wf_header_of_bytes [wf_intros]:
  "HEADER_SIZE \<le> length bs \<Longrightarrow> wf_header (header_of_bytes bs)"
  by (simp add: wf_header_def header_of_bytes_def HEADER_SIZE_def)

lemma length_to_bytes [simp]: "wf_header h \<Longrightarrow> length (to_bytes h) = HEADER_SIZE"
  by (simp add: wf_header_def to_bytes_def HEADER_SIZE_def)

lemma to_bytes_header_of_bytes:
  assumes "HEADER_SIZE \<le> length bs"
  shows "to_bytes (header_of_bytes bs) = take HEADER_SIZE bs"
proof -
  have "4 < length bs" "5 < length bs" using assms by (simp_all add: HEADER_SIZE_def)
  then have "to_bytes (header_of_bytes bs) = slice bs 0 HEADER_SIZE"
    by (simp add: to_bytes_def header_of_bytes_def nth_Cons_slice slice_join_append slice_join
        HEADER_SIZE_def)
  then show ?thesis by (simp add: slice_def)
qed

lemma header_of_bytes_to_bytes:
  assumes "wf_header h"
  shows "header_of_bytes (to_bytes h @ rest) = h"
  using wf_header_lengths [OF assms]
  by (simp add: to_bytes_def header_of_bytes_def slice_simps)

lemma to_bytes_inject: "wf_header h \<Longrightarrow> wf_header h' \<Longrightarrow> to_bytes h = to_bytes h' \<longleftrightarrow> h = h'"
  by (metis header_of_bytes_to_bytes)

lemma header_eq_iff: "wf_header h \<Longrightarrow> wf_header h' \<Longrightarrow> header_eq h h' \<longleftrightarrow> h = h'"
  by (simp add: header_eq_def to_bytes_inject)

subsection \<open>Well-formedness and fields after an update\<close>

lemma wf_setters [simp, wf_intros]:
  "wf_header h \<Longrightarrow> wf_header (set_room_id r h)"
  "wf_header h \<Longrightarrow> wf_header (set_log_index i h)"
  "wf_header h \<Longrightarrow> wf_header (set_recipient_id i h)"
  "wf_header h \<Longrightarrow> wf_header (set_sender_id i h)"
  "wf_header h \<Longrightarrow> wf_header (set_epoch i h)"
  "wf_header h \<Longrightarrow> length sig = 64 \<Longrightarrow> wf_header (set_signature sig h)"
  "wf_header h \<Longrightarrow> wf_header (set_request_id q h)"
  "wf_header h \<Longrightarrow> wf_header (set_flags f h)"
  "wf_header h \<Longrightarrow> wf_header (set_hlc_timestamp i h)"
  by (simp_all add: wf_header_def set_room_id_def set_log_index_def set_recipient_id_def
      set_sender_id_def set_epoch_def set_signature_def set_request_id_def set_flags_def
      set_hlc_timestamp_def)

lemmas header_accessor_defs =
  header_magic_def header_version_def header_flags_def header_opcode_def opcode_enum_def
  header_request_id_def header_room_id_def header_sender_id_def header_log_index_def
  header_recipient_id_def header_hlc_timestamp_def header_epoch_def header_payload_size_def
  header_signature_def

lemmas header_setter_defs =
  set_room_id_def set_log_index_def set_recipient_id_def set_sender_id_def set_epoch_def
  set_signature_def set_request_id_def set_flags_def set_hlc_timestamp_def

lemma flags_round_trip [simp]: "flags_from_byte (flags_to_byte f) = f"
  by (simp add: flags_from_byte_def flags_to_byte_def)

lemma header_get_set [simp]:
  "header_room_id (set_room_id r h) = r"
  "header_log_index (set_log_index i h) = i"
  "header_recipient_id (set_recipient_id i h) = i"
  "header_sender_id (set_sender_id i h) = i"
  "header_epoch (set_epoch i h) = i"
  "header_signature (set_signature sig h) = sig"
  "header_request_id (set_request_id q h) = q"
  "header_flags (set_flags f h) = f"
  "header_hlc_timestamp (set_hlc_timestamp i h) = i"
  by (simp_all add: header_accessor_defs header_setter_defs)

lemma header_get_set_other [simp]:
  "header_magic (set_room_id r h) = header_magic h"
  "header_version (set_room_id r h) = header_version h"
  "header_opcode (set_room_id r h) = header_opcode h"
  "header_sender_id (set_room_id r h) = header_sender_id h"
  "header_epoch (set_room_id r h) = header_epoch h"
  "header_log_index (set_room_id r h) = header_log_index h"
  "header_payload_size (set_room_id r h) = header_payload_size h"
  "header_signature (set_room_id r h) = header_signature h"
  "header_request_id (set_room_id r h) = header_request_id h"
  "opcode_enum (set_room_id r h) = opcode_enum h"
  "header_magic (set_sender_id i h) = header_magic h"
  "header_version (set_sender_id i h) = header_version h"
  "header_opcode (set_sender_id i h) = header_opcode h"
  "header_room_id (set_sender_id i h) = header_room_id h"
  "header_epoch (set_sender_id i h) = header_epoch h"
  "header_log_index (set_sender_id i h) = header_log_index h"
  "header_payload_size (set_sender_id i h) = header_payload_size h"
  "header_signature (set_sender_id i h) = header_signature h"
  "header_request_id (set_sender_id i h) = header_request_id h"
  "opcode_enum (set_sender_id i h) = opcode_enum h"
  "header_magic (set_epoch i h) = header_magic h"
  "header_version (set_epoch i h) = header_version h"
  "header_opcode (set_epoch i h) = header_opcode h"
  "header_room_id (set_epoch i h) = header_room_id h"
  "header_sender_id (set_epoch i h) = header_sender_id h"
  "header_log_index (set_epoch i h) = header_log_index h"
  "header_payload_size (set_epoch i h) = header_payload_size h"
  "header_signature (set_epoch i h) = header_signature h"
  "header_request_id (set_epoch i h) = header_request_id h"
  "opcode_enum (set_epoch i h) = opcode_enum h"
  "header_magic (set_recipient_id i h) = header_magic h"
  "header_version (set_recipient_id i h) = header_version h"
  "header_opcode (set_recipient_id i h) = header_opcode h"
  "header_room_id (set_recipient_id i h) = header_room_id h"
  "header_sender_id (set_recipient_id i h) = header_sender_id h"
  "header_epoch (set_recipient_id i h) = header_epoch h"
  "header_payload_size (set_recipient_id i h) = header_payload_size h"
  "header_signature (set_recipient_id i h) = header_signature h"
  "header_request_id (set_recipient_id i h) = header_request_id h"
  "opcode_enum (set_recipient_id i h) = opcode_enum h"
  "header_magic (set_log_index i h) = header_magic h"
  "header_version (set_log_index i h) = header_version h"
  "header_opcode (set_log_index i h) = header_opcode h"
  "header_room_id (set_log_index i h) = header_room_id h"
  "header_sender_id (set_log_index i h) = header_sender_id h"
  "header_epoch (set_log_index i h) = header_epoch h"
  "header_payload_size (set_log_index i h) = header_payload_size h"
  "header_signature (set_log_index i h) = header_signature h"
  "header_request_id (set_log_index i h) = header_request_id h"
  "opcode_enum (set_log_index i h) = opcode_enum h"
  "header_magic (set_signature sg h) = header_magic h"
  "header_version (set_signature sg h) = header_version h"
  "header_opcode (set_signature sg h) = header_opcode h"
  "header_room_id (set_signature sg h) = header_room_id h"
  "header_sender_id (set_signature sg h) = header_sender_id h"
  "header_epoch (set_signature sg h) = header_epoch h"
  "header_log_index (set_signature sg h) = header_log_index h"
  "header_payload_size (set_signature sg h) = header_payload_size h"
  "header_request_id (set_signature sg h) = header_request_id h"
  "opcode_enum (set_signature sg h) = opcode_enum h"
  by (simp_all add: header_accessor_defs header_setter_defs)

subsection \<open>Validity\<close>

definition valid_header :: "frame_header \<Rightarrow> bool" where
  "valid_header h \<longleftrightarrow>
     header_magic h = MAGIC \<and> header_version h = VERSION \<and> header_payload_size h \<le> MAX_PAYLOAD_SIZE"

lemma from_bytes_valid:
  assumes "HEADER_SIZE \<le> length bs" and "valid_header (header_of_bytes bs)"
  shows "from_bytes bs = Inr (header_of_bytes bs)"
  using assms
  by (auto simp: from_bytes_def valid_header_def header_magic_def header_version_def
      header_payload_size_def Let_def not_less)

lemma from_bytes_InrD:
  assumes "from_bytes bs = Inr h"
  shows "HEADER_SIZE \<le> length bs" and "h = header_of_bytes bs" and "valid_header h" and "wf_header h"
  using assms wf_header_of_bytes [of bs]
  by (auto simp: from_bytes_def valid_header_def header_magic_def header_version_def
      header_payload_size_def Let_def not_less split: if_splits)

lemma from_bytes_to_bytes:
  assumes "wf_header h" "valid_header h"
  shows "from_bytes (to_bytes h @ rest) = Inr h"
  using assms by (simp add: from_bytes_valid header_of_bytes_to_bytes)

subsection \<open>The constructor\<close>

lemma new_header_bytes_eq:
  "new_header_bytes op =
     to_be_bytes MAGIC @ VERSION # 0 # to_be_bytes (to_u16 op) @ replicate 120 0"
proof -
  have z: "replicate HEADER_SIZE (0::u8) = replicate 4 0 @ 0 # 0 # replicate 2 0 @ replicate 120 0"
    by (simp add: HEADER_SIZE_def flip: replicate_Suc replicate_add)
  show ?thesis
    unfolding new_header_bytes_def z
    by (simp add: copy_at_def list_update_append)
qed

lemma header_new_fields:
  "header_new op =
     \<lparr>magic_bytes = to_be_bytes MAGIC, version_byte = VERSION, flags_byte = 0,
      opcode_bytes = to_be_bytes (to_u16 op), request_id_bytes = replicate 4 0,
      payload_size_bytes = replicate 4 0, room_id_bytes = replicate 16 0,
      sender_id_bytes = replicate 8 0, context_id_bytes = replicate 8 0,
      hlc_timestamp_bytes = replicate 8 0, epoch_bytes = replicate 8 0,
      signature_bytes = replicate 64 0\<rparr>"
  by (simp add: header_new_def new_header_bytes_eq header_of_bytes_def slice_simps)
    (simp add: slice_def)

lemma be_nat_zeros [simp]: "be_nat (replicate n 0) = 0"
  by (induction n) (simp_all add: be_nat_def)

lemma from_be_zeros [simp]: "from_be_bytes (replicate n 0) = 0"
  by (simp add: from_be_bytes_def)

lemma wf_header_new [simp, wf_intros]: "wf_header (header_new op)"
  by (simp add: wf_header_def header_new_fields)

lemma header_new_get [simp]:
  "opcode_enum (header_new op) = Some op"
  "header_opcode (header_new op) = to_u16 op"
  "header_room_id (header_new op) = 0"
  "header_sender_id (header_new op) = 0"
  "header_epoch (header_new op) = 0"
  "header_log_index (header_new op) = 0"
  "header_request_id (header_new op) = 0"
  "header_payload_size (header_new op) = 0"
  "header_magic (header_new op) = MAGIC"
  "header_version (header_new op) = VERSION"
  by (simp_all add: header_new_fields header_accessor_defs)

lemma valid_header_new [simp]: "valid_header (header_new op)"
  by (simp add: valid_header_def)

subsection \<open>The signed bytes\<close>

lemma signing_data_eq:
  assumes "wf_header h"
  shows "signing_data h =
     (magic_bytes h @ version_byte h # flags_byte h # opcode_bytes h @ request_id_bytes h
      @ payload_size_bytes h @ room_id_bytes h @ sender_id_bytes h)
     @ hlc_timestamp_bytes h @ epoch_bytes h"
  using wf_header_lengths [OF assms]
  by (simp add: signing_data_def to_bytes_def Let_def slice_simps) (simp add: slice_def)

lemma signing_data_set_log_index [simp]:
  "wf_header h \<Longrightarrow> signing_data (set_log_index i h) = signing_data h"
  by (simp add: signing_data_eq set_log_index_def wf_header_def)

lemma length_signing_data [simp]: "wf_header h \<Longrightarrow> length (signing_data h) = 56"
  by (simp add: signing_data_eq wf_header_def)

section \<open>Properties\<close>

text \<open>
  The header parser accepts a byte string with result \<open>h\<close> exactly when the string starts
  with the 128-byte serialisation of \<open>h\<close> and \<open>h\<close> has the right field widths, the right magic
  and version and a payload size within the limit: parsing neither loses, changes nor
  invents a header bit, and every header it returns has passed all three checks.
\<close>

lemma from_bytes_exact:
  "from_bytes bs = Inr h \<longleftrightarrow>
     wf_header h \<and> valid_header h \<and> (\<exists>rest. bs = to_bytes h @ rest)"
proof
  assume h: "from_bytes bs = Inr h"
  note parsed = from_bytes_InrD [OF h]
  have "bs = to_bytes h @ drop HEADER_SIZE bs"
    using parsed(1,2) by (simp add: to_bytes_header_of_bytes)
  with parsed(3,4) show "wf_header h \<and> valid_header h \<and> (\<exists>rest. bs = to_bytes h @ rest)"
    by blast
next
  assume "wf_header h \<and> valid_header h \<and> (\<exists>rest. bs = to_bytes h @ rest)"
  then show "from_bytes bs = Inr h" using from_bytes_to_bytes by blast
qed

text \<open>
  \<^verbatim>\<open>FrameHeader::new\<close> never reaches its \<^verbatim>\<open>unreachable!\<close>: for every opcode the bytes it
  builds parse, the result carries that opcode and all other fields are zero.
\<close>

lemma header_new_no_panic:
  "header_new_exec op = Done (header_new op) \<and> opcode_enum (header_new op) = Some op \<and>
   to_bytes (header_new op) =
     to_be_bytes MAGIC @ VERSION # 0 # to_be_bytes (to_u16 op) @ replicate 120 0"
proof -
  have len: "length (new_header_bytes op) = HEADER_SIZE"
    by (simp add: new_header_bytes_eq HEADER_SIZE_def)
  then have "from_bytes (new_header_bytes op) = Inr (header_new op)"
    using valid_header_new by (simp add: from_bytes_valid header_new_def)
  moreover have "to_bytes (header_new op) = new_header_bytes op"
    using len by (simp add: header_new_def to_bytes_header_of_bytes)
  ultimately show ?thesis by (simp add: header_new_exec_def new_header_bytes_eq)
qed

text \<open>
  Two headers have the same signing data exactly when they agree on every field but the
  server-assigned context field and the signature itself: a signature pins all the rest of the
  header, and it survives the sequencer's assignment of a log index.
\<close>

lemma signing_data_pins_header:
  assumes "wf_header h" and "wf_header h'"
  shows "signing_data h = signing_data h' \<longleftrightarrow>
     h' = h\<lparr>context_id_bytes := context_id_bytes h', signature_bytes := signature_bytes h'\<rparr>"
proof -
  note lens = wf_header_lengths [OF assms(1)] wf_header_lengths [OF assms(2)]
  show ?thesis
    unfolding signing_data_eq [OF assms(1)] signing_data_eq [OF assms(2)]
    using lens by (cases h; cases h') auto
qed

end
