(* ===== verification/Frames.thy ===== *)
theory Frames
  imports Frame_Header
begin

text \<open>
  Frames on the wire (\<^verbatim>\<open>lockframe-proto/src/frame.rs\<close>): a header followed by the raw payload
  bytes. \<open>encode\<close> appends to a growable buffer, which it leaves alone on an error.
\<close>

record frame =
  header :: frame_header
  payload :: bytes

definition frame_new :: "frame_header \<Rightarrow> bytes \<Rightarrow> frame" where
  "frame_new h p =
     \<lparr>header = h\<lparr>payload_size_bytes := to_be_bytes (of_nat (length p) :: u32)\<rparr>, payload = p\<rparr>"

definition encode :: "frame \<Rightarrow> bytes \<Rightarrow> protocol_error + bytes" where
  "encode f dst =
     (if unat MAX_PAYLOAD_SIZE < length (payload f)
      then Inl (PayloadTooLarge (length (payload f)) (unat MAX_PAYLOAD_SIZE))
      else Inr (dst @ to_bytes (header f) @ payload f))"

definition decode :: "bytes \<Rightarrow> protocol_error + frame" where
  "decode bs =
     (case from_bytes bs of
        Inl e \<Rightarrow> Inl e
      | Inr h \<Rightarrow>
          let payload_size = unat (header_payload_size h) in
          (case usize_checked_add HEADER_SIZE payload_size of
             None \<Rightarrow> Inl (PayloadTooLarge payload_size (unat MAX_PAYLOAD_SIZE))
           | Some total_size \<Rightarrow>
               if length bs < total_size
               then Inl (FrameTruncated payload_size (length bs - HEADER_SIZE))
               else Inr \<lparr>header = h, payload = slice bs HEADER_SIZE payload_size\<rparr>))"

section \<open>Well-formed frames\<close>

text \<open>
  The invariant of the type's documentation: a valid header whose payload size is the length
  of the payload.
\<close>

definition wf_frame :: "frame \<Rightarrow> bool" where
  "wf_frame f \<longleftrightarrow> wf_header (header f) \<and> valid_header (header f) \<and>
     unat (header_payload_size (header f)) = length (payload f)"

definition wire :: "frame \<Rightarrow> bytes" where
  "wire f = to_bytes (header f) @ payload f"

lemma wf_frameD:
  assumes "wf_frame f"
  shows "wf_header (header f)" "valid_header (header f)"
    "unat (header_payload_size (header f)) = length (payload f)"
    "length (payload f) \<le> unat MAX_PAYLOAD_SIZE"
proof -
  show parts: "wf_header (header f)" "valid_header (header f)"
    "unat (header_payload_size (header f)) = length (payload f)"
    using assms by (simp_all add: wf_frame_def)
  show "length (payload f) \<le> unat MAX_PAYLOAD_SIZE"
    using parts(2) unfolding parts(3) [symmetric] valid_header_def word_le_nat_alt by blast
qed

lemma header_size_no_overflow:
  assumes "n \<le> MAX_PAYLOAD_SIZE"
  shows "usize_checked_add HEADER_SIZE (unat n) = Some (HEADER_SIZE + unat n)"
  using assms by (simp add: usize_checked_add_def HEADER_SIZE_def word_le_nat_alt)

lemma decode_eq:
  assumes "from_bytes bs = Inr h"
  shows "decode bs =
    (if length bs < HEADER_SIZE + unat (header_payload_size h)
     then Inl (FrameTruncated (unat (header_payload_size h)) (length bs - HEADER_SIZE))
     else Inr \<lparr>header = h, payload = slice bs HEADER_SIZE (unat (header_payload_size h))\<rparr>)"
  using assms from_bytes_InrD(3) [OF assms]
  by (simp add: decode_def valid_header_def header_size_no_overflow Let_def)

lemma encode_wf: "wf_frame f \<Longrightarrow> encode f dst = Inr (dst @ wire f)"
  using wf_frameD(4) [of f] by (simp add: encode_def wire_def)

lemma length_wire: "wf_frame f \<Longrightarrow> length (wire f) = HEADER_SIZE + length (payload f)"
  by (simp add: wire_def wf_frame_def)

lemma decode_wire:
  assumes "wf_frame f"
  shows "decode (wire f @ rest) = Inr f"
proof -
  note wf = wf_frameD [OF assms]
  have "from_bytes (wire f @ rest) = Inr (header f)"
    using from_bytes_to_bytes [OF wf(1,2), of "payload f @ rest"] by (simp add: wire_def)
  moreover have "slice (wire f @ rest) HEADER_SIZE (length (payload f)) = payload f"
    using wf(1) by (simp add: wire_def slice_simps)
  ultimately show ?thesis
    using wf(3) by (simp add: decode_eq length_wire assms)
qed

lemma decode_InrD:
  assumes "decode bs = Inr f"
  shows "wf_frame f \<and> (\<exists>rest. bs = wire f @ rest)"
proof -
  obtain h where h: "from_bytes bs = Inr h"
    using assms by (auto simp: decode_def split: sum.splits)
  let ?n = "unat (header_payload_size h)"
  note parsed = from_bytes_InrD [OF h]
  have len: "HEADER_SIZE + ?n \<le> length bs"
    and f: "f = \<lparr>header = h, payload = slice bs HEADER_SIZE ?n\<rparr>"
    using assms by (auto simp: decode_eq [OF h] split: if_splits)
  have "take HEADER_SIZE bs @ slice bs HEADER_SIZE ?n = take (HEADER_SIZE + ?n) bs"
    by (simp add: slice_def take_add)
  then have "wire f = take (HEADER_SIZE + ?n) bs"
    using parsed(1,2) by (simp add: f wire_def to_bytes_header_of_bytes)
  then have "bs = wire f @ drop (HEADER_SIZE + ?n) bs"
    by simp
  moreover have "wf_frame f"
    using parsed len by (simp add: f wf_frame_def)
  ultimately show ?thesis by blast
qed

lemma wf_frame_new [wf_intros]:
  assumes "wf_header h" and "header_magic h = MAGIC" and "header_version h = VERSION"
    and "length p \<le> unat MAX_PAYLOAD_SIZE"
  shows "wf_frame (frame_new h p)"
  using assms
  by (simp add: wf_frame_def frame_new_def wf_header_def valid_header_def header_accessor_defs
      word_le_nat_alt unat_of_nat)

lemma frame_new_sel [simp]:
  "payload (frame_new h p) = p"
  "opcode_enum (header (frame_new h p)) = opcode_enum h"
  "header_opcode (header (frame_new h p)) = header_opcode h"
  "header_room_id (header (frame_new h p)) = header_room_id h"
  "header_sender_id (header (frame_new h p)) = header_sender_id h"
  "header_epoch (header (frame_new h p)) = header_epoch h"
  "header_log_index (header (frame_new h p)) = header_log_index h"
  "header_request_id (header (frame_new h p)) = header_request_id h"
  "header_signature (header (frame_new h p)) = header_signature h"
  "header_magic (header (frame_new h p)) = header_magic h"
  "header_version (header (frame_new h p)) = header_version h"
  by (simp_all add: frame_new_def header_accessor_defs)

lemma frame_new_payload_size [simp]:
  "header_payload_size (header (frame_new h p)) = of_nat (length p)"
  by (simp add: frame_new_def header_payload_size_def)

lemma wf_frame_new_header [simp]: "wf_header h \<Longrightarrow> wf_header (header (frame_new h p))"
  by (simp add: frame_new_def wf_header_def)

section \<open>Properties\<close>

text \<open>
  C7. The frame decoder accepts exactly the byte strings that start with the encoding of a
  well-formed frame, and returns that frame: whatever it accepts re-encodes to the bytes it
  consumed, and trailing data never changes the result.
\<close>

theorem decode_exact:
  "decode bs = Inr f \<longleftrightarrow>
     wf_frame f \<and> (\<exists>wire rest. encode f [] = Inr wire \<and> bs = wire @ rest)"
  using decode_wire decode_InrD encode_wf by (metis append_Nil sum.inject(2))

text \<open>
  Encoding the frame built from any well-formed header with the right magic and version
  fails exactly when the payload exceeds 16 MiB, and then leaves the buffer alone; otherwise
  it appends 128 bytes and the payload, and decoding what was appended, with
  any bytes behind it, gives the frame back.
\<close>

lemma frame_round_trip:
  assumes "wf_header h" and "header_magic h = MAGIC" and "header_version h = VERSION"
  shows "if 16777216 < length p
     then encode (frame_new h p) dst = Inl (PayloadTooLarge (length p) 16777216)
     else \<exists>w. encode (frame_new h p) dst = Inr (dst @ w) \<and> length w = 128 + length p \<and>
            (\<forall>rest. decode (w @ rest) = Inr (frame_new h p))"
proof (cases "16777216 < length p")
  case True
  then show ?thesis by (simp add: encode_def)
next
  case False
  then have wf: "wf_frame (frame_new h p)"
    using assms by (intro wf_frame_new) simp_all
  show ?thesis
    using False encode_wf [OF wf] decode_wire [OF wf] length_wire [OF wf]
    by (auto simp: HEADER_SIZE_def)
qed

text \<open>
  No strict prefix of an encoded frame decodes: a cut inside the header is reported as
  \<^verbatim>\<open>FrameTooShort\<close> and a cut inside the payload as \<^verbatim>\<open>FrameTruncated\<close> with the number of payload
  bytes that arrived.
\<close>

lemma truncation_detected:
  assumes "wf_frame f" and "n < 128 + length (payload f)" and "encode f [] = Inr w"
  shows "decode (take n w) =
     Inl (if n < 128 then FrameTooShort 128 n else FrameTruncated (length (payload f)) (n - 128))"
proof -
  note wf = wf_frameD [OF assms(1)]
  have w: "w = wire f" using encode_wf [OF assms(1), of "[]"] assms(3) by simp
  have len: "length (take n w) = n" using assms(1,2) w by (simp add: length_wire HEADER_SIZE_def)
  show ?thesis
  proof (cases "n < 128")
    case True
    with len show ?thesis by (simp add: decode_def from_bytes_def HEADER_SIZE_def)
  next
    case False
    then have "take n w = to_bytes (header f) @ take (n - 128) (payload f)"
      using wf(1) by (simp add: w wire_def HEADER_SIZE_def)
    then have "from_bytes (take n w) = Inr (header f)"
      using from_bytes_to_bytes [OF wf(1,2)] by simp
    from decode_eq [OF this] show ?thesis
      using False assms(2) wf(3) len by (simp add: HEADER_SIZE_def)
  qed
qed

end
