(* ===== verification/Mls_State.thy ===== *)
theory Mls_State
  imports Frames
begin

text \<open>
  MLS errors, the exported group state and the stateless frame validator
  (\<^verbatim>\<open>lockframe-core/src/mls/error.rs\<close>, \<^verbatim>\<open>state.rs\<close>, \<^verbatim>\<open>constants.rs\<close>, \<^verbatim>\<open>validator.rs\<close>). The Ed25519
  library is the parameter \<open>ed25519\<close>.
\<close>

section \<open>Errors\<close>

datatype mls_error =
    ME_Serialization string
  | ME_UnexpectedMessage string
  | ME_InvalidState u64 string            \<comment> \<open>epoch, operation\<close>
  | ME_EpochMismatch u64 u64              \<comment> \<open>expected, received\<close>
  | ME_MemberNotFound u64
  | ME_MemberAlreadyExists u64
  | ME_InvalidProposal string
  | ME_InvalidCommit string
  | ME_Crypto string
  | ME_Codec string
  | ME_Protocol string
  | ME_NotMember
  | ME_Timeout duration
  | ME_GroupNotFound
  | ME_ValidationFailed string

fun show_mls_error :: "mls_error \<Rightarrow> string" where
  "show_mls_error (ME_Serialization e) = ''serialization error: '' @ e"
| "show_mls_error (ME_UnexpectedMessage e) = ''unexpected message type: '' @ e"
| "show_mls_error (ME_InvalidState epoch operation) =
     ''invalid state: cannot '' @ operation @ '' in epoch '' @ show_word epoch"
| "show_mls_error (ME_EpochMismatch expected received) =
     ''epoch mismatch: expected '' @ show_word expected @ '', received '' @ show_word received"
| "show_mls_error (ME_MemberNotFound m) = ''member not found: '' @ show_word m"
| "show_mls_error (ME_MemberAlreadyExists m) = ''member already exists: '' @ show_word m"
| "show_mls_error (ME_InvalidProposal reason) = ''invalid proposal: '' @ reason"
| "show_mls_error (ME_InvalidCommit reason) = ''invalid commit: '' @ reason"
| "show_mls_error (ME_Crypto e) = ''crypto error: '' @ e"
| "show_mls_error (ME_Codec e) = ''codec error: '' @ e"
| "show_mls_error (ME_Protocol e) = ''protocol violation: '' @ e"
| "show_mls_error ME_NotMember = ''not a member of group''"
| "show_mls_error (ME_Timeout elapsed) = ''timeout after '' @ show_duration elapsed"
| "show_mls_error ME_GroupNotFound = ''group not found''"
| "show_mls_error (ME_ValidationFailed e) = ''validation failed: '' @ e"

fun mls_is_transient :: "mls_error \<Rightarrow> bool" where
  "mls_is_transient (ME_EpochMismatch _ _) = True"
| "mls_is_transient (ME_Timeout _) = True"
| "mls_is_transient _ = False"

definition MAX_EPOCH :: u64 where "MAX_EPOCH = 1000000"

section \<open>Exported group state\<close>

record mls_group_state =
  mgs_room_id :: u128
  mgs_epoch :: u64
  mgs_tree_hash :: bytes
  mgs_members :: "u64 list"
  mgs_member_keys :: "u64 \<rightharpoonup> bytes"
  mgs_openmls_state :: bytes

definition mls_group_state_new :: "u128 \<Rightarrow> u64 \<Rightarrow> bytes \<Rightarrow> u64 list \<Rightarrow> bytes \<Rightarrow> mls_group_state" where
  "mls_group_state_new room_id epoch tree_hash members openmls_state =
     \<lparr>mgs_room_id = room_id, mgs_epoch = epoch, mgs_tree_hash = tree_hash, mgs_members = members,
      mgs_member_keys = Map.empty, mgs_openmls_state = openmls_state\<rparr>"

definition with_keys ::
  "u128 \<Rightarrow> u64 \<Rightarrow> bytes \<Rightarrow> u64 list \<Rightarrow> (u64 \<rightharpoonup> bytes) \<Rightarrow> bytes \<Rightarrow> mls_group_state" where
  "with_keys room_id epoch tree_hash members member_keys openmls_state =
     \<lparr>mgs_room_id = room_id, mgs_epoch = epoch, mgs_tree_hash = tree_hash, mgs_members = members,
      mgs_member_keys = member_keys, mgs_openmls_state = openmls_state\<rparr>"

definition is_member :: "mls_group_state \<Rightarrow> u64 \<Rightarrow> bool" where
  "is_member st member_id \<longleftrightarrow> member_id \<in> set (mgs_members st)"

definition mgs_member_count :: "mls_group_state \<Rightarrow> nat" where
  "mgs_member_count st = length (mgs_members st)"

text \<open>
  The signature library: which 32-byte strings are verifying keys, which byte strings are
  signatures, and verification of a message under a key.
\<close>

record ed25519 =
  vk_from_bytes :: "bytes \<Rightarrow> bytes option"
  signature_from_slice :: "bytes \<Rightarrow> bytes option"
  vk_verify :: "bytes \<Rightarrow> bytes \<Rightarrow> bytes \<Rightarrow> bool"

definition member_key :: "ed25519 \<Rightarrow> mls_group_state \<Rightarrow> u64 \<Rightarrow> bytes option" where
  "member_key ed st member_id =
     (case mgs_member_keys st member_id of None \<Rightarrow> None | Some key_bytes \<Rightarrow> vk_from_bytes ed key_bytes)"

section \<open>The validator\<close>

datatype validation_result = Accept | Reject string

definition validate_signature ::
  "ed25519 \<Rightarrow> frame \<Rightarrow> mls_group_state \<Rightarrow> mls_error + validation_result" where
  "validate_signature ed f group_state =
     (let sender_id = header_sender_id (header f) in
      case member_key ed group_state sender_id of
        None \<Rightarrow> Inr (Reject (''member '' @ show_word sender_id
                 @ '' has no signature key (group state inconsistency)''))
      | Some verifying_key \<Rightarrow>
          (case signature_from_slice ed (header_signature (header f)) of
             None \<Rightarrow> Inr (Reject ''invalid signature format'')
           | Some signature \<Rightarrow>
               if \<not> vk_verify ed verifying_key (signing_data (header f)) signature
               then Inr (Reject (''signature verification failed for sender '' @ show_word sender_id))
               else Inr Accept))"

definition validate_frame ::
  "ed25519 \<Rightarrow> frame \<Rightarrow> u64 \<Rightarrow> mls_group_state \<Rightarrow> mls_error + validation_result" where
  "validate_frame ed f current_epoch group_state =
     (let frame_epoch = header_epoch (header f) in
      if frame_epoch \<noteq> current_epoch
      then Inr (Reject (''epoch mismatch: expected '' @ show_word current_epoch @ '', got ''
             @ show_word frame_epoch))
      else let sender_id = header_sender_id (header f) in
        if \<not> is_member group_state sender_id
        then Inr (Reject (''sender '' @ show_word sender_id @ '' not in group''))
        else validate_signature ed f group_state)"

definition validate_frame_no_state :: "frame \<Rightarrow> mls_error + validation_result" where
  "validate_frame_no_state f =
     (let frame_epoch = header_epoch (header f) in
      if frame_epoch \<noteq> 0
      then Inr (Reject (''no MLS state for room, expected epoch 0, got '' @ show_word frame_epoch))
      else Inr Accept)"

section \<open>Lemmas\<close>

lemma validate_signature_Accept:
  "validate_signature ed f st = Inr Accept \<longleftrightarrow>
     (\<exists>key sig. member_key ed st (header_sender_id (header f)) = Some key \<and>
        signature_from_slice ed (header_signature (header f)) = Some sig \<and>
        vk_verify ed key (signing_data (header f)) sig)"
  by (auto simp: validate_signature_def Let_def split: option.splits)

lemma validate_signature_cong:
  assumes "header_sender_id (header f) = header_sender_id (header g)"
    and "header_signature (header f) = header_signature (header g)"
    and "signing_data (header f) = signing_data (header g)"
  shows "validate_signature ed f st = validate_signature ed g st"
  by (simp only: validate_signature_def assms)

section \<open>Properties\<close>


text \<open>A concrete scheme for the witnesses: the signature is the message padded with zeros.\<close>

definition sample_ed25519 :: ed25519 where
  "sample_ed25519 =
     \<lparr>vk_from_bytes = Some, signature_from_slice = (\<lambda>s. if length s = 64 then Some s else None),
      vk_verify = (\<lambda>key m sig. length m = 56 \<and> sig = m @ replicate 8 0)\<rparr>"

definition sample_signed :: "frame_header \<Rightarrow> frame" where
  "sample_signed h = \<lparr>header = set_signature (signing_data h @ replicate 8 0) h, payload = []\<rparr>"

definition sample_state :: mls_group_state where
  "sample_state = with_keys 9 2 [] [5] [5 \<mapsto> []] []"

lemma sample_signed_accepted:
  assumes "wf_header h" and "header_sender_id h = 5"
  shows "validate_frame sample_ed25519 (sample_signed h) (header_epoch h) sample_state = Inr Accept"
proof -
  have "signing_data (set_signature sig h) = signing_data h" if "length sig = 64" for sig
    using assms(1) that by (simp add: signing_data_eq) (simp add: set_signature_def)
  with assms show ?thesis
    by (simp add: validate_frame_def validate_signature_def Let_def is_member_def member_key_def
        sample_ed25519_def sample_signed_def sample_state_def with_keys_def)
qed


end
