(* ===== verification/Storage_Backends.thy ===== *)
theory Storage_Backends
  imports Complex_Main "HOL-Library.Sublist" Mls_State
begin

text \<open>
  Storage (\<^verbatim>\<open>lockframe-server/src/storage\<close>): the trait as a record of operations on a state type,
  the in-memory backend and the fault-injecting wrapper. Both backends share their state behind
  a lock, so every operation, reads included, is a state transformer; a poisoned lock is not
  modelled. Reading a range may panic, hence its \<open>exec\<close> result.
\<close>

section \<open>The trait\<close>

datatype storage_error =
    SE_NotFound u128 u64        \<comment> \<open>room, log index\<close>
  | SE_Conflict u64 u64         \<comment> \<open>expected, got\<close>
  | SE_Serialization string
  | SE_Io string

fun show_storage_error :: "storage_error \<Rightarrow> string" where
  "show_storage_error (SE_NotFound r i) =
     ''frame not found: room '' @ show_word r @ '', index '' @ show_word i"
| "show_storage_error (SE_Conflict expected got) =
     ''log index conflict: expected '' @ show_word expected @ '', got '' @ show_word got"
| "show_storage_error (SE_Serialization e) = ''serialization error: '' @ e"
| "show_storage_error (SE_Io e) = ''I/O error: '' @ e"

record 's storage_ops =
  so_store_frame :: "u128 \<Rightarrow> u64 \<Rightarrow> frame \<Rightarrow> 's \<Rightarrow> 's \<times> (storage_error + unit)"
  so_latest_log_index :: "u128 \<Rightarrow> 's \<Rightarrow> 's \<times> (storage_error + u64 option)"
  so_load_frames :: "u128 \<Rightarrow> u64 \<Rightarrow> nat \<Rightarrow> 's \<Rightarrow> ('s \<times> (storage_error + frame list)) exec"
  so_store_mls_state :: "u128 \<Rightarrow> mls_group_state \<Rightarrow> 's \<Rightarrow> 's \<times> (storage_error + unit)"
  so_load_mls_state :: "u128 \<Rightarrow> 's \<Rightarrow> 's \<times> (storage_error + mls_group_state option)"

section \<open>The in-memory backend\<close>

record memory_storage =
  mem_frames :: "u128 \<rightharpoonup> frame list"
  mem_mls_states :: "u128 \<rightharpoonup> mls_group_state"

definition memory_new :: memory_storage where
  "memory_new = \<lparr>mem_frames = Map.empty, mem_mls_states = Map.empty\<rparr>"

definition room_count :: "memory_storage \<Rightarrow> nat" where
  "room_count s = card (dom (mem_frames s))"

definition total_frame_count :: "memory_storage \<Rightarrow> nat" where
  "total_frame_count s = (\<Sum>r \<in> dom (mem_frames s). length (the (mem_frames s r)))"

definition memory_store_frame ::
  "u128 \<Rightarrow> u64 \<Rightarrow> frame \<Rightarrow> memory_storage \<Rightarrow> memory_storage \<times> (storage_error + unit)" where
  "memory_store_frame room_id log_index f s =
     (let frames = (case mem_frames s room_id of Some fs \<Rightarrow> fs | None \<Rightarrow> []);
          entered = s\<lparr>mem_frames := (mem_frames s)(room_id \<mapsto> frames)\<rparr>;
          expected_index = of_nat (length frames) :: u64
      in if log_index \<noteq> expected_index
         then (entered, Inl (SE_Conflict expected_index log_index))
         else (entered\<lparr>mem_frames := (mem_frames entered)(room_id \<mapsto> frames @ [f])\<rparr>, Inr ()))"

definition memory_latest_log_index ::
  "u128 \<Rightarrow> memory_storage \<Rightarrow> memory_storage \<times> (storage_error + u64 option)" where
  "memory_latest_log_index room_id s =
     (s, Inr (case mem_frames s room_id of
        None \<Rightarrow> None
      | Some frames \<Rightarrow> if frames = [] then None else Some (of_nat (length frames) - 1)))"

text \<open>\<^verbatim>\<open>frames[start..end]\<close> panics when the range is decreasing; \<^verbatim>\<open>start + limit\<close> wraps.\<close>

definition memory_load_frames ::
  "u128 \<Rightarrow> u64 \<Rightarrow> nat \<Rightarrow> memory_storage \<Rightarrow> (memory_storage \<times> (storage_error + frame list)) exec" where
  "memory_load_frames room_id from limit s =
     (case mem_frames s room_id of
        None \<Rightarrow> Done (s, Inl (SE_NotFound room_id from))
      | Some frames \<Rightarrow>
          let start = unat from;
              end_index = min ((start + limit) mod 2 ^ 64) (length frames)
          in if length frames < start then Done (s, Inr [])
             else if end_index < start then Panic
             else Done (s, Inr (take (end_index - start) (drop start frames))))"

definition memory_store_mls_state ::
  "u128 \<Rightarrow> mls_group_state \<Rightarrow> memory_storage \<Rightarrow> memory_storage \<times> (storage_error + unit)" where
  "memory_store_mls_state room_id st s =
     (s\<lparr>mem_mls_states := (mem_mls_states s)(room_id \<mapsto> st)\<rparr>, Inr ())"

definition memory_load_mls_state ::
  "u128 \<Rightarrow> memory_storage \<Rightarrow> memory_storage \<times> (storage_error + mls_group_state option)" where
  "memory_load_mls_state room_id s = (s, Inr (mem_mls_states s room_id))"

definition memory_ops :: "memory_storage storage_ops" where
  "memory_ops =
     \<lparr>so_store_frame = memory_store_frame, so_latest_log_index = memory_latest_log_index,
      so_load_frames = memory_load_frames, so_store_mls_state = memory_store_mls_state,
      so_load_mls_state = memory_load_mls_state\<rparr>"

section \<open>The fault-injecting wrapper\<close>

text \<open>
  The failure rate is a finite floating-point number, hence rational; the quotient of a
  32-bit integer by \<open>2 ^ 32\<close> is exact in double precision, so the comparison is the
  rational one.
\<close>

record 's chaotic_storage =
  chaos_inner :: 's
  failure_rate :: rat
  rng_state :: u64
  operation_count :: nat

definition lcg_next :: "u64 \<Rightarrow> u64" where
  "lcg_next state = (1664525 * state + 1013904223) mod push_bit 32 1"

definition rng_should_fail :: "rat \<Rightarrow> u64 \<Rightarrow> u64 \<times> bool" where
  "rng_should_fail rate state =
     (let state' = lcg_next state in (state', rat_of_nat (unat state') / 2 ^ 32 < rate))"

definition chaotic_with_seed :: "'s \<Rightarrow> rat \<Rightarrow> u64 \<Rightarrow> 's chaotic_storage exec" where
  "chaotic_with_seed inner rate seed =
     (if 0 \<le> rate \<and> rate \<le> 1
      then Done \<lparr>chaos_inner = inner, failure_rate = rate, rng_state = seed, operation_count = 0\<rparr>
      else Panic)"

definition chaotic_new :: "'s \<Rightarrow> rat \<Rightarrow> 's chaotic_storage exec" where
  "chaotic_new inner rate =
     (if 0 \<le> rate \<and> rate \<le> 1 then chaotic_with_seed inner rate 0x123456789ABCDEF0 else Panic)"

text \<open>\<^verbatim>\<open>increment_operation_count\<close> and \<^verbatim>\<open>should_fail\<close>, which open every operation.\<close>

definition chaos_enter :: "'s chaotic_storage \<Rightarrow> 's chaotic_storage \<times> bool" where
  "chaos_enter c =
     (let (state', fail) = rng_should_fail (failure_rate c) (rng_state c)
      in (c\<lparr>operation_count := operation_count c + 1, rng_state := state'\<rparr>, fail))"

definition chaos_wrap ::
  "('s \<Rightarrow> 's \<times> (storage_error + 'a)) \<Rightarrow> 's chaotic_storage \<Rightarrow> 's chaotic_storage \<times> (storage_error + 'a)" where
  "chaos_wrap operation c =
     (let (c', fail) = chaos_enter c in
      if fail then (c', Inl (SE_Io ''chaotic failure injection''))
      else let (s', r) = operation (chaos_inner c') in (c'\<lparr>chaos_inner := s'\<rparr>, r))"

definition chaotic_ops :: "'s storage_ops \<Rightarrow> 's chaotic_storage storage_ops" where
  "chaotic_ops ops =
     \<lparr>so_store_frame = (\<lambda>r i f. chaos_wrap (so_store_frame ops r i f)),
      so_latest_log_index = (\<lambda>r. chaos_wrap (so_latest_log_index ops r)),
      so_load_frames = (\<lambda>r from limit c.
        let (c', fail) = chaos_enter c in
        if fail then Done (c', Inl (SE_Io ''chaotic failure injection''))
        else (case so_load_frames ops r from limit (chaos_inner c') of
                Panic \<Rightarrow> Panic
              | Done (s', res) \<Rightarrow> Done (c'\<lparr>chaos_inner := s'\<rparr>, res))),
      so_store_mls_state = (\<lambda>r st. chaos_wrap (so_store_mls_state ops r st)),
      so_load_mls_state = (\<lambda>r. chaos_wrap (so_load_mls_state ops r))\<rparr>"

lemma chaos_wrap_cases:
  assumes "chaos_wrap operation c = (c', r)"
  shows "chaos_inner c' = chaos_inner c \<and> r = Inl (SE_Io ''chaotic failure injection'') \<or>
    operation (chaos_inner c) = (chaos_inner c', r)"
  using assms
  by (auto simp: chaos_wrap_def chaos_enter_def Let_def split: prod.splits if_splits)

lemma chaos_load_cases:
  assumes "so_load_frames (chaotic_ops ops) r start limit c = Done (c', res)"
  shows "chaos_inner c' = chaos_inner c \<and> res = Inl (SE_Io ''chaotic failure injection'') \<or>
    so_load_frames ops r start limit (chaos_inner c) = Done (chaos_inner c', res)"
  using assms
  by (auto simp: chaotic_ops_def chaos_enter_def Let_def split: prod.splits if_splits exec.splits)

lemma chaotic_store_eqs:
  "so_store_frame (chaotic_ops ops) r i f = chaos_wrap (so_store_frame ops r i f)"
  "so_latest_log_index (chaotic_ops ops) r = chaos_wrap (so_latest_log_index ops r)"
  "so_store_mls_state (chaotic_ops ops) r st = chaos_wrap (so_store_mls_state ops r st)"
  "so_load_mls_state (chaotic_ops ops) r = chaos_wrap (so_load_mls_state ops r)"
  by (simp_all add: chaotic_ops_def)

section \<open>The contract\<close>

text \<open>The last index of a log.\<close>

definition latest_of :: "'f list \<Rightarrow> u64 option" where
  "latest_of frames = (if frames = [] then None else Some (of_nat (length frames - 1)))"

text \<open>Any call of the trait, as an event; a panic leaves the state as it was.\<close>

datatype storage_call =
    SC_StoreFrame u128 u64 frame
  | SC_LatestLogIndex u128
  | SC_LoadFrames u128 u64 nat
  | SC_StoreMlsState u128 mls_group_state
  | SC_LoadMlsState u128

fun storage_step :: "'s storage_ops \<Rightarrow> storage_call \<Rightarrow> 's \<Rightarrow> 's \<times> unit" where
  "storage_step ops (SC_StoreFrame r i f) s = (fst (so_store_frame ops r i f s), ())"
| "storage_step ops (SC_LatestLogIndex r) s = (fst (so_latest_log_index ops r s), ())"
| "storage_step ops (SC_LoadFrames r from limit) s =
     (case so_load_frames ops r from limit s of Panic \<Rightarrow> (s, ()) | Done (s', _) \<Rightarrow> (s', ()))"
| "storage_step ops (SC_StoreMlsState r st) s = (fst (so_store_mls_state ops r st s), ())"
| "storage_step ops (SC_LoadMlsState r) s = (fst (so_load_mls_state ops r s), ())"

locale storage_contract =
  fixes ops :: "'s storage_ops"
    and log :: "'s \<Rightarrow> u128 \<Rightarrow> frame list"
    and mls :: "'s \<Rightarrow> u128 \<Rightarrow> mls_group_state option"
  assumes store_frame_ok: "so_store_frame ops r i f s = (s', Inr u) \<Longrightarrow>
      i = of_nat (length (log s r)) \<and> log s' = (log s)(r := log s r @ [f]) \<and> mls s' = mls s"
    and store_frame_err: "so_store_frame ops r i f s = (s', Inl e) \<Longrightarrow> log s' = log s \<and> mls s' = mls s"
    and latest_ok: "so_latest_log_index ops r s = (s', Inr x) \<Longrightarrow> x = latest_of (log s r)"
    and latest_keeps: "so_latest_log_index ops r s = (s', y) \<Longrightarrow> log s' = log s \<and> mls s' = mls s"
    and load_ok: "so_load_frames ops r from limit s = Done (s', Inr fs) \<Longrightarrow> limit < 2 ^ 64 \<Longrightarrow>
      fs = take limit (drop (unat from) (log s r))"
    and load_keeps: "so_load_frames ops r from limit s = Done (s', z) \<Longrightarrow> log s' = log s \<and> mls s' = mls s"
    and store_mls_ok: "so_store_mls_state ops r st s = (s', Inr u) \<Longrightarrow>
      mls s' = (mls s)(r \<mapsto> st) \<and> log s' = log s"
    and store_mls_err: "so_store_mls_state ops r st s = (s', Inl e) \<Longrightarrow> mls s' = mls s \<and> log s' = log s"
    and load_mls_ok: "so_load_mls_state ops r s = (s', Inr w) \<Longrightarrow> w = mls s r"
    and load_mls_keeps: "so_load_mls_state ops r s = (s', v) \<Longrightarrow> log s' = log s \<and> mls s' = mls s"
begin

lemma step_log:
  "\<exists>added. log (fst (storage_step ops call s)) r = log s r @ added"
proof (cases call)
  case (SC_StoreFrame r' i f)
  obtain s' y where call_eq: "so_store_frame ops r' i f s = (s', y)" by fastforce
  show ?thesis
  proof (cases y)
    case (Inl e)
    with call_eq store_frame_err SC_StoreFrame show ?thesis by fastforce
  next
    case (Inr u)
    with call_eq have "log s' = (log s)(r' := log s r' @ [f])" using store_frame_ok by blast
    with call_eq SC_StoreFrame show ?thesis by simp
  qed
next
  case (SC_StoreMlsState r' st)
  obtain s' y where call_eq: "so_store_mls_state ops r' st s = (s', y)" by fastforce
  then have "log s' = log s" using store_mls_ok store_mls_err by (cases y) blast+
  with call_eq SC_StoreMlsState show ?thesis by simp
next
  case (SC_LatestLogIndex r')
  then show ?thesis using latest_keeps [of r' s] by (metis append_Nil2 prod.collapse storage_step.simps(2) fst_conv)
next
  case (SC_LoadFrames r' start limit)
  then show ?thesis
    using load_keeps [of r' start limit s] by (auto split: exec.splits)
next
  case (SC_LoadMlsState r')
  then show ?thesis using load_mls_keeps [of r' s] by (metis append_Nil2 prod.collapse storage_step.simps(5) fst_conv)
qed

sublocale append_only: preserved_by "storage_step ops" "\<lambda>s. prefix fs (log s r)" for fs r
  by unfold_locales (metis append_assoc prefix_def step_log)

lemma log_append_only: "prefix (log s r) (log (run_events (storage_step ops) calls s) r)"
  by (rule append_only.run_inv) simp

text \<open>A frame whose store was acknowledged is what every later successful read at its index returns.\<close>

lemma acknowledged_frame_loads:
  assumes "so_store_frame ops r i f s = (s1, Inr u)" and "length (log s r) < 2 ^ 64"
    and "so_load_frames ops r i limit (run_events (storage_step ops) calls s1) = Done (s2, Inr fs)"
    and "0 < limit" and "limit < 2 ^ 64"
  shows "\<exists>rest. fs = f # rest"
proof -
  have stored: "i = of_nat (length (log s r))" "log s1 r = log s r @ [f]"
    using store_frame_ok [OF assms(1)] by simp_all
  have i: "unat i = length (log s r)"
    using assms(2) by (simp add: stored(1) unat_of_nat)
  obtain added where "log (run_events (storage_step ops) calls s1) r = log s r @ f # added"
    using log_append_only [of s1 r calls] by (auto simp: stored prefix_def)
  with load_ok [OF assms(3,5)] i have "fs = take limit (f # added)" by simp
  with assms(4) show ?thesis by (cases limit) auto
qed

text \<open>The wrapper keeps the contract: a failed operation leaves the inner storage alone.\<close>

lemma chaotic_contract:
  "storage_contract (chaotic_ops ops) (\<lambda>c. log (chaos_inner c)) (\<lambda>c. mls (chaos_inner c))"
  by unfold_locales
    (auto dest!: chaos_wrap_cases chaos_load_cases simp: chaotic_store_eqs
      dest: store_frame_ok store_frame_err latest_ok latest_keeps load_ok load_keeps
        store_mls_ok store_mls_err load_mls_ok load_mls_keeps)

end

text \<open>A backend that fails only on a wrong index.\<close>

locale reliable_storage = storage_contract ops log mls
  for ops :: "'s storage_ops" and log and mls +
  assumes store_accepts: "i = of_nat (length (log s r)) \<Longrightarrow> \<exists>s'. so_store_frame ops r i f s = (s', Inr ())"
    and latest_total: "\<exists>s' x. so_latest_log_index ops r s = (s', Inr x)"
    and load_mls_total: "\<exists>s' w. so_load_mls_state ops r s = (s', Inr w)"
begin

lemma latest_index: "\<exists>s'. so_latest_log_index ops r s = (s', Inr (latest_of (log s r))) \<and> log s' = log s \<and> mls s' = mls s"
  using latest_total latest_ok latest_keeps by metis

lemma store_next:
  "\<exists>s'. so_store_frame ops r (of_nat (length (log s r))) f s = (s', Inr ()) \<and>
     log s' = (log s)(r := log s r @ [f]) \<and> mls s' = mls s"
proof -
  obtain s' where call_eq: "so_store_frame ops r (of_nat (length (log s r))) f s = (s', Inr ())"
    using store_accepts by blast
  from store_frame_ok [OF this] call_eq show ?thesis by blast
qed

lemma store_refuses:
  assumes "i \<noteq> of_nat (length (log s r))"
  shows "\<exists>s' e. so_store_frame ops r i f s = (s', Inl e) \<and> log s' = log s \<and> mls s' = mls s"
proof -
  obtain s' y where call_eq: "so_store_frame ops r i f s = (s', y)" by fastforce
  with assms store_frame_ok [of r i f s s'] store_frame_err [of r i f s s'] show ?thesis
    by (cases y) auto
qed

end

section \<open>The backends meet the contract\<close>

definition mem_log :: "memory_storage \<Rightarrow> u128 \<Rightarrow> frame list" where
  "mem_log s r = (case mem_frames s r of None \<Rightarrow> [] | Some fs \<Rightarrow> fs)"

lemma wrapped_below:
  assumes "(start :: nat) < m" "limit < m" "m \<le> start + limit"
  shows "(start + limit) mod m < start"
proof -
  have "(start + limit) mod m = start + limit - m"
    using assms by (simp add: mod_if)
  with assms show ?thesis by simp
qed

lemma memory_load_eq:
  assumes "limit < 2 ^ 64" and "mem_frames s r = Some fs"
  shows "memory_load_frames r i limit s =
    (if unat i \<le> length fs \<and> 2 ^ 64 \<le> unat i + limit then Panic
     else Done (s, Inr (take limit (drop (unat i) fs))))"
proof (cases "length fs < unat i")
  case True
  then show ?thesis using assms(2) by (simp add: memory_load_frames_def Let_def)
next
  case False
  have bound: "unat i < 2 ^ 64" using unat_u64_bound [of i] by simp
  show ?thesis
  proof (cases "2 ^ 64 \<le> unat i + limit")
    case True
    with wrapped_below [OF bound assms(1)] False show ?thesis
      using assms(2) by (simp add: memory_load_frames_def Let_def min_less_iff_disj)
  next
    case ok: False
    have "take (min (unat i + limit) (length fs) - unat i) (drop (unat i) fs)
        = take limit (drop (unat i) fs)"
      by (simp add: min_def)
    with ok False show ?thesis
      using assms(2) by (auto simp: memory_load_frames_def Let_def)
  qed
qed

lemma memory_ops_simps [simp]:
  "so_store_frame memory_ops = memory_store_frame"
  "so_latest_log_index memory_ops = memory_latest_log_index"
  "so_load_frames memory_ops = memory_load_frames"
  "so_store_mls_state memory_ops = memory_store_mls_state"
  "so_load_mls_state memory_ops = memory_load_mls_state"
  by (simp_all add: memory_ops_def)

lemma memory_latest_eq: "memory_latest_log_index r s = (s, Inr (latest_of (mem_log s r)))"
proof -
  have "xs \<noteq> [] \<Longrightarrow> of_nat (length xs) - 1 = (of_nat (length xs - 1) :: u64)" for xs :: "frame list"
    by (cases xs) simp_all
  then show ?thesis
    by (auto simp: memory_latest_log_index_def latest_of_def mem_log_def split: option.splits)
qed

lemma memory_store_eq:
  "memory_store_frame r i f s =
     (if i = of_nat (length (mem_log s r))
      then (s\<lparr>mem_frames := (mem_frames s)(r \<mapsto> mem_log s r @ [f])\<rparr>, Inr ())
      else (s\<lparr>mem_frames := (mem_frames s)(r \<mapsto> mem_log s r)\<rparr>,
            Inl (SE_Conflict (of_nat (length (mem_log s r))) i)))"
  by (simp add: memory_store_frame_def mem_log_def Let_def split: option.split)

lemma mem_log_upd [simp]:
  "mem_log (s\<lparr>mem_frames := (mem_frames s)(r \<mapsto> fs)\<rparr>) = (mem_log s)(r := fs)"
  by (auto simp: mem_log_def fun_eq_iff)

lemma memory_load_Done:
  assumes "memory_load_frames r i limit s = Done (s', res)"
  shows "s' = s" "res = Inr fs \<Longrightarrow> limit < 2 ^ 64 \<Longrightarrow> fs = take limit (drop (unat i) (mem_log s r))"
proof -
  show "s' = s" using assms
    by (auto simp: memory_load_frames_def Let_def split: option.splits if_splits)
  assume "res = Inr fs" "limit < 2 ^ 64"
  with assms show "fs = take limit (drop (unat i) (mem_log s r))"
  proof (cases "mem_frames s r")
    case None
    with assms \<open>res = Inr fs\<close> show ?thesis by (simp add: memory_load_frames_def)
  next
    case (Some frames)
    with assms \<open>res = Inr fs\<close> \<open>limit < 2 ^ 64\<close> show ?thesis
      by (auto simp: memory_load_eq mem_log_def split: if_splits)
  qed
qed

interpretation mem: reliable_storage memory_ops mem_log mem_mls_states
proof
  fix r i f s s' u e x y start limit fs z st w v
  show "so_store_frame memory_ops r i f s = (s', Inr u) \<Longrightarrow>
      i = of_nat (length (mem_log s r)) \<and> mem_log s' = (mem_log s)(r := mem_log s r @ [f]) \<and>
      mem_mls_states s' = mem_mls_states s"
    by (auto simp: memory_store_eq split: if_splits)
  show "so_store_frame memory_ops r i f s = (s', Inl e) \<Longrightarrow>
      mem_log s' = mem_log s \<and> mem_mls_states s' = mem_mls_states s"
    by (auto simp: memory_store_eq split: if_splits)
  show "so_latest_log_index memory_ops r s = (s', Inr x) \<Longrightarrow> x = latest_of (mem_log s r)"
    by (auto simp: memory_latest_eq)
  show "so_latest_log_index memory_ops r s = (s', y) \<Longrightarrow>
      mem_log s' = mem_log s \<and> mem_mls_states s' = mem_mls_states s"
    by (simp add: memory_latest_eq)
  show "so_load_frames memory_ops r start limit s = Done (s', Inr fs) \<Longrightarrow> limit < 2 ^ 64 \<Longrightarrow>
      fs = take limit (drop (unat start) (mem_log s r))"
    using memory_load_Done by simp
  show "so_load_frames memory_ops r start limit s = Done (s', z) \<Longrightarrow>
      mem_log s' = mem_log s \<and> mem_mls_states s' = mem_mls_states s"
    by (auto dest: memory_load_Done(1))
  show "so_store_mls_state memory_ops r st s = (s', Inr u) \<Longrightarrow>
      mem_mls_states s' = (mem_mls_states s)(r \<mapsto> st) \<and> mem_log s' = mem_log s"
    by (auto simp: memory_store_mls_state_def mem_log_def fun_eq_iff)
  show "so_store_mls_state memory_ops r st s = (s', Inl e) \<Longrightarrow>
      mem_mls_states s' = mem_mls_states s \<and> mem_log s' = mem_log s"
    by (simp add: memory_store_mls_state_def)
  show "so_load_mls_state memory_ops r s = (s', Inr w) \<Longrightarrow> w = mem_mls_states s r"
    by (auto simp: memory_load_mls_state_def)
  show "so_load_mls_state memory_ops r s = (s', v) \<Longrightarrow>
      mem_log s' = mem_log s \<and> mem_mls_states s' = mem_mls_states s"
    by (simp add: memory_load_mls_state_def)
  show "i = of_nat (length (mem_log s r)) \<Longrightarrow> \<exists>s'. so_store_frame memory_ops r i f s = (s', Inr ())"
    by (simp add: memory_store_eq)
  show "\<exists>s' x. so_latest_log_index memory_ops r s = (s', Inr x)"
    by (simp add: memory_latest_eq)
  show "\<exists>s' w. so_load_mls_state memory_ops r s = (s', Inr w)"
    by (simp add: memory_load_mls_state_def)
qed

interpretation chaos: storage_contract "chaotic_ops memory_ops"
  "\<lambda>c. mem_log (chaos_inner c)" "\<lambda>c. mem_mls_states (chaos_inner c)"
  by (rule mem.chaotic_contract)

lemma lcg_next_bound: "unat (lcg_next state) < 4294967296"
  unfolding lcg_next_def by (simp add: unat_mod push_bit_eq_mult)

lemma rng_rate_0: "rng_should_fail 0 state = (lcg_next state, False)"
proof -
  have "\<not> rat_of_nat n / 2 ^ 32 < 0" for n by (simp add: not_less)
  then show ?thesis unfolding rng_should_fail_def Let_def by blast
qed

lemma rng_rate_1: "rng_should_fail 1 state = (lcg_next state, True)"
proof -
  have "rat_of_nat n / 2 ^ 32 < 1" if "n < 4294967296" for n
  proof -
    have "rat_of_nat n < rat_of_nat 4294967296" using that by (simp only: of_nat_less_iff)
    then show ?thesis by (simp add: divide_less_eq)
  qed
  then show ?thesis unfolding rng_should_fail_def Let_def using lcg_next_bound by blast
qed

section \<open>Properties\<close>

text \<open>
  C9. Acknowledged frames survive: after the fault-injecting storage has acknowledged a frame at
  an index, whatever calls and injected failures follow, every read of that room at that index
  that succeeds starts with that frame. (Failure rate zero is the plain in-memory backend.)
\<close>

theorem acknowledged_frame_survives:
  assumes "so_store_frame (chaotic_ops memory_ops) r i f c = (c1, Inr ())"
    and "length (mem_log (chaos_inner c) r) < 2 ^ 64"
    and "so_load_frames (chaotic_ops memory_ops) r i limit
           (run_events (storage_step (chaotic_ops memory_ops)) calls c1) = Done (c2, Inr fs)"
    and "0 < limit" and "limit < 2 ^ 64"
  shows "\<exists>rest. fs = f # rest"
  by (rule chaos.acknowledged_frame_loads [OF assms])

definition sample_frame :: frame where
  "sample_frame = frame_new (set_room_id 9 (header_new Op_AppMessage)) [1]"

theorem acknowledged_frame_survives_witness:
  "let c = \<lparr>chaos_inner = memory_new, failure_rate = 1 / 10, rng_state = 1, operation_count = 0\<rparr>;
       c1 = fst (so_store_frame (chaotic_ops memory_ops) 9 0 sample_frame c)
   in \<exists>c2 fs rest. so_load_frames (chaotic_ops memory_ops) 9 0 5
        (run_events (storage_step (chaotic_ops memory_ops)) [SC_StoreFrame 9 7 sample_frame] c1)
        = Done (c2, Inr fs) \<and> fs = sample_frame # rest"
proof -
  let ?c = "\<lparr>chaos_inner = memory_new, failure_rate = 1 / 10, rng_state = 1, operation_count = 0\<rparr>"
  obtain c1 where 1: "so_store_frame (chaotic_ops memory_ops) 9 0 sample_frame ?c = (c1, Inr ())"
      and c1: "c1 = \<lparr>chaos_inner = memory_new\<lparr>mem_frames := [9 \<mapsto> [sample_frame]]\<rparr>, failure_rate = 1 / 10,
        rng_state = 1015568748, operation_count = 1\<rparr>"
    by (simp add: chaotic_store_eqs chaos_wrap_def chaos_enter_def rng_should_fail_def lcg_next_def
        memory_store_eq memory_new_def mem_log_def Let_def)
  obtain c2 fs where 2: "so_load_frames (chaotic_ops memory_ops) 9 0 5
        (run_events (storage_step (chaotic_ops memory_ops)) [SC_StoreFrame 9 7 sample_frame] c1)
        = Done (c2, Inr fs)"
    by (simp add: c1 chaotic_ops_def chaos_wrap_def chaos_enter_def rng_should_fail_def lcg_next_def
        memory_store_eq memory_new_def mem_log_def Let_def memory_load_frames_def)
  have "\<exists>rest. fs = sample_frame # rest"
    by (rule acknowledged_frame_survives [OF 1 _ 2]) (simp_all add: memory_new_def mem_log_def)
  with 1 2 show ?thesis by (auto simp: Let_def)
qed

text \<open>
  C33. Reading a range from the in-memory log panics exactly when the room has a log, the start is
  not past its end and start plus limit leaves 64 bits; in every other case with a log it
  returns the frames of the range that exist.
\<close>

theorem load_frames_panics_iff:
  assumes "limit < 2 ^ 64"
  shows "(memory_load_frames r from limit s = Panic \<longleftrightarrow>
       mem_frames s r \<noteq> None \<and> unat from \<le> length (mem_log s r) \<and> 2 ^ 64 \<le> unat from + limit) \<and>
     (mem_frames s r \<noteq> None \<and> memory_load_frames r from limit s \<noteq> Panic \<longrightarrow>
       memory_load_frames r from limit s = Done (s, Inr (take limit (drop (unat from) (mem_log s r)))))"
proof (cases "mem_frames s r")
  case None
  then show ?thesis by (simp add: memory_load_frames_def)
next
  case (Some fs)
  then show ?thesis by (simp add: memory_load_eq [OF assms] mem_log_def)
qed

theorem load_frames_panics_iff_witness:
  "memory_load_frames 9 1 (2 ^ 64 - 1) (memory_new\<lparr>mem_frames := [9 \<mapsto> [sample_frame]]\<rparr>) = Panic"
  using load_frames_panics_iff [of "2 ^ 64 - 1" 9 1 "memory_new\<lparr>mem_frames := [9 \<mapsto> [sample_frame]]\<rparr>"]
  by (simp add: mem_log_def)

text \<open>
  The injected failures follow the rate at its two ends: with rate zero the wrapper behaves as
  the storage it wraps, and with rate one every operation fails and the wrapped storage is never
  touched.
\<close>

lemma failure_rate_extremes:
  "(failure_rate c = 0 \<longrightarrow>
      (\<exists>c'. chaos_wrap operation c = (c', snd (operation (chaos_inner c))) \<and>
        chaos_inner c' = fst (operation (chaos_inner c)))) \<and>
   (failure_rate c = 1 \<longrightarrow>
      (\<exists>c'. chaos_wrap operation c = (c', Inl (SE_Io ''chaotic failure injection'')) \<and>
        chaos_inner c' = chaos_inner c))"
  by (auto simp: chaos_wrap_def chaos_enter_def rng_rate_0 rng_rate_1 split_beta)

end
