(* ===== verification/Sequencer_Model.thy ===== *)
theory Sequencer_Model
  imports Storage_Backends
begin

text \<open>
  The sequencer (\<^verbatim>\<open>lockframe-server/src/sequencer.rs\<close>), which assigns every room's frames their
  log indices. It reads the storage once per room; the storage operations are a parameter, and
  its state is passed along.
\<close>

section \<open>Errors and actions\<close>

datatype sequencer_error =
    SQ_Storage string
  | SQ_Validation string
  | SQ_Rejected string

fun show_sequencer_error :: "sequencer_error \<Rightarrow> string" where
  "show_sequencer_error (SQ_Storage e) = ''storage error: '' @ e"
| "show_sequencer_error (SQ_Validation e) = ''validation error: '' @ e"
| "show_sequencer_error (SQ_Rejected e) = ''frame rejected: '' @ e"

definition sequencer_error_of :: "storage_error \<Rightarrow> sequencer_error" where
  "sequencer_error_of e = SQ_Storage (show_storage_error e)"

datatype sequencer_action =
    AcceptFrame u128 u64 frame          \<comment> \<open>room, log index, frame\<close>
  | RejectFrame u128 string frame       \<comment> \<open>room, reason, original frame\<close>
  | StoreFrame u128 u64 frame           \<comment> \<open>room, log index, frame\<close>
  | SQ_BroadcastToRoom u128 frame       \<comment> \<open>room, frame\<close>

section \<open>The sequencer\<close>

record room_sequencer =
  next_log_index :: u64

record sequencer =
  seq_rooms :: "u128 \<rightharpoonup> room_sequencer"

definition sequencer_new :: sequencer where
  "sequencer_new = \<lparr>seq_rooms = Map.empty\<rparr>"

definition validate_frame_structure :: "frame \<Rightarrow> sequencer_error + unit" where
  "validate_frame_structure f =
     (if header_magic (header f) \<noteq> MAGIC then
        Inl (SQ_Validation (''invalid magic: got '' @ show_hex_alt 10 (header_magic (header f))
               @ '', expected '' @ show_hex_alt 10 MAGIC))
      else if header_version (header f) \<noteq> VERSION then
        Inl (SQ_Validation (''unsupported version: got '' @ show_word (header_version (header f))
               @ '', expected '' @ show_word VERSION))
      else if length (payload f) \<noteq> unat (header_payload_size (header f)) then
        Inl (SQ_Validation (''payload size mismatch: header claims ''
               @ show_word (header_payload_size (header f)) @ '', actual '' @ show_nat (length (payload f))))
      else if header_room_id (header f) = 0 then
        Inl (SQ_Validation ''room_id is zero (uninitialized?)'')
      else if MAX_EPOCH < header_epoch (header f) then
        Inl (SQ_Validation (''epoch '' @ show_word (header_epoch (header f)) @ '' exceeds MAX_EPOCH ''
               @ show_word MAX_EPOCH))
      else Inr ())"

definition rebuild_frame_with_index :: "frame \<Rightarrow> u64 \<Rightarrow> frame" where
  "rebuild_frame_with_index original log_index =
     frame_new (set_log_index log_index (header original)) (payload original)"

text \<open>Loading the next index of a room on first use; \<^verbatim>\<open>i + 1\<close> wraps.\<close>

definition init_room ::
  "'s storage_ops \<Rightarrow> u128 \<Rightarrow> sequencer \<Rightarrow> 's \<Rightarrow> sequencer \<times> 's \<times> (sequencer_error + unit)" where
  "init_room ops room_id sq s =
     (if seq_rooms sq room_id \<noteq> None then (sq, s, Inr ())
      else case so_latest_log_index ops room_id s of
        (s', Inl e) \<Rightarrow> (sq, s', Inl (sequencer_error_of e))
      | (s', Inr latest_index) \<Rightarrow>
          let next_index = (case latest_index of Some i \<Rightarrow> i + 1 | None \<Rightarrow> 0)
          in (sq\<lparr>seq_rooms := (seq_rooms sq)(room_id \<mapsto> \<lparr>next_log_index = next_index\<rparr>)\<rparr>, s', Inr ()))"

definition seq_process_frame ::
  "'s storage_ops \<Rightarrow> frame \<Rightarrow> sequencer \<Rightarrow> 's \<Rightarrow>
     sequencer \<times> 's \<times> (sequencer_error + sequencer_action list)" where
  "seq_process_frame ops f sq s =
     (case validate_frame_structure f of
        Inl e \<Rightarrow> (sq, s, Inl e)
      | Inr _ \<Rightarrow>
          let room_id = header_room_id (header f) in
          if opcode_enum (header f) = Some Op_Welcome
          then (sq, s, Inr [SQ_BroadcastToRoom room_id f])
          else (case init_room ops room_id sq s of
              (sq1, s1, Inl e) \<Rightarrow> (sq1, s1, Inl e)
            | (sq1, s1, Inr _) \<Rightarrow>
                let log_index = next_log_index (the (seq_rooms sq1 room_id)) in
                (case checked_add log_index 1 of
                   None \<Rightarrow> (sq1, s1, Inl (SQ_Validation (''log_index overflow for room ''
                             @ show_word room_id @ '': attempted to increment beyond u64::MAX'')))
                 | Some next_index \<Rightarrow>
                     let sq2 = sq1\<lparr>seq_rooms := (seq_rooms sq1)(room_id \<mapsto> \<lparr>next_log_index = next_index\<rparr>)\<rparr>;
                         sequenced = rebuild_frame_with_index f log_index
                     in (sq2, s1, Inr [AcceptFrame room_id log_index sequenced,
                                       StoreFrame room_id log_index sequenced,
                                       SQ_BroadcastToRoom room_id sequenced]))))"

section \<open>What is sequenced, and where a room stands\<close>

definition sequenced_in :: "u128 \<Rightarrow> frame \<Rightarrow> bool" where
  "sequenced_in r f \<longleftrightarrow> validate_frame_structure f = Inr () \<and> opcode_enum (header f) \<noteq> Some Op_Welcome \<and>
     header_room_id (header f) = r"

lemma rebuild_sel [simp]:
  "payload (rebuild_frame_with_index f i) = payload f"
  "header_log_index (header (rebuild_frame_with_index f i)) = i"
  "header_room_id (header (rebuild_frame_with_index f i)) = header_room_id (header f)"
  "header_sender_id (header (rebuild_frame_with_index f i)) = header_sender_id (header f)"
  "header_epoch (header (rebuild_frame_with_index f i)) = header_epoch (header f)"
  "header_signature (header (rebuild_frame_with_index f i)) = header_signature (header f)"
  "opcode_enum (header (rebuild_frame_with_index f i)) = opcode_enum (header f)"
  by (simp_all add: rebuild_frame_with_index_def)

lemma validated_payload_size:
  assumes "validate_frame_structure f = Inr ()" and "wf_header (header f)"
  shows "to_be_bytes (of_nat (length (payload f)) :: u32) = payload_size_bytes (header f)"
proof -
  have "length (payload f) = unat (header_payload_size (header f))"
    using assms(1) by (auto simp: validate_frame_structure_def split: if_splits)
  then have "(of_nat (length (payload f)) :: u32) = header_payload_size (header f)"
    by simp
  then show ?thesis
    using wf_header_lengths [OF assms(2)] by (simp add: header_payload_size_def be32.enc_dec)
qed

text \<open>Rebuilding a validated frame changes the context field and nothing else.\<close>

lemma rebuild_validated:
  assumes "validate_frame_structure f = Inr ()" and "wf_header (header f)"
  shows "rebuild_frame_with_index f i = f\<lparr>header := set_log_index i (header f)\<rparr>"
  using validated_payload_size [OF assms]
  by (simp add: rebuild_frame_with_index_def frame_new_def set_log_index_def)

text \<open>The index the next sequenced frame of a room will get, given the room's log.\<close>

definition standing :: "sequencer \<Rightarrow> (u128 \<Rightarrow> frame list) \<Rightarrow> u128 \<Rightarrow> u64" where
  "standing sq lg r =
     (case seq_rooms sq r of
        Some room \<Rightarrow> next_log_index room
      | None \<Rightarrow> of_nat (length (lg r)))"

context reliable_storage
begin

lemma latest_plus_one: "(case latest_of xs of Some i \<Rightarrow> i + 1 | None \<Rightarrow> 0) = (of_nat (length xs) :: u64)"
proof (cases xs)
  case (Cons x xs')
  then show ?thesis by (simp add: latest_of_def add.commute)
qed (simp add: latest_of_def)

lemma init_room_eq:
  "\<exists>s'. init_room ops r sq s =
     (sq\<lparr>seq_rooms := (seq_rooms sq)(r \<mapsto> \<lparr>next_log_index = standing sq (log s) r\<rparr>)\<rparr>, s', Inr ()) \<and>
     log s' = log s \<and> mls s' = mls s"
proof (cases "seq_rooms sq r")
  case None
  obtain s' where "so_latest_log_index ops r s = (s', Inr (latest_of (log s r)))"
      "log s' = log s" "mls s' = mls s" using latest_index by blast
  with None show ?thesis
    by (simp add: init_room_def standing_def latest_plus_one Let_def)
next
  case (Some room)
  then show ?thesis
    by (cases room) (simp add: init_room_def standing_def fun_upd_idem)
qed

lemma seq_process_sequenced:
  assumes "sequenced_in r f" and "standing sq (log s) r \<noteq> - 1"
  shows "\<exists>sq' s'. seq_process_frame ops f sq s =
      (sq', s', Inr [AcceptFrame r (standing sq (log s) r) (rebuild_frame_with_index f (standing sq (log s) r)),
                     StoreFrame r (standing sq (log s) r) (rebuild_frame_with_index f (standing sq (log s) r)),
                     SQ_BroadcastToRoom r (rebuild_frame_with_index f (standing sq (log s) r))]) \<and>
      seq_rooms sq' = (seq_rooms sq)(r \<mapsto> \<lparr>next_log_index = standing sq (log s) r + 1\<rparr>) \<and>
      log s' = log s \<and> mls s' = mls s"
proof -
  obtain s' where "init_room ops r sq s =
     (sq\<lparr>seq_rooms := (seq_rooms sq)(r \<mapsto> \<lparr>next_log_index = standing sq (log s) r\<rparr>)\<rparr>, s', Inr ())"
     "log s' = log s" "mls s' = mls s" using init_room_eq by blast
  moreover have "checked_add (standing sq (log s) r) 1 = Some (standing sq (log s) r + 1)"
    using assms(2) checked_add_1_eq_None_iff [of "standing sq (log s) r"]
    by (auto simp: checked_add_def split: if_splits)
  ultimately show ?thesis
    using assms(1) by (auto simp: seq_process_frame_def sequenced_in_def Let_def)
qed

lemma seq_process_not_sequenced:
  assumes "\<And>r. \<not> sequenced_in r f"
  shows "\<exists>res. seq_process_frame ops f sq s = (sq, s, res) \<and>
     (\<forall>acts. res = Inr acts \<longrightarrow> acts = [SQ_BroadcastToRoom (header_room_id (header f)) f])"
proof (cases "validate_frame_structure f")
  case (Inl e)
  then show ?thesis by (simp add: seq_process_frame_def)
next
  case (Inr u)
  with assms [of "header_room_id (header f)"] have "opcode_enum (header f) = Some Op_Welcome"
    by (simp add: sequenced_in_def)
  with Inr show ?thesis by (simp add: seq_process_frame_def Let_def)
qed

end

text \<open>Feeding frames one after the other, and the indices accepted for one room.\<close>

fun seq_run ::
  "'s storage_ops \<Rightarrow> frame list \<Rightarrow> sequencer \<Rightarrow> 's \<Rightarrow> (sequencer_error + sequencer_action list) list" where
  "seq_run ops [] sq s = []"
| "seq_run ops (f # fs) sq s =
     (let (sq', s', res) = seq_process_frame ops f sq s in res # seq_run ops fs sq' s')"

fun accepted_of :: "u128 \<Rightarrow> sequencer_action list \<Rightarrow> (u64 \<times> frame) list" where
  "accepted_of r [] = []"
| "accepted_of r (AcceptFrame r' i f # acts) = (if r' = r then [(i, f)] else []) @ accepted_of r acts"
| "accepted_of r (a # acts) = accepted_of r acts"

fun accepted :: "u128 \<Rightarrow> (sequencer_error + sequencer_action list) list \<Rightarrow> (u64 \<times> frame) list" where
  "accepted r [] = []"
| "accepted r (Inl _ # rs) = accepted r rs"
| "accepted r (Inr acts # rs) = accepted_of r acts @ accepted r rs"

text \<open>Consecutive indices for a list of frames.\<close>

fun number_from :: "nat \<Rightarrow> frame list \<Rightarrow> (u64 \<times> frame) list" where
  "number_from n [] = []"
| "number_from n (f # fs) = (of_nat n, rebuild_frame_with_index f (of_nat n)) # number_from (Suc n) fs"

lemma of_nat_u64_not_max: "n < 2 ^ 64 - 1 \<Longrightarrow> (of_nat n :: u64) \<noteq> - 1"
proof
  assume "n < 2 ^ 64 - 1" and "(of_nat n :: u64) = - 1"
  then have "unat (of_nat n :: u64) = unat (- 1 :: u64)" by simp
  with \<open>n < 2 ^ 64 - 1\<close> show False
    by (simp add: unat_of_nat unsigned_minus_1_eq_mask mask_eq_exp_minus_1)
qed

context reliable_storage
begin

lemma seq_run_accepted:
  assumes "\<And>r. standing sq (log s) r = of_nat (n r)"
    and "\<And>r. n r + length (filter (sequenced_in r) fs) < 2 ^ 64"
  shows "accepted r (seq_run ops fs sq s) = number_from (n r) (filter (sequenced_in r) fs)"
  using assms
proof (induction fs arbitrary: sq s n)
  case Nil
  then show ?case by simp
next
  case (Cons f fs)
  show ?case
  proof (cases "\<exists>q. sequenced_in q f")
    case False
    then obtain res where res: "seq_process_frame ops f sq s = (sq, s, res)"
        "\<And>acts. res = Inr acts \<Longrightarrow> acts = [SQ_BroadcastToRoom (header_room_id (header f)) f]"
      using seq_process_not_sequenced [of f sq s] by blast
    have "accepted r (res # rs) = accepted r rs" for rs
      using res(2) by (cases res) auto
    moreover have "n q + length (filter (sequenced_in q) fs) < 2 ^ 64" for q
      using Cons.prems(2) [of q] False by simp
    ultimately show ?thesis
      using False Cons.IH [OF Cons.prems(1)] by (simp add: res(1))
  next
    case True
    then obtain q where q: "sequenced_in q f" by blast
    then have other: "sequenced_in r f \<longleftrightarrow> r = q" for r by (auto simp: sequenced_in_def)
    have small: "n q < 2 ^ 64 - 1" using Cons.prems(2) [of q] q by simp
    then obtain sq' s' where step: "seq_process_frame ops f sq s =
      (sq', s', Inr [AcceptFrame q (of_nat (n q)) (rebuild_frame_with_index f (of_nat (n q))),
                     StoreFrame q (of_nat (n q)) (rebuild_frame_with_index f (of_nat (n q))),
                     SQ_BroadcastToRoom q (rebuild_frame_with_index f (of_nat (n q)))])"
      "seq_rooms sq' = (seq_rooms sq)(q \<mapsto> \<lparr>next_log_index = of_nat (n q) + 1\<rparr>)" "log s' = log s"
      using seq_process_sequenced [OF q, of sq s] of_nat_u64_not_max Cons.prems(1) by metis
    have "standing sq' (log s') r = of_nat ((n(q := Suc (n q))) r)" for r
      using Cons.prems(1) [of r] step(2,3) by (simp add: standing_def add.commute)
    moreover have "(n(q := Suc (n q))) r + length (filter (sequenced_in r) fs) < 2 ^ 64" for r
      using Cons.prems(2) [of r] other [of r] by (auto split: if_splits)
    ultimately have "accepted r (seq_run ops fs sq' s') =
        number_from ((n(q := Suc (n q))) r) (filter (sequenced_in r) fs)"
      by (rule Cons.IH)
    then show ?thesis using step(1) other [of r] by simp
  qed
qed

end

section \<open>Properties\<close>

text \<open>
  C1. Gapless, per-room numbering: a fresh sequencer over the in-memory storage, fed any frames
  for any rooms in any order, accepts for each room exactly the well-formed frames addressed to it
  that are not Welcomes, in order, and numbers them consecutively starting at the length of the room's
  stored log. What other rooms receive has no influence, and rejected frames leave no gap.
\<close>

theorem gapless_room_log:
  assumes "\<And>r. length (mem_log s r) + length fs < 2 ^ 64"
  shows "accepted r (seq_run memory_ops fs sequencer_new s) =
     number_from (length (mem_log s r)) (filter (sequenced_in r) fs)"
proof (rule mem.seq_run_accepted)
  show "standing sequencer_new (mem_log s) q = of_nat (length (mem_log s q))" for q
    by (simp add: standing_def sequencer_new_def)
  show "length (mem_log s q) + length (filter (sequenced_in q) fs) < 2 ^ 64" for q
    using assms [of q] length_filter_le [of "sequenced_in q" fs] by linarith
qed

lemma sample_frame_sequenced: "sequenced_in 9 sample_frame"
  by (simp add: sequenced_in_def validate_frame_structure_def sample_frame_def MAX_EPOCH_def)

theorem gapless_room_log_witness:
  "accepted 9 (seq_run memory_ops [sample_frame, sample_frame] sequencer_new memory_new) =
     [(0, rebuild_frame_with_index sample_frame 0), (1, rebuild_frame_with_index sample_frame 1)]"
proof -
  have "accepted 9 (seq_run memory_ops [sample_frame, sample_frame] sequencer_new memory_new) =
     number_from (length (mem_log memory_new 9)) (filter (sequenced_in 9) [sample_frame, sample_frame])"
    by (rule gapless_room_log) (simp add: memory_new_def mem_log_def)
  then show ?thesis
    by (simp add: memory_new_def mem_log_def sample_frame_sequenced)
qed

text \<open>
  Sequencing touches only the context field: every frame the sequencer accepts is the
  submitted frame with its log index set, so a signature validates on the sequenced frame exactly when it
  validates on the submitted one.
\<close>

lemma sequencing_preserves_frame:
  assumes "seq_process_frame ops f sq s = (sq', s', Inr acts)" and "wf_header (header f)"
    and "AcceptFrame r i g \<in> set acts \<or> StoreFrame r i g \<in> set acts"
  shows "g = f\<lparr>header := set_log_index i (header f)\<rparr> \<and> r = header_room_id (header f) \<and>
     validate_signature ed g st = validate_signature ed f st"
proof -
  have valid: "validate_frame_structure f = Inr ()"
    using assms(1) by (auto simp: seq_process_frame_def split: sum.splits)
  have g: "g = rebuild_frame_with_index f i" "r = header_room_id (header f)"
    using assms(1,3) valid
    by (auto simp: seq_process_frame_def Let_def split: if_splits prod.splits sum.splits option.splits)
  have eq: "g = f\<lparr>header := set_log_index i (header f)\<rparr>"
    using rebuild_validated [OF valid assms(2)] g(1) by simp
  have "validate_signature ed g st = validate_signature ed f st"
    by (rule validate_signature_cong) (use assms(2) in \<open>simp_all add: eq\<close>)
  with eq g(2) show ?thesis by simp
qed

text \<open>
  The last index: a room whose next index is the largest 64-bit value accepts no further frame;
  the sequencer answers with an overflow error and the room's counter stays where it is.
\<close>

lemma index_overflow_is_error:
  assumes "sequenced_in r f" and "seq_rooms sq r = Some \<lparr>next_log_index = - 1\<rparr>"
  shows "\<exists>msg. seq_process_frame ops f sq s = (sq, s, Inl (SQ_Validation msg))"
  using assms checked_add_1_eq_None_iff [of "- 1 :: u64"]
  by (auto simp: seq_process_frame_def sequenced_in_def init_room_def Let_def)

end
