(* ===== verification/Mls_Group_Model.thy ===== *)
theory Mls_Group_Model
  imports Mls_State
begin

text \<open>
  The MLS group state machine (\<^verbatim>\<open>lockframe-core/src/mls/group.rs\<close>). OpenMLS is the parameter
  \<open>openmls\<close>: its values (providers, signers, groups with their provider, key packages, messages)
  belong to one opaque type \<open>'x\<close>, each method is a field, and a method that takes the group by
  mutable reference returns the new group. The environment is an opaque value; the current time is
  an argument.
\<close>

section \<open>The MLS library\<close>

record openmls_member =
  om_index :: u32
  om_identity :: bytes
  om_signature_key :: bytes

datatype 'x processed_content =
    ApplicationMessage bytes
  | ProposalMessage string            \<comment> \<open>its debug rendering\<close>
  | ExternalJoinProposalMessage
  | StagedCommitMessage 'x

record 'x openmls =
  om_provider_new :: "'x \<Rightarrow> 'x"
  om_signer_new :: "'x \<Rightarrow> string + 'x"
  om_signer_sign :: "'x \<Rightarrow> bytes \<Rightarrow> bytes option"
  om_group_new :: "'x \<Rightarrow> 'x \<Rightarrow> bytes \<Rightarrow> string + 'x"
  om_epoch :: "'x \<Rightarrow> u64"
  om_group_id :: "'x \<Rightarrow> bytes"
  om_own_leaf_index :: "'x \<Rightarrow> u32"
  om_members :: "'x \<Rightarrow> openmls_member list"
  om_export_secret :: "'x \<Rightarrow> string \<Rightarrow> bytes \<Rightarrow> nat \<Rightarrow> string + bytes"
  om_tree_hash :: "'x \<Rightarrow> bytes"
  om_is_active :: "'x \<Rightarrow> bool"
  om_has_pending_commit :: "'x \<Rightarrow> bool"
  om_clear_pending_commit :: "'x \<Rightarrow> 'x"
  om_merge_pending_commit :: "'x \<Rightarrow> 'x \<times> (string + unit)"
  om_deserialize_exact :: "bytes \<Rightarrow> string + 'x"
  om_protocol_message :: "'x \<Rightarrow> string + 'x"
  om_process_message :: "'x \<Rightarrow> 'x \<Rightarrow> 'x \<times> (string + bytes \<times> 'x processed_content)"
  om_merge_staged_commit :: "'x \<Rightarrow> 'x \<Rightarrow> 'x \<times> (string + unit)"
  om_create_message :: "'x \<Rightarrow> 'x \<Rightarrow> bytes \<Rightarrow> 'x \<times> (string + 'x)"
  om_serialize :: "'x \<Rightarrow> string + bytes"
  om_key_package_in :: "bytes \<Rightarrow> string + 'x"
  om_key_package_validate :: "'x \<Rightarrow> string + 'x"
  om_key_package_identity :: "'x \<Rightarrow> bytes"
  om_key_package_build :: "'x \<Rightarrow> 'x \<Rightarrow> bytes \<Rightarrow> 'x \<times> (string + 'x)"
  om_key_package_hash_ref :: "'x \<Rightarrow> string + bytes"
  om_add_members :: "'x \<Rightarrow> 'x \<Rightarrow> 'x list \<Rightarrow> 'x \<times> (string + 'x \<times> 'x)"
  om_remove_members :: "'x \<Rightarrow> 'x \<Rightarrow> u32 list \<Rightarrow> 'x \<times> (string + 'x)"
  om_leave_group :: "'x \<Rightarrow> 'x \<Rightarrow> 'x \<times> (string + 'x)"
  om_deserialize :: "bytes \<Rightarrow> string + 'x"
  om_extract_welcome :: "'x \<Rightarrow> 'x option"
  om_stage_welcome :: "'x \<Rightarrow> 'x \<Rightarrow> 'x \<times> (string + 'x)"
  om_into_group :: "'x \<Rightarrow> 'x \<Rightarrow> string + 'x"

section \<open>The group\<close>

type_synonym room_id = u128
type_synonym member_id = u64

record 'x pending_join_state =
  pj_provider :: 'x
  pj_signer :: 'x

datatype mls_action =
    SendProposal frame
  | SendCommit frame
  | SendWelcome member_id frame          \<comment> \<open>recipient\<close>
  | SendMessage frame
  | DeliverMessage member_id bytes       \<comment> \<open>sender, plaintext\<close>
  | RemoveGroup string
  | MA_Log string

definition extract_member_id_from_credential :: "bytes \<Rightarrow> mls_error + member_id" where
  "extract_member_id_from_credential content =
     (if length content < 8
      then Inl (ME_Crypto (''Invalid credential: expected 8 bytes for member_id, got ''
             @ show_nat (length content)))
      else Inr (from_le_bytes (take 8 content)))"

record pending_commit =
  target_epoch :: u64
  sent_at :: instant

record 'x mls_group =
  grp_room_id :: room_id
  grp_member_id :: member_id
  grp_mls_group :: 'x
  grp_signer :: 'x
  grp_pending_commit :: "pending_commit option"

definition mls_group_new ::
  "'x openmls \<Rightarrow> 'x \<Rightarrow> room_id \<Rightarrow> member_id \<Rightarrow> mls_error + 'x mls_group \<times> mls_action list" where
  "mls_group_new om env room_id member_id =
     (let provider = om_provider_new om env in
      case om_signer_new om env of
        Inl e \<Rightarrow> Inl (ME_Crypto (''Failed to generate keypair: '' @ e))
      | Inr signer \<Rightarrow>
          (case om_group_new om provider signer (to_le_bytes member_id) of
             Inl e \<Rightarrow> Inl (ME_Crypto (''Failed to create MLS group: '' @ e))
           | Inr g \<Rightarrow>
               Inr (\<lparr>grp_room_id = room_id, grp_member_id = member_id, grp_mls_group = g,
                     grp_signer = signer, grp_pending_commit = None\<rparr>,
                    [MA_Log (''Created group '' @ show_word room_id @ '' at epoch 0 (member_id=''
                       @ show_word member_id @ '')'')])))"

definition grp_epoch :: "'x openmls \<Rightarrow> 'x mls_group \<Rightarrow> u64" where
  "grp_epoch om g = om_epoch om (grp_mls_group g)"

definition grp_group_id :: "'x openmls \<Rightarrow> 'x mls_group \<Rightarrow> bytes" where
  "grp_group_id om g = om_group_id om (grp_mls_group g)"

definition own_leaf_index :: "'x openmls \<Rightarrow> 'x mls_group \<Rightarrow> u32" where
  "own_leaf_index om g = om_own_leaf_index om (grp_mls_group g)"

definition sign_frame_header :: "'x openmls \<Rightarrow> 'x mls_group \<Rightarrow> frame_header \<Rightarrow> frame_header" where
  "sign_frame_header om g h =
     (let signed_data = take 64 (to_bytes h) in
      case om_signer_sign om (grp_signer g) signed_data of
        None \<Rightarrow> h
      | Some signature \<Rightarrow> if length signature = 64 then set_signature signature h else h)"

definition member_leaf_indices :: "'x openmls \<Rightarrow> 'x mls_group \<Rightarrow> u32 list" where
  "member_leaf_indices om g = map om_index (om_members om (grp_mls_group g))"

fun find_map :: "('a \<Rightarrow> 'b option) \<Rightarrow> 'a list \<Rightarrow> 'b option" where
  "find_map f [] = None"
| "find_map f (x # xs) = (case f x of Some y \<Rightarrow> Some y | None \<Rightarrow> find_map f xs)"

definition member_id_by_leaf_index :: "'x openmls \<Rightarrow> 'x mls_group \<Rightarrow> u32 \<Rightarrow> member_id option" where
  "member_id_by_leaf_index om g leaf_index =
     find_map (\<lambda>m. if om_index m = leaf_index
                   then (case extract_member_id_from_credential (om_identity m) of
                           Inr i \<Rightarrow> Some i | Inl _ \<Rightarrow> None)
                   else None)
       (om_members om (grp_mls_group g))"

definition grp_export_secret ::
  "'x openmls \<Rightarrow> 'x mls_group \<Rightarrow> string \<Rightarrow> bytes \<Rightarrow> nat \<Rightarrow> mls_error + bytes" where
  "grp_export_secret om g label ctx n =
     (case om_export_secret om (grp_mls_group g) label ctx n of
        Inl e \<Rightarrow> Inl (ME_Crypto (''Failed to export secret: '' @ e))
      | Inr secret \<Rightarrow> Inr secret)"

definition has_pending_commit :: "'x mls_group \<Rightarrow> bool" where
  "has_pending_commit g \<longleftrightarrow> grp_pending_commit g \<noteq> None"

definition is_commit_timeout :: "'x mls_group \<Rightarrow> instant \<Rightarrow> duration \<Rightarrow> bool" where
  "is_commit_timeout g now timeout \<longleftrightarrow>
     (case grp_pending_commit g of None \<Rightarrow> False | Some p \<Rightarrow> timeout \<le> now - sent_at p)"

definition clear_pending_commit :: "'x openmls \<Rightarrow> 'x mls_group \<Rightarrow> 'x mls_group" where
  "clear_pending_commit om g =
     g\<lparr>grp_pending_commit := None, grp_mls_group := om_clear_pending_commit om (grp_mls_group g)\<rparr>"

definition merge_pending_commit :: "'x openmls \<Rightarrow> 'x mls_group \<Rightarrow> 'x mls_group \<times> (mls_error + unit)" where
  "merge_pending_commit om g =
     (case grp_pending_commit g of
        None \<Rightarrow> (g, Inl (ME_Crypto ''No pending commit to merge''))
      | Some p \<Rightarrow>
          (case om_merge_pending_commit om (grp_mls_group g) of
             (x, Inl e) \<Rightarrow> (g\<lparr>grp_mls_group := x\<rparr>, Inl (ME_Crypto (''Failed to merge pending commit: '' @ e)))
           | (x, Inr _) \<Rightarrow> (g\<lparr>grp_mls_group := x, grp_pending_commit := None\<rparr>, Inr ())))"

definition has_mls_pending_commit :: "'x openmls \<Rightarrow> 'x mls_group \<Rightarrow> bool" where
  "has_mls_pending_commit om g \<longleftrightarrow> om_has_pending_commit om (grp_mls_group g)"

definition grp_validate_frame ::
  "'x openmls \<Rightarrow> ed25519 \<Rightarrow> 'x mls_group \<Rightarrow> frame \<Rightarrow> mls_group_state option \<Rightarrow> mls_error + unit" where
  "grp_validate_frame om ed g f mls_state =
     (case (case mls_state of
              Some st \<Rightarrow> validate_frame ed f (grp_epoch om g) st
            | None \<Rightarrow> validate_frame_no_state f) of
        Inl e \<Rightarrow> Inl e
      | Inr Accept \<Rightarrow> Inr ()
      | Inr (Reject reason) \<Rightarrow> Inl (ME_ValidationFailed reason))"

definition grp_process_message ::
  "'x openmls \<Rightarrow> frame \<Rightarrow> 'x mls_group \<Rightarrow> 'x mls_group \<times> (mls_error + mls_action list)" where
  "grp_process_message om f g =
     (case om_deserialize_exact om (payload f) of
        Inl e \<Rightarrow> (g, Inl (ME_Serialization (''Failed to deserialize MLS message: '' @ e)))
      | Inr mls_message \<Rightarrow>
          (case om_protocol_message om mls_message of
             Inl e \<Rightarrow> (g, Inl (ME_Serialization (''Invalid MLS message type: '' @ e)))
           | Inr protocol_message \<Rightarrow>
               (case om_process_message om (grp_mls_group g) protocol_message of
                  (x, Inl e) \<Rightarrow>
                    (g\<lparr>grp_mls_group := x\<rparr>, Inl (ME_Crypto (''Failed to process message: '' @ e)))
                | (x, Inr (credential, content)) \<Rightarrow>
                    let g1 = g\<lparr>grp_mls_group := x\<rparr> in
                    (case extract_member_id_from_credential credential of
                       Inl e \<Rightarrow> (g1, Inl e)
                     | Inr sender_id \<Rightarrow>
                         (case content of
                            ApplicationMessage plaintext \<Rightarrow> (g1, Inr [DeliverMessage sender_id plaintext])
                          | ProposalMessage rendering \<Rightarrow>
                              (g1, Inr [MA_Log (''Received proposal in epoch '' @ show_word (grp_epoch om g1)
                                          @ '': '' @ rendering)])
                          | ExternalJoinProposalMessage \<Rightarrow>
                              (g1, Inr [MA_Log (''Received external join proposal in epoch ''
                                          @ show_word (grp_epoch om g1))])
                          | StagedCommitMessage staged_commit \<Rightarrow>
                              (case om_merge_staged_commit om (grp_mls_group g1) staged_commit of
                                 (y, Inl e) \<Rightarrow>
                                   (g1\<lparr>grp_mls_group := y\<rparr>, Inl (ME_Crypto (''Failed to merge commit: '' @ e)))
                               | (y, Inr _) \<Rightarrow>
                                   let g2 = g1\<lparr>grp_mls_group := y\<rparr> in
                                   (g2, Inr (MA_Log (''Advanced to epoch '' @ show_word (grp_epoch om g2))
                                      # (if \<not> om_is_active om (grp_mls_group g2)
                                         then [RemoveGroup ''Removed from group by commit''] else [])))))))))"

definition grp_create_message ::
  "'x openmls \<Rightarrow> bytes \<Rightarrow> 'x mls_group \<Rightarrow> 'x mls_group \<times> (mls_error + mls_action list)" where
  "grp_create_message om plaintext g =
     (case om_create_message om (grp_mls_group g) (grp_signer g) plaintext of
        (x, Inl e) \<Rightarrow> (g\<lparr>grp_mls_group := x\<rparr>, Inl (ME_Crypto (''Failed to create message: '' @ e)))
      | (x, Inr mls_message) \<Rightarrow>
          (g\<lparr>grp_mls_group := x\<rparr>,
           case om_serialize om mls_message of
             Inl e \<Rightarrow> Inl (ME_Serialization (''Failed to serialize message: '' @ e))
           | Inr bs \<Rightarrow> Inr [SendMessage \<lparr>header = header_new Op_AppMessage, payload = bs\<rparr>]))"

subsection \<open>Membership changes\<close>

text \<open>The Welcome frames, one per key package; the first bad credential ends the loop.\<close>

fun welcome_actions :: "'x openmls \<Rightarrow> 'x mls_group \<Rightarrow> bytes \<Rightarrow> 'x list \<Rightarrow> mls_error + mls_action list" where
  "welcome_actions om g welcome_payload [] = Inr []"
| "welcome_actions om g welcome_payload (kp # kps) =
     (case extract_member_id_from_credential (om_key_package_identity om kp) of
        Inl e \<Rightarrow> Inl e
      | Inr recipient \<Rightarrow>
          let h = set_sender_id (grp_member_id g)
                    (set_room_id (grp_room_id g) (set_recipient_id recipient (header_new Op_Welcome)))
          in (case welcome_actions om g welcome_payload kps of
                Inl e \<Rightarrow> Inl e
              | Inr acts \<Rightarrow> Inr (SendWelcome recipient \<lparr>header = h, payload = welcome_payload\<rparr> # acts)))"

definition grp_add_members ::
  "'x openmls \<Rightarrow> instant \<Rightarrow> 'x list \<Rightarrow> 'x mls_group \<Rightarrow> 'x mls_group \<times> (mls_error + mls_action list)" where
  "grp_add_members om now key_packages g =
     (let epoch_after = grp_epoch om g + 1 in
      case om_add_members om (grp_mls_group g) (grp_signer g) key_packages of
        (x, Inl e) \<Rightarrow> (g\<lparr>grp_mls_group := x\<rparr>, Inl (ME_Crypto (''Failed to add members: '' @ e)))
      | (x, Inr (mls_message_out, welcome)) \<Rightarrow>
          let g1 = g\<lparr>grp_mls_group := x,
                     grp_pending_commit := Some \<lparr>target_epoch = epoch_after, sent_at = now\<rparr>\<rparr>
          in (g1,
              case om_serialize om mls_message_out of
                Inl e \<Rightarrow> Inl (ME_Serialization (''Failed to serialize commit: '' @ e))
              | Inr commit_payload \<Rightarrow>
                  (case om_serialize om welcome of
                     Inl e \<Rightarrow> Inl (ME_Serialization (''Failed to serialize welcome: '' @ e))
                   | Inr welcome_payload \<Rightarrow>
                       (case welcome_actions om g1 welcome_payload key_packages of
                          Inl e \<Rightarrow> Inl e
                        | Inr welcomes \<Rightarrow>
                            Inr (SendCommit \<lparr>header = header_new Op_Commit, payload = commit_payload\<rparr>
                                 # welcomes
                                 @ [MA_Log (''Adding '' @ show_nat (length key_packages)
                                      @ '' members to group'')])))))"

fun read_key_packages :: "'x openmls \<Rightarrow> bytes list \<Rightarrow> mls_error + 'x list" where
  "read_key_packages om [] = Inr []"
| "read_key_packages om (bs # rest) =
     (case om_key_package_in om bs of
        Inl e \<Rightarrow> Inl (ME_Serialization (''Invalid KeyPackage: '' @ e))
      | Inr kp_in \<Rightarrow>
          (case om_key_package_validate om kp_in of
             Inl e \<Rightarrow> Inl (ME_Crypto (''Invalid KeyPackage signature: '' @ e))
           | Inr kp \<Rightarrow>
               (case read_key_packages om rest of Inl e \<Rightarrow> Inl e | Inr kps \<Rightarrow> Inr (kp # kps))))"

definition add_members_from_bytes ::
  "'x openmls \<Rightarrow> instant \<Rightarrow> bytes list \<Rightarrow> 'x mls_group \<Rightarrow> 'x mls_group \<times> (mls_error + mls_action list)" where
  "add_members_from_bytes om now key_packages_bytes g =
     (case read_key_packages om key_packages_bytes of
        Inl e \<Rightarrow> (g, Inl e)
      | Inr key_packages \<Rightarrow> grp_add_members om now key_packages g)"

fun member_ids_to_leaf_indices :: "'x openmls \<Rightarrow> 'x mls_group \<Rightarrow> member_id list \<Rightarrow> mls_error + u32 list" where
  "member_ids_to_leaf_indices om g [] = Inr []"
| "member_ids_to_leaf_indices om g (target_id # rest) =
     (case find_map (\<lambda>m. if 8 \<le> length (om_identity m) \<and> from_le_bytes (take 8 (om_identity m)) = target_id
                         then Some (om_index m) else None)
             (om_members om (grp_mls_group g)) of
        None \<Rightarrow> Inl (ME_Crypto (''Member '' @ show_word target_id @ '' not found in group''))
      | Some leaf_index \<Rightarrow>
          (case member_ids_to_leaf_indices om g rest of
             Inl e \<Rightarrow> Inl e
           | Inr indices \<Rightarrow> Inr (leaf_index # indices)))"

text \<open>\<^verbatim>\<open>{:?}\<close> of a slice of integers.\<close>

fun show_word_list_tail :: "'a::len word list \<Rightarrow> string" where
  "show_word_list_tail [] = '']''"
| "show_word_list_tail (w # ws) = '', '' @ show_word w @ show_word_list_tail ws"

fun show_word_list :: "'a::len word list \<Rightarrow> string" where
  "show_word_list [] = ''[]''"
| "show_word_list (w # ws) = ''['' @ show_word w @ show_word_list_tail ws"

definition grp_remove_members ::
  "'x openmls \<Rightarrow> instant \<Rightarrow> member_id list \<Rightarrow> 'x mls_group \<Rightarrow> 'x mls_group \<times> (mls_error + mls_action list)" where
  "grp_remove_members om now member_ids g =
     (if member_ids = [] then (g, Inl (ME_Crypto ''No members specified for removal''))
      else if grp_member_id g \<in> set member_ids
      then (g, Inl (ME_Crypto ''Cannot remove self with remove_members, use leave_group instead''))
      else let epoch_after = grp_epoch om g + 1 in
        case member_ids_to_leaf_indices om g member_ids of
          Inl e \<Rightarrow> (g, Inl e)
        | Inr leaf_indices \<Rightarrow>
            (case om_remove_members om (grp_mls_group g) (grp_signer g) leaf_indices of
               (x, Inl e) \<Rightarrow> (g\<lparr>grp_mls_group := x\<rparr>, Inl (ME_Crypto (''Failed to remove members: '' @ e)))
             | (x, Inr mls_message_out) \<Rightarrow>
                 (g\<lparr>grp_mls_group := x,
                    grp_pending_commit := Some \<lparr>target_epoch = epoch_after, sent_at = now\<rparr>\<rparr>,
                  case om_serialize om mls_message_out of
                    Inl e \<Rightarrow> Inl (ME_Serialization (''Failed to serialize commit: '' @ e))
                  | Inr commit_payload \<Rightarrow>
                      Inr [SendCommit \<lparr>header = header_new Op_Commit, payload = commit_payload\<rparr>,
                           MA_Log (''Removing '' @ show_nat (length member_ids) @ '' members from group: ''
                             @ show_word_list member_ids)])))"

definition grp_leave_group ::
  "'x openmls \<Rightarrow> 'x mls_group \<Rightarrow> 'x mls_group \<times> (mls_error + mls_action list)" where
  "grp_leave_group om g =
     (case om_leave_group om (grp_mls_group g) (grp_signer g) of
        (x, Inl e) \<Rightarrow> (g\<lparr>grp_mls_group := x\<rparr>, Inl (ME_Crypto (''Failed to create leave proposal: '' @ e)))
      | (x, Inr mls_message_out) \<Rightarrow>
          (g\<lparr>grp_mls_group := x\<rparr>,
           case om_serialize om mls_message_out of
             Inl e \<Rightarrow> Inl (ME_Serialization (''Failed to serialize proposal: '' @ e))
           | Inr proposal_payload \<Rightarrow>
               Inr [SendProposal \<lparr>header = header_new Op_Proposal, payload = proposal_payload\<rparr>,
                    MA_Log (''Created leave proposal for group '' @ show_word (grp_room_id g)
                      @ '' (member_id='' @ show_word (grp_member_id g) @ '')'')]))"

subsection \<open>Exporting the validation state\<close>

definition export_state :: "'x openmls \<Rightarrow> 'x mls_group \<Rightarrow> mls_error + bytes" where
  "export_state om g =
     (case grp_export_secret om g ''group_state'' [] 64 of
        Inl e \<Rightarrow> Inl (ME_Crypto (''Failed to export group state: '' @ show_mls_error e))
      | Inr secret \<Rightarrow> Inr secret)"

text \<open>The loop over the members: identifiers of at least eight bytes, keys of exactly 32.\<close>

fun collect_members ::
  "openmls_member list \<Rightarrow> member_id list \<Rightarrow> (member_id \<rightharpoonup> bytes) \<Rightarrow> member_id list \<times> (member_id \<rightharpoonup> bytes)" where
  "collect_members [] members keys = (members, keys)"
| "collect_members (m # ms) members keys =
     (if 8 \<le> length (om_identity m) then
        let i = from_le_bytes (take 8 (om_identity m)) in
        collect_members ms (members @ [i])
          (if length (om_signature_key m) = 32 then keys(i \<mapsto> om_signature_key m) else keys)
      else collect_members ms members keys)"

definition export_validation_state :: "'x openmls \<Rightarrow> 'x mls_group \<Rightarrow> mls_group_state" where
  "export_validation_state om g =
     (let (members, member_keys) = collect_members (om_members om (grp_mls_group g)) [] Map.empty;
          tree_hash = om_tree_hash om (grp_mls_group g)
      in with_keys (grp_room_id g) (grp_epoch om g)
           (if length tree_hash = 32 then tree_hash else replicate 32 0) members member_keys [])"

definition export_group_state :: "'x openmls \<Rightarrow> 'x mls_group \<Rightarrow> mls_error + mls_group_state" where
  "export_group_state om g =
     (let (members, member_keys) = collect_members (om_members om (grp_mls_group g)) [] Map.empty;
          tree_hash = om_tree_hash om (grp_mls_group g)
      in if length tree_hash \<noteq> 32 then Inl (ME_Crypto ''tree hash has unexpected length'')
         else (case export_state om g of
             Inl e \<Rightarrow> Inl e
           | Inr state \<Rightarrow>
               Inr (with_keys (grp_room_id g) (grp_epoch om g) tree_hash members member_keys state)))"

subsection \<open>Joining\<close>

definition generate_key_package ::
  "'x openmls \<Rightarrow> 'x \<Rightarrow> member_id \<Rightarrow> mls_error + bytes \<times> bytes \<times> 'x pending_join_state" where
  "generate_key_package om env member_id =
     (let provider = om_provider_new om env in
      case om_signer_new om env of
        Inl e \<Rightarrow> Inl (ME_Crypto (''Failed to generate keypair: '' @ e))
      | Inr signer \<Rightarrow>
          (case om_key_package_build om provider signer (to_le_bytes member_id) of
             (_, Inl e) \<Rightarrow> Inl (ME_Crypto (''Failed to build KeyPackage: '' @ e))
           | (provider', Inr key_package) \<Rightarrow>
               (case om_serialize om key_package of
                  Inl e \<Rightarrow> Inl (ME_Serialization (''Failed to serialize KeyPackage: '' @ e))
                | Inr serialized \<Rightarrow>
                    (case om_key_package_hash_ref om key_package of
                       Inl e \<Rightarrow> Inl (ME_Crypto (''Failed to compute KeyPackage hash: '' @ e))
                     | Inr hash_ref \<Rightarrow>
                         Inr (serialized, hash_ref, \<lparr>pj_provider = provider', pj_signer = signer\<rparr>)))))"

definition join_from_welcome ::
  "'x openmls \<Rightarrow> room_id \<Rightarrow> member_id \<Rightarrow> bytes \<Rightarrow> 'x pending_join_state \<Rightarrow>
     mls_error + 'x mls_group \<times> mls_action list" where
  "join_from_welcome om room_id member_id welcome_bytes pending_state =
     (case om_deserialize om welcome_bytes of
        Inl e \<Rightarrow> Inl (ME_Serialization (''Failed to deserialize Welcome: '' @ e))
      | Inr mls_message \<Rightarrow>
          (case om_extract_welcome om mls_message of
             None \<Rightarrow> Inl (ME_Serialization ''Message is not a Welcome'')
           | Some welcome \<Rightarrow>
               (case om_stage_welcome om (pj_provider pending_state) welcome of
                  (_, Inl e) \<Rightarrow> Inl (ME_Crypto (''Failed to stage Welcome: '' @ e))
                | (provider', Inr staged) \<Rightarrow>
                    (case om_into_group om provider' staged of
                       Inl e \<Rightarrow> Inl (ME_Crypto (''Failed to join group from Welcome: '' @ e))
                     | Inr x \<Rightarrow>
                         Inr (\<lparr>grp_room_id = room_id, grp_member_id = member_id, grp_mls_group = x,
                               grp_signer = pj_signer pending_state, grp_pending_commit = None\<rparr>,
                              [MA_Log (''Joined group '' @ show_word room_id @ '' at epoch ''
                                 @ show_word (om_epoch om x) @ '' via Welcome (member_id=''
                                 @ show_word member_id @ '')'')])))))"

section \<open>Lemmas\<close>

definition identity_of :: "openmls_member \<Rightarrow> member_id" where
  "identity_of m = from_le_bytes (take 8 (om_identity m))"

definition identified :: "openmls_member list \<Rightarrow> openmls_member list" where
  "identified ms = filter (\<lambda>m. 8 \<le> length (om_identity m)) ms"

lemma identified_simps [simp]:
  "identified [] = []"
  "identified (m # ms) = (if 8 \<le> length (om_identity m) then m # identified ms else identified ms)"
  by (simp_all add: identified_def)

lemma collect_members_fst:
  "fst (collect_members ms members keys) = members @ map identity_of (identified ms)"
  by (induction ms members keys rule: collect_members.induct) (simp_all add: Let_def identity_of_def)

lemma collect_members_other:
  "i \<notin> identity_of ` set (identified ms) \<Longrightarrow> snd (collect_members ms members keys) i = keys i"
  by (induction ms members keys rule: collect_members.induct) (auto simp: Let_def identity_of_def)

lemma collect_members_key:
  assumes "distinct (map identity_of (identified ms))" and "m \<in> set (identified ms)"
    and "length (om_signature_key m) = 32"
  shows "snd (collect_members ms members keys) (identity_of m) = Some (om_signature_key m)"
  using assms
proof (induction ms members keys rule: collect_members.induct)
  case (2 m' ms members keys)
  show ?case
  proof (cases "m = m' \<and> 8 \<le> length (om_identity m')")
    case True
    then have "identity_of m \<notin> identity_of ` set (identified ms)" using "2.prems"(1) by auto
    with True "2.prems"(3) show ?thesis
      by (simp add: Let_def collect_members_other) (simp add: identity_of_def)
  next
    case False
    with "2.prems" have "m \<in> set (identified ms)" "distinct (map identity_of (identified ms))"
      by (auto split: if_splits)
    with "2.IH" "2.prems"(3) show ?thesis by (auto simp: Let_def)
  qed
qed simp

lemma find_map_Some: "find_map f xs = Some y \<Longrightarrow> \<exists>x\<in>set xs. f x = Some y"
  by (induction xs) (auto split: option.splits)

lemma collect_members_key_from:
  "snd (collect_members ms acc keys) i = Some k \<Longrightarrow>
     keys i = Some k \<or> (\<exists>m\<in>set (identified ms). identity_of m = i \<and> om_signature_key m = k)"
proof (induction ms arbitrary: acc keys)
  case (Cons m ms)
  then show ?case
    by (fastforce simp: Let_def identity_of_def split: if_splits)
qed simp

lemma leaf_member:
  assumes "member_id_by_leaf_index om g leaf = Some i"
  shows "\<exists>m\<in>set (identified (om_members om (grp_mls_group g))). om_index m = leaf \<and> identity_of m = i"
  using assms unfolding member_id_by_leaf_index_def
  by (auto dest!: find_map_Some simp: identified_def identity_of_def extract_member_id_from_credential_def
      split: if_splits sum.splits)

lemma validated_by_member:
  assumes "grp_validate_frame om ed g f (Some (export_validation_state om g)) = Inr ()"
  shows "\<exists>m\<in>set (identified (om_members om (grp_mls_group g))). identity_of m = header_sender_id (header f) \<and>
    (\<exists>key sig. vk_from_bytes ed (om_signature_key m) = Some key \<and>
       signature_from_slice ed (header_signature (header f)) = Some sig \<and>
       vk_verify ed key (signing_data (header f)) sig)"
proof -
  have "validate_signature ed f (export_validation_state om g) = Inr Accept"
    using assms by (auto simp: grp_validate_frame_def validate_frame_def Let_def
        split: sum.splits validation_result.splits if_splits)
  then show ?thesis
    using collect_members_key_from [of "om_members om (grp_mls_group g)" "[]" Map.empty]
    by (fastforce simp: validate_signature_Accept member_key_def export_validation_state_def Let_def split_beta with_keys_def
        split: option.splits)
qed

lemma member_ids_to_leaf_indices_known:
  "member_ids_to_leaf_indices om g ids = Inr indices \<Longrightarrow>
     set ids \<subseteq> identity_of ` set (identified (om_members om (grp_mls_group g)))"
proof (induction om g ids arbitrary: indices rule: member_ids_to_leaf_indices.induct)
  case (2 om g i rest)
  then show ?case
    by (force simp: identity_of_def identified_def dest!: find_map_Some split: option.splits sum.splits if_splits)
qed simp

section \<open>Properties\<close>

text \<open>
  The exported state is faithful to the group: it carries the group's room and epoch, its member
  test is true exactly for the identifiers of the group's members, and, when those are distinct, it
  maps every member with a 32-byte key to that key.
\<close>

lemma exported_state_faithful:
  assumes "export_group_state om g = Inr st"
  shows "mgs_room_id st = grp_room_id g \<and> mgs_epoch st = grp_epoch om g \<and>
     (is_member st i \<longleftrightarrow> i \<in> identity_of ` set (identified (om_members om (grp_mls_group g)))) \<and>
     (distinct (map identity_of (identified (om_members om (grp_mls_group g)))) \<and>
      m \<in> set (identified (om_members om (grp_mls_group g))) \<and> length (om_signature_key m) = 32 \<longrightarrow>
        mgs_member_keys st (identity_of m) = Some (om_signature_key m))"
proof -
  let ?ms = "om_members om (grp_mls_group g)"
  obtain secret where st: "st = with_keys (grp_room_id g) (grp_epoch om g) (om_tree_hash om (grp_mls_group g))
      (fst (collect_members ?ms [] Map.empty)) (snd (collect_members ?ms [] Map.empty)) secret"
    using assms by (auto simp: export_group_state_def split_beta Let_def split: if_splits sum.splits)
  show ?thesis
    using collect_members_key [of ?ms m]
    by (simp add: st with_keys_def is_member_def collect_members_fst)
qed

text \<open>A concrete library for the witnesses: a group is its epoch, with two fixed members.\<close>

definition sample_members :: "openmls_member list" where
  "sample_members =
     [\<lparr>om_index = 0, om_identity = to_le_bytes (5 :: u64), om_signature_key = replicate 32 1\<rparr>,
      \<lparr>om_index = 1, om_identity = to_le_bytes (6 :: u64), om_signature_key = replicate 32 2\<rparr>]"

definition sample_openmls :: "nat openmls" where
  "sample_openmls =
     \<lparr>om_provider_new = (\<lambda>x. x), om_signer_new = (\<lambda>_. Inr 0),
      om_signer_sign = (\<lambda>_ m. Some m),
      om_group_new = (\<lambda>_ _ _. Inr 0), om_epoch = of_nat, om_group_id = (\<lambda>_. []),
      om_own_leaf_index = (\<lambda>_. 0), om_members = (\<lambda>_. sample_members),
      om_export_secret = (\<lambda>_ _ _ n. Inr (replicate n 0)), om_tree_hash = (\<lambda>_. replicate 32 0),
      om_is_active = (\<lambda>_. True), om_has_pending_commit = (\<lambda>_. False),
      om_clear_pending_commit = (\<lambda>x. x), om_merge_pending_commit = (\<lambda>x. (x + 1, Inr ())),
      om_deserialize_exact = (\<lambda>bs. Inr (length bs)), om_protocol_message = Inr,
      om_process_message = (\<lambda>x m. (x, Inr (to_le_bytes (5 :: u64), StagedCommitMessage m))),
      om_merge_staged_commit = (\<lambda>x _. (x + 1, Inr ())),
      om_create_message = (\<lambda>x _ _. (x, Inr 1)), om_serialize = (\<lambda>n. Inr (replicate n 0)),
      om_key_package_in = (\<lambda>bs. Inr (length bs)), om_key_package_validate = Inr,
      om_key_package_identity = (\<lambda>n. to_le_bytes (of_nat n :: u64)),
      om_key_package_build = (\<lambda>p _ _. (p, Inr 3)), om_key_package_hash_ref = (\<lambda>_. Inr []),
      om_add_members = (\<lambda>x _ _. (x, Inr (1, 2))), om_remove_members = (\<lambda>x _ _. (x, Inr 1)),
      om_leave_group = (\<lambda>x _. (x, Inr 1)), om_deserialize = (\<lambda>bs. Inr (length bs)),
      om_extract_welcome = Some, om_stage_welcome = (\<lambda>p w. (p, Inr w)),
      om_into_group = (\<lambda>_ w. Inr w)\<rparr>"

definition sample_group :: "nat mls_group" where
  "sample_group = \<lparr>grp_room_id = 9, grp_member_id = 5, grp_mls_group = 2, grp_signer = 0,
     grp_pending_commit = None\<rparr>"

lemma sample_identities:
  "identified sample_members = sample_members" "map identity_of sample_members = [5, 6]"
  by (simp_all add: sample_members_def identity_of_def)

text \<open>
  Removal is guarded: when removing members succeeds, nobody was asked to remove themselves, every
  identifier named belongs to a member of the group, and the group now waits for a commit to the
  next epoch.
\<close>

lemma remove_members_guarded:
  assumes "grp_remove_members om now ids g = (g', Inr acts)"
  shows "ids \<noteq> [] \<and> grp_member_id g \<notin> set ids \<and>
     set ids \<subseteq> identity_of ` set (identified (om_members om (grp_mls_group g))) \<and>
     grp_pending_commit g' = Some \<lparr>target_epoch = grp_epoch om g + 1, sent_at = now\<rparr>"
  using assms member_ids_to_leaf_indices_known [of om g ids]
  by (auto simp: grp_remove_members_def Let_def split: if_splits sum.splits prod.splits)

end
