(* ===== verification/Room_Manager.thy ===== *)
theory Room_Manager
  imports Sequencer_Model Mls_Group_Model
begin

text \<open>
  The room manager (\<^verbatim>\<open>lockframe-server/src/room_manager.rs\<close>): room creation, membership, catch-up
  reads and the pipeline that validates, sequences and converts a frame. A method may have
  changed the groups or the sequencer before it fails, so every method returns the new state with
  its result. The reading of the clock is an argument.
\<close>

section \<open>Actions and errors\<close>

record room_metadata =
  creator :: u64
  created_at :: instant

datatype room_action =
    Broadcast u128 frame bool instant               \<comment> \<open>room, frame, exclude sender, time\<close>
  | PersistFrame u128 u64 frame instant             \<comment> \<open>room, log index, frame, time\<close>
  | PersistMlsState u128 mls_group_state instant
  | RejectAction u64 string instant                 \<comment> \<open>sender, reason, time\<close>
  | SendSyncResponse u64 u128 "bytes list" bool u64 instant
      \<comment> \<open>sender, room, frames, has more, server epoch, time\<close>

datatype room_error =
    RE_MlsValidation mls_error
  | RE_Sequencing sequencer_error
  | RE_Storage storage_error
  | RE_RoomNotFound u128
  | RE_RoomAlreadyExists u128
  | RE_InvalidEpoch u64 u64                         \<comment> \<open>expected, actual\<close>
  | RE_NotMember u64

fun show_room_error :: "room_error \<Rightarrow> string" where
  "show_room_error (RE_MlsValidation e) = ''MLS validation failed: '' @ show_mls_error e"
| "show_room_error (RE_Sequencing e) = ''Sequencer error: '' @ show_sequencer_error e"
| "show_room_error (RE_Storage e) = ''Storage error: '' @ show_storage_error e"
| "show_room_error (RE_RoomNotFound r) = ''Room not found: '' @ show_hex32 r"
| "show_room_error (RE_RoomAlreadyExists r) = ''Room already exists: '' @ show_hex32 r"
| "show_room_error (RE_InvalidEpoch expected actual) =
     ''epoch mismatch: expected '' @ show_word expected @ '', got '' @ show_word actual"
| "show_room_error (RE_NotMember m) = ''not a member: '' @ show_word m"

section \<open>The manager\<close>

record 'x room_manager =
  rm_groups :: "u128 \<rightharpoonup> 'x mls_group"
  rm_sequencer :: sequencer
  rm_metadata :: "u128 \<rightharpoonup> room_metadata"

definition room_manager_new :: "'x room_manager" where
  "room_manager_new = \<lparr>rm_groups = Map.empty, rm_sequencer = sequencer_new, rm_metadata = Map.empty\<rparr>"

definition rm_has_room :: "'x room_manager \<Rightarrow> u128 \<Rightarrow> bool" where
  "rm_has_room rm room_id \<longleftrightarrow> rm_metadata rm room_id \<noteq> None"

definition rm_epoch :: "'x openmls \<Rightarrow> 'x room_manager \<Rightarrow> u128 \<Rightarrow> u64 option" where
  "rm_epoch om rm room_id = map_option (grp_epoch om) (rm_groups rm room_id)"

definition validate_frame_basic ::
  "'x openmls \<Rightarrow> ed25519 \<Rightarrow> frame \<Rightarrow> 'x mls_group \<Rightarrow> mls_group_state option \<Rightarrow> room_error + unit" where
  "validate_frame_basic om ed f grp mls_state =
     (let frame_epoch = header_epoch (header f) in
      if frame_epoch \<noteq> grp_epoch om grp
      then Inl (RE_InvalidEpoch (grp_epoch om grp) frame_epoch)
      else let sender_id = header_sender_id (header f) in
        case mls_state of
          Some st \<Rightarrow>
            if \<not> is_member st sender_id then Inl (RE_NotMember sender_id)
            else if member_key ed st sender_id = None
            then Inl (RE_MlsValidation (ME_MemberNotFound sender_id))
            else Inr ()
        | None \<Rightarrow> if frame_epoch \<noteq> 0 then Inl (RE_InvalidEpoch 0 frame_epoch) else Inr ())"

text \<open>The frame an action carries for validation; a rejection carries none.\<close>

fun action_frame :: "sequencer_action \<Rightarrow> frame option" where
  "action_frame (AcceptFrame _ _ f) = Some f"
| "action_frame (StoreFrame _ _ f) = Some f"
| "action_frame (SQ_BroadcastToRoom _ f) = Some f"
| "action_frame (RejectFrame _ _ _) = None"

fun validate_sequenced_actions_signatures ::
  "ed25519 \<Rightarrow> sequencer_action list \<Rightarrow> mls_group_state option \<Rightarrow> room_error + unit" where
  "validate_sequenced_actions_signatures ed [] mls_state = Inr ()"
| "validate_sequenced_actions_signatures ed (action # actions) mls_state =
     (case action_frame action of
        None \<Rightarrow> validate_sequenced_actions_signatures ed actions mls_state
      | Some f \<Rightarrow>
          (case opcode_enum (header f) of
             None \<Rightarrow> validate_sequenced_actions_signatures ed actions mls_state
           | Some op \<Rightarrow>
               if op = Op_Commit \<or> op = Op_Proposal \<or> op = Op_Welcome
               then validate_sequenced_actions_signatures ed actions mls_state
               else (case mls_state of
                   None \<Rightarrow> validate_sequenced_actions_signatures ed actions mls_state
                 | Some st \<Rightarrow>
                     (case validate_signature ed f st of
                        Inl e \<Rightarrow> Inl (RE_MlsValidation e)
                      | Inr (Reject reason) \<Rightarrow> Inl (RE_MlsValidation (ME_ValidationFailed reason))
                      | Inr Accept \<Rightarrow> validate_sequenced_actions_signatures ed actions mls_state))))"

definition rm_create_room ::
  "'x openmls \<Rightarrow> 'x \<Rightarrow> instant \<Rightarrow> u128 \<Rightarrow> u64 \<Rightarrow> 'x room_manager \<Rightarrow> 'x room_manager \<times> (room_error + unit)" where
  "rm_create_room om env now room_id creator_id rm =
     (if rm_has_room rm room_id then (rm, Inl (RE_RoomAlreadyExists room_id))
      else case mls_group_new om env room_id creator_id of
        Inl e \<Rightarrow> (rm, Inl (RE_MlsValidation e))
      | Inr (grp, _) \<Rightarrow>
          (rm\<lparr>rm_groups := (rm_groups rm)(room_id \<mapsto> grp),
              rm_metadata := (rm_metadata rm)(room_id \<mapsto> \<lparr>creator = creator_id, created_at = now\<rparr>)\<rparr>,
           Inr ()))"

text \<open>A call on the group of a room: \<^verbatim>\<open>get_mut(&room_id).ok_or(RoomNotFound)?\<close> and the call.\<close>

definition on_group ::
  "u128 \<Rightarrow> ('x mls_group \<Rightarrow> 'x mls_group \<times> (mls_error + 'a)) \<Rightarrow> 'x room_manager \<Rightarrow>
     'x room_manager \<times> (room_error + 'a)" where
  "on_group room_id call rm =
     (case rm_groups rm room_id of
        None \<Rightarrow> (rm, Inl (RE_RoomNotFound room_id))
      | Some grp \<Rightarrow>
          let (grp', r) = call grp in
          (rm\<lparr>rm_groups := (rm_groups rm)(room_id \<mapsto> grp')\<rparr>,
           case r of Inl e \<Rightarrow> Inl (RE_MlsValidation e) | Inr x \<Rightarrow> Inr x))"

definition rm_add_members ::
  "'x openmls \<Rightarrow> instant \<Rightarrow> u128 \<Rightarrow> bytes list \<Rightarrow> 'x room_manager \<Rightarrow>
     'x room_manager \<times> (room_error + mls_action list)" where
  "rm_add_members om now room_id key_packages = on_group room_id (add_members_from_bytes om now key_packages)"

definition rm_remove_members ::
  "'x openmls \<Rightarrow> instant \<Rightarrow> u128 \<Rightarrow> u64 list \<Rightarrow> 'x room_manager \<Rightarrow>
     'x room_manager \<times> (room_error + mls_action list)" where
  "rm_remove_members om now room_id member_ids = on_group room_id (grp_remove_members om now member_ids)"

definition rm_leave_room ::
  "'x openmls \<Rightarrow> u128 \<Rightarrow> 'x room_manager \<Rightarrow> 'x room_manager \<times> (room_error + mls_action list)" where
  "rm_leave_room om room_id = on_group room_id (grp_leave_group om)"

text \<open>\<^verbatim>\<open>expect\<close> on the encoding of every loaded frame.\<close>

fun encode_all :: "frame list \<Rightarrow> bytes list exec" where
  "encode_all [] = Done []"
| "encode_all (f # fs) =
     (case encode f [] of
        Inl _ \<Rightarrow> Panic
      | Inr buf \<Rightarrow> (case encode_all fs of Panic \<Rightarrow> Panic | Done bufs \<Rightarrow> Done (buf # bufs)))"

definition rm_handle_sync_request ::
  "'x openmls \<Rightarrow> 's storage_ops \<Rightarrow> instant \<Rightarrow> u128 \<Rightarrow> u64 \<Rightarrow> u64 \<Rightarrow> nat \<Rightarrow> 'x room_manager \<Rightarrow> 's \<Rightarrow>
     ('s \<times> (room_error + room_action)) exec" where
  "rm_handle_sync_request om ops now room_id sender_id from_index limit rm s =
     (case rm_groups rm room_id of
        None \<Rightarrow> Done (s, Inl (RE_RoomNotFound room_id))
      | Some grp \<Rightarrow>
          (case so_load_frames ops room_id from_index limit s of
             Panic \<Rightarrow> Panic
           | Done (s1, Inl e) \<Rightarrow> Done (s1, Inl (RE_Storage e))
           | Done (s1, Inr frames) \<Rightarrow>
               (case encode_all frames of
                  Panic \<Rightarrow> Panic
                | Done frame_bytes \<Rightarrow>
                    (case so_latest_log_index ops room_id s1 of
                       (s2, Inl e) \<Rightarrow> Done (s2, Inl (RE_Storage e))
                     | (s2, Inr latest_index) \<Rightarrow>
                         let last_loaded_index =
                               (if frames = [] then saturating_sub from_index 1
                                else from_index + of_nat (length frames) - 1);
                             more = (case latest_index of None \<Rightarrow> False | Some latest \<Rightarrow> last_loaded_index < latest)
                         in Done (s2, Inr (SendSyncResponse sender_id room_id frame_bytes more
                              (grp_epoch om grp) now))))))"

fun room_action_of :: "instant \<Rightarrow> sequencer_action \<Rightarrow> room_action" where
  "room_action_of now (AcceptFrame r i f) = PersistFrame r i f now"
| "room_action_of now (StoreFrame r i f) = PersistFrame r i f now"
| "room_action_of now (SQ_BroadcastToRoom r f) = Broadcast r f False now"
| "room_action_of now (RejectFrame r reason f) = RejectAction (header_sender_id (header f)) reason now"

text \<open>Step 6: the group follows a commit, its own pending one or a peer's.\<close>

definition follow_commit ::
  "'x openmls \<Rightarrow> frame \<Rightarrow> 'x mls_group \<Rightarrow> 'x mls_group \<times> (mls_error + mls_group_state)" where
  "follow_commit om f grp =
     (let (grp', r) =
        (if has_mls_pending_commit om grp then merge_pending_commit om grp
         else (case grp_process_message om f grp of
                 (g, Inl e) \<Rightarrow> (g, Inl e)
               | (g, Inr _) \<Rightarrow> (g, Inr ())))
      in (grp', case r of Inl e \<Rightarrow> Inl e | Inr _ \<Rightarrow> export_group_state om grp'))"

definition rm_process_frame ::
  "'x openmls \<Rightarrow> ed25519 \<Rightarrow> 's storage_ops \<Rightarrow> instant \<Rightarrow> frame \<Rightarrow> 'x room_manager \<Rightarrow> 's \<Rightarrow>
     'x room_manager \<times> 's \<times> (room_error + room_action list)" where
  "rm_process_frame om ed ops now f rm s =
     (let room_id = header_room_id (header f) in
      case rm_groups rm room_id of
        None \<Rightarrow> (rm, s, Inl (RE_RoomNotFound room_id))
      | Some grp \<Rightarrow>
          (case so_load_mls_state ops room_id s of
             (s1, Inl e) \<Rightarrow> (rm, s1, Inl (RE_Storage e))
           | (s1, Inr mls_state) \<Rightarrow>
               (case validate_frame_basic om ed f grp mls_state of
                  Inl e \<Rightarrow> (rm, s1, Inl e)
                | Inr _ \<Rightarrow>
                    (case seq_process_frame ops f (rm_sequencer rm) s1 of
                       (sq, s2, Inl e) \<Rightarrow> (rm\<lparr>rm_sequencer := sq\<rparr>, s2, Inl (RE_Sequencing e))
                     | (sq, s2, Inr sequencer_actions) \<Rightarrow>
                         let rm1 = rm\<lparr>rm_sequencer := sq\<rparr> in
                         (case validate_sequenced_actions_signatures ed sequencer_actions mls_state of
                            Inl e \<Rightarrow> (rm1, s2, Inl e)
                          | Inr _ \<Rightarrow>
                              let room_actions = map (room_action_of now) sequencer_actions in
                              if opcode_enum (header f) = Some Op_Commit then
                                (let (grp', r) = follow_commit om f grp;
                                     rm2 = rm1\<lparr>rm_groups := (rm_groups rm1)(room_id \<mapsto> grp')\<rparr>
                                 in (rm2, s2,
                                     case r of
                                       Inl e \<Rightarrow> Inl (RE_MlsValidation e)
                                     | Inr st \<Rightarrow> Inr (room_actions @ [PersistMlsState room_id st now])))
                              else (rm1, s2, Inr room_actions))))))"

section \<open>Lemmas\<close>

definition needs_signature :: "frame \<Rightarrow> bool" where
  "needs_signature f \<longleftrightarrow>
     (case opcode_enum (header f) of
        None \<Rightarrow> False
      | Some op \<Rightarrow> op \<notin> {Op_Commit, Op_Proposal, Op_Welcome})"

lemma validate_signature_total: "validate_signature ed f st \<noteq> Inl e"
  by (simp add: validate_signature_def Let_def split: option.split)

lemma signatures_checked_iff:
  "validate_sequenced_actions_signatures ed acts (Some st) = Inr () \<longleftrightarrow>
     (\<forall>a\<in>set acts. \<forall>g. action_frame a = Some g \<longrightarrow> needs_signature g \<longrightarrow>
        validate_signature ed g st = Inr Accept)"
proof (induction acts)
  case (Cons a acts)
  show ?case
  proof (cases "action_frame a")
    case (Some g)
    show ?thesis
    proof (cases "validate_signature ed g st")
      case (Inl e)
      then show ?thesis using validate_signature_total by blast
    next
      case (Inr r)
      then show ?thesis
        using Cons.IH Some
        by (cases r) (auto simp: needs_signature_def split: option.split)
    qed
  qed (use Cons.IH in simp)
qed simp

lemma signatures_unchecked:
  assumes "mls_state = None \<or> (\<forall>a\<in>set acts. \<forall>g. action_frame a = Some g \<longrightarrow> \<not> needs_signature g)"
  shows "validate_sequenced_actions_signatures ed acts mls_state = Inr ()"
  using assms
proof (induction acts)
  case (Cons a acts)
  then show ?case
    by (cases "action_frame a") (auto simp: needs_signature_def split: option.split)
qed simp

lemma seq_process_Inr:
  assumes "seq_process_frame ops f sq s = (sq', s', Inr acts)"
  shows "validate_frame_structure f = Inr ()"
    and "opcode_enum (header f) = Some Op_Welcome \<Longrightarrow>
      acts = [SQ_BroadcastToRoom (header_room_id (header f)) f]"
    and "opcode_enum (header f) \<noteq> Some Op_Welcome \<Longrightarrow>
      \<exists>i. acts = [AcceptFrame (header_room_id (header f)) i (rebuild_frame_with_index f i),
                  StoreFrame (header_room_id (header f)) i (rebuild_frame_with_index f i),
                  SQ_BroadcastToRoom (header_room_id (header f)) (rebuild_frame_with_index f i)]"
  using assms
  by (auto simp: seq_process_frame_def Let_def split: sum.splits if_splits prod.splits option.splits)

lemma needs_signature_rebuild [simp]: "needs_signature (rebuild_frame_with_index f i) = needs_signature f"
  by (simp add: needs_signature_def)

lemma validate_signature_rebuild:
  assumes "validate_frame_structure f = Inr ()" and "wf_header (header f)"
  shows "validate_signature ed (rebuild_frame_with_index f i) st = validate_signature ed f st"
  by (rule validate_signature_cong) (use assms in \<open>simp_all add: rebuild_validated\<close>)

text \<open>The stages a frame has passed when the pipeline answers with actions.\<close>

lemma rm_process_InrD:
  assumes "rm_process_frame om ed ops now f rm s = (rm', s', Inr acts)"
  obtains grp s1 mls_state sq sqacts where
    "rm_groups rm (header_room_id (header f)) = Some grp"
    "so_load_mls_state ops (header_room_id (header f)) s = (s1, Inr mls_state)"
    "validate_frame_basic om ed f grp mls_state = Inr ()"
    "seq_process_frame ops f (rm_sequencer rm) s1 = (sq, s', Inr sqacts)"
    "validate_sequenced_actions_signatures ed sqacts mls_state = Inr ()"
    "rm_sequencer rm' = sq"
    "opcode_enum (header f) \<noteq> Some Op_Commit \<Longrightarrow> acts = map (room_action_of now) sqacts"
    "opcode_enum (header f) = Some Op_Commit \<Longrightarrow>
      \<exists>st. acts = map (room_action_of now) sqacts @ [PersistMlsState (header_room_id (header f)) st now]"
proof -
  let ?r = "header_room_id (header f)"
  note run = assms [unfolded rm_process_frame_def Let_def]
  obtain grp where 1: "rm_groups rm ?r = Some grp" using run by (auto split: option.splits)
  obtain s1 y where 2: "so_load_mls_state ops ?r s = (s1, y)" by fastforce
  obtain mls_state where 3: "y = Inr mls_state" using run 1 2 by (auto split: sum.splits)
  have 4: "validate_frame_basic om ed f grp mls_state = Inr ()"
    using run 1 2 3 by (auto split: sum.splits)
  obtain sq s2 z where 5: "seq_process_frame ops f (rm_sequencer rm) s1 = (sq, s2, z)"
    by (metis prod.collapse)
  obtain sqacts where 6: "z = Inr sqacts" using run 1 2 3 4 5 by (auto split: sum.splits)
  have 7: "validate_sequenced_actions_signatures ed sqacts mls_state = Inr ()"
    using run 1 2 3 4 5 6 by (auto split: sum.splits)
  show thesis
  proof (cases "opcode_enum (header f) = Some Op_Commit")
    case True
    then show thesis
      using run 1 2 3 4 5 6 7 by (intro that) (auto simp: split_beta split: sum.splits)
  next
    case False
    then show thesis
      using run 1 2 3 4 5 6 7 by (intro that) auto
  qed
qed

context storage_contract
begin

lemma accepted_frame_checked:
  assumes "rm_process_frame om ed ops now f rm s = (rm', s', Inr acts)" and "wf_header (header f)"
  shows "\<exists>grp. rm_groups rm (header_room_id (header f)) = Some grp \<and>
     header_epoch (header f) = grp_epoch om grp \<and>
     (case mls s (header_room_id (header f)) of
        None \<Rightarrow> header_epoch (header f) = 0
      | Some st \<Rightarrow> is_member st (header_sender_id (header f)) \<and>
          (needs_signature f \<longrightarrow> validate_frame ed f (grp_epoch om grp) st = Inr Accept))"
proof -
  obtain grp s1 mls_state sq sqacts where p:
    "rm_groups rm (header_room_id (header f)) = Some grp"
    "so_load_mls_state ops (header_room_id (header f)) s = (s1, Inr mls_state)"
    "validate_frame_basic om ed f grp mls_state = Inr ()"
    "seq_process_frame ops f (rm_sequencer rm) s1 = (sq, s', Inr sqacts)"
    "validate_sequenced_actions_signatures ed sqacts mls_state = Inr ()"
    using assms(1) by (rule rm_process_InrD)
  have state: "mls_state = mls s (header_room_id (header f))" using load_mls_ok [OF p(2)] .
  have epoch: "header_epoch (header f) = grp_epoch om grp"
    using p(3) by (auto simp: validate_frame_basic_def Let_def split: if_splits)
  note seq = seq_process_Inr [OF p(4)]
  show ?thesis
  proof (cases mls_state)
    case None
    then show ?thesis
      using p(1,3) epoch state
      by (auto simp: validate_frame_basic_def Let_def split: if_splits)
  next
    case (Some st)
    have member: "is_member st (header_sender_id (header f))"
      using p(3) Some by (auto simp: validate_frame_basic_def Let_def split: if_splits)
    have "validate_signature ed f st = Inr Accept" if "needs_signature f"
    proof -
      have "opcode_enum (header f) \<noteq> Some Op_Welcome" using that by (auto simp: needs_signature_def)
      then obtain i where "SQ_BroadcastToRoom (header_room_id (header f)) (rebuild_frame_with_index f i) \<in> set sqacts"
        using seq(3) by auto
      moreover have "\<forall>a\<in>set sqacts. \<forall>g. action_frame a = Some g \<longrightarrow> needs_signature g \<longrightarrow>
          validate_signature ed g st = Inr Accept"
        using p(5) Some signatures_checked_iff by simp
      ultimately show ?thesis
        using that validate_signature_rebuild [OF seq(1) assms(2)] by fastforce
    qed
    moreover have "mls s (header_room_id (header f)) = Some st" using state Some by simp
    ultimately show ?thesis
      using p(1) epoch member by (simp add: validate_frame_def Let_def)
  qed
qed

end

context reliable_storage
begin

lemma load_mls_eq: "\<exists>s'. so_load_mls_state ops r s = (s', Inr (mls s r)) \<and> log s' = log s \<and> mls s' = mls s"
  using load_mls_total load_mls_ok load_mls_keeps by metis

text \<open>A frame that passes the basic checks reaches the sequencer and takes the room's next index.\<close>

lemma rm_process_reaches_sequencer:
  assumes "rm_groups rm r = Some grp" and "validate_frame_basic om ed f grp (mls s r) = Inr ()"
    and "sequenced_in r f" and "standing (rm_sequencer rm) (log s) r = i" and "i \<noteq> - 1"
    and "opcode_enum (header f) \<noteq> Some Op_Commit"
  shows "\<exists>rm' s'. rm_process_frame om ed ops now f rm s = (rm', s',
      case validate_sequenced_actions_signatures ed
             [AcceptFrame r i (rebuild_frame_with_index f i), StoreFrame r i (rebuild_frame_with_index f i),
              SQ_BroadcastToRoom r (rebuild_frame_with_index f i)] (mls s r) of
        Inl e \<Rightarrow> Inl e
      | Inr _ \<Rightarrow> Inr [PersistFrame r i (rebuild_frame_with_index f i) now,
                     PersistFrame r i (rebuild_frame_with_index f i) now,
                     Broadcast r (rebuild_frame_with_index f i) False now]) \<and>
      rm_groups rm' = rm_groups rm \<and>
      seq_rooms (rm_sequencer rm') = (seq_rooms (rm_sequencer rm))(r \<mapsto> \<lparr>next_log_index = i + 1\<rparr>) \<and>
      log s' = log s \<and> mls s' = mls s"
proof -
  have room: "header_room_id (header f) = r" using assms(3) by (simp add: sequenced_in_def)
  obtain s1 where s1: "so_load_mls_state ops r s = (s1, Inr (mls s r))" "log s1 = log s" "mls s1 = mls s"
    using load_mls_eq by blast
  obtain sq s2 where sq: "seq_process_frame ops f (rm_sequencer rm) s1 =
      (sq, s2, Inr [AcceptFrame r i (rebuild_frame_with_index f i),
                    StoreFrame r i (rebuild_frame_with_index f i),
                    SQ_BroadcastToRoom r (rebuild_frame_with_index f i)])"
      "seq_rooms sq = (seq_rooms (rm_sequencer rm))(r \<mapsto> \<lparr>next_log_index = i + 1\<rparr>)"
      "log s2 = log s1" "mls s2 = mls s1"
    using seq_process_sequenced [OF assms(3), of "rm_sequencer rm" s1] assms(4,5) s1(2) by auto
  show ?thesis
    using assms(1,2,6) room s1 sq
    by (auto simp: rm_process_frame_def Let_def split: sum.split)
qed

lemma rm_process_passes:
  assumes "rm_groups rm r = Some grp" and "validate_frame_basic om ed f grp (mls s r) = Inr ()"
    and "sequenced_in r f" and "standing (rm_sequencer rm) (log s) r = i" and "i \<noteq> - 1"
    and "opcode_enum (header f) \<noteq> Some Op_Commit" and "wf_header (header f)"
    and "\<And>st. mls s r = Some st \<Longrightarrow> needs_signature f \<Longrightarrow> validate_signature ed f st = Inr Accept"
  shows "\<exists>rm' s'. rm_process_frame om ed ops now f rm s = (rm', s',
      Inr [PersistFrame r i (rebuild_frame_with_index f i) now,
           PersistFrame r i (rebuild_frame_with_index f i) now,
           Broadcast r (rebuild_frame_with_index f i) False now]) \<and>
      rm_groups rm' = rm_groups rm \<and>
      seq_rooms (rm_sequencer rm') = (seq_rooms (rm_sequencer rm))(r \<mapsto> \<lparr>next_log_index = i + 1\<rparr>) \<and>
      log s' = log s \<and> mls s' = mls s"
proof -
  let ?g = "rebuild_frame_with_index f i"
  have valid: "validate_frame_structure f = Inr ()" using assms(3) by (simp add: sequenced_in_def)
  have "validate_sequenced_actions_signatures ed
      [AcceptFrame r i ?g, StoreFrame r i ?g, SQ_BroadcastToRoom r ?g] (mls s r) = Inr ()"
  proof (cases "mls s r")
    case None
    then show ?thesis using signatures_unchecked by metis
  next
    case (Some st)
    then show ?thesis
      unfolding Some signatures_checked_iff
      using assms(8) [OF Some] validate_signature_rebuild [OF valid assms(7)] by simp
  qed
  with rm_process_reaches_sequencer [OF assms(1-6), of now] show ?thesis by simp
qed

lemma rm_process_bad_signature:
  assumes "rm_groups rm r = Some grp" and "validate_frame_basic om ed f grp (mls s r) = Inr ()"
    and "sequenced_in r f" and "standing (rm_sequencer rm) (log s) r = i" and "i \<noteq> - 1"
    and "opcode_enum (header f) \<noteq> Some Op_Commit" and "wf_header (header f)"
    and "mls s r = Some st" and "needs_signature f" and "validate_signature ed f st \<noteq> Inr Accept"
  shows "\<exists>rm' s' e. rm_process_frame om ed ops now f rm s = (rm', s', Inl (RE_MlsValidation e)) \<and>
      rm_groups rm' = rm_groups rm \<and>
      seq_rooms (rm_sequencer rm') = (seq_rooms (rm_sequencer rm))(r \<mapsto> \<lparr>next_log_index = i + 1\<rparr>) \<and>
      log s' = log s \<and> mls s' = mls s"
proof -
  let ?g = "rebuild_frame_with_index f i"
  have valid: "validate_frame_structure f = Inr ()" using assms(3) by (simp add: sequenced_in_def)
  obtain reason where "validate_signature ed f st = Inr (Reject reason)"
    using assms(10) validate_signature_total [of ed f st]
    by (cases "validate_signature ed f st"; cases "projr (validate_signature ed f st)") auto
  then have "validate_signature ed ?g st = Inr (Reject reason)"
    using validate_signature_rebuild [OF valid assms(7)] by simp
  then have "validate_sequenced_actions_signatures ed
      [AcceptFrame r i ?g, StoreFrame r i ?g, SQ_BroadcastToRoom r ?g] (mls s r)
      = Inl (RE_MlsValidation (ME_ValidationFailed reason))"
    using assms(8,9) by (auto simp: needs_signature_def split: option.splits)
  with rm_process_reaches_sequencer [OF assms(1-6), of now] show ?thesis by auto
qed

end

lemma standing_after [simp]:
  "seq_rooms sq = m(r \<mapsto> \<lparr>next_log_index = i\<rparr>) \<Longrightarrow> standing sq lg r = i"
  by (simp add: standing_def)

text \<open>A room with one keyed member, and a frame that member signed.\<close>

definition sample_manager :: "nat room_manager" where
  "sample_manager =
     \<lparr>rm_groups = [9 \<mapsto> sample_group], rm_sequencer = sequencer_new,
      rm_metadata = [9 \<mapsto> \<lparr>creator = 5, created_at = 0\<rparr>]\<rparr>"

definition sample_storage :: memory_storage where
  "sample_storage = memory_new\<lparr>mem_mls_states := [9 \<mapsto> sample_state]\<rparr>"

definition sample_member_header :: "opcode \<Rightarrow> frame_header" where
  "sample_member_header op = set_epoch 2 (set_sender_id 5 (set_room_id 9 (header_new op)))"

lemma sample_member_header [simp]:
  "header_sender_id (sample_member_header op) = 5" "header_epoch (sample_member_header op) = 2"
  "header_room_id (sample_member_header op) = 9" "wf_header (sample_member_header op)"
  "opcode_enum (sample_member_header op) = Some op"
  "header_magic (sample_member_header op) = MAGIC" "header_version (sample_member_header op) = VERSION"
  "header_payload_size (sample_member_header op) = 0"
  by (simp_all add: sample_member_header_def)

lemma sample_storage [simp]:
  "mem_log sample_storage r = []" "mem_mls_states sample_storage = [9 \<mapsto> sample_state]"
  by (simp_all add: sample_storage_def memory_new_def mem_log_def)

lemma sample_epoch [simp]: "grp_epoch sample_openmls sample_group = 2"
  by (simp add: grp_epoch_def sample_openmls_def sample_group_def)

lemma sample_manager [simp]:
  "rm_groups sample_manager 9 = Some sample_group" "rm_sequencer sample_manager = sequencer_new"
  by (simp_all add: sample_manager_def)

subsection \<open>Catch-up reads\<close>

lemma encode_all_wf: "\<forall>f\<in>set fs. wf_frame f \<Longrightarrow> encode_all fs = Done (map wire fs)"
  by (induction fs) (simp_all add: encode_wf)

lemma decode_wires: "\<forall>f\<in>set fs. wf_frame f \<Longrightarrow> map decode (map wire fs) = map Inr fs"
  using decode_wire [of _ "[]"] by simp

lemma of_nat_u64_less:
  "a < 2 ^ 64 \<Longrightarrow> b < 2 ^ 64 \<Longrightarrow> (of_nat a :: u64) < of_nat b \<longleftrightarrow> a < b"
  by (simp add: word_less_nat_alt unat_of_nat)

lemma last_loaded_less:
  assumes "fs \<noteq> []" and "0 < limit" and "i + limit < 2 ^ 64" and "length fs < 2 ^ 64"
  shows "(if take limit (drop i fs) = [] then saturating_sub (of_nat i) 1
      else of_nat i + of_nat (length (take limit (drop i fs))) - 1) < (of_nat (length fs - 1) :: u64)
     \<longleftrightarrow> i + limit < length fs"
proof (cases "length fs \<le> i")
  case True
  with assms have "0 < i" by (cases fs) auto
  then have "saturating_sub (of_nat i) 1 = (of_nat (i - 1) :: u64)"
    using assms(3) by (simp add: saturating_sub_def word_le_nat_alt unat_of_nat of_nat_diff)
  with True assms show ?thesis by (simp add: word_less_nat_alt unat_of_nat)
next
  case False
  then have "0 < length (take limit (drop i fs))" using assms(2) by simp
  then obtain k where k: "length (take limit (drop i fs)) = Suc k" by (metis gr0_implies_Suc)
  then have eq: "of_nat i + of_nat (length (take limit (drop i fs))) - 1
      = (of_nat (i + length (take limit (drop i fs)) - 1) :: u64)"
    unfolding k by simp
  have lt: "(of_nat (i + length (take limit (drop i fs)) - 1) :: u64) < of_nat (length fs - 1)
      \<longleftrightarrow> i + length (take limit (drop i fs)) - 1 < length fs - 1"
    by (rule of_nat_u64_less) (use False assms(4) in auto)
  have ne: "take limit (drop i fs) \<noteq> []" using k by auto
  show ?thesis
    unfolding if_not_P [OF ne] eq lt using False assms(2) by auto
qed

section \<open>Properties\<close>


text \<open>A frame that is in order for its room except, possibly, for its signature.\<close>

definition presentable ::
  "'x openmls \<Rightarrow> ed25519 \<Rightarrow> 'x mls_group \<Rightarrow> mls_group_state \<Rightarrow> u128 \<Rightarrow> frame \<Rightarrow> bool" where
  "presentable om ed grp st r f \<longleftrightarrow>
     validate_frame_basic om ed f grp (Some st) = Inr () \<and> sequenced_in r f \<and>
     opcode_enum (header f) \<noteq> Some Op_Commit \<and> wf_header (header f)"

lemma sample_presentable:
  assumes "opcode_enum h \<notin> {Some Op_Commit, Some Op_Welcome}" "wf_header h" "header_room_id h = 9"
    "header_sender_id h = 5" "header_epoch h = 2" "header_magic h = MAGIC" "header_version h = VERSION"
    "header_payload_size h = 0"
  shows "presentable sample_openmls sample_ed25519 sample_group sample_state 9 \<lparr>header = h, payload = []\<rparr>"
  using assms
  by (simp add: presentable_def validate_frame_basic_def sequenced_in_def validate_frame_structure_def
      MAX_EPOCH_def Let_def sample_state_def with_keys_def is_member_def member_key_def sample_ed25519_def)

lemma sample_signed_room:
  assumes "opcode_enum h \<notin> {Some Op_Commit, Some Op_Welcome}" "wf_header h" "header_room_id h = 9"
    "header_sender_id h = 5" "header_epoch h = 2" "header_magic h = MAGIC" "header_version h = VERSION"
    "header_payload_size h = 0"
  shows "presentable sample_openmls sample_ed25519 sample_group sample_state 9 (sample_signed h)"
    "validate_signature sample_ed25519 (sample_signed h) sample_state = Inr Accept"
proof -
  let ?g = "set_signature (signing_data h @ replicate 8 0) h"
  have "presentable sample_openmls sample_ed25519 sample_group sample_state 9 \<lparr>header = ?g, payload = []\<rparr>"
    by (rule sample_presentable) (use assms in simp_all)
  then show "presentable sample_openmls sample_ed25519 sample_group sample_state 9 (sample_signed h)"
    by (simp add: sample_signed_def)
  show "validate_signature sample_ed25519 (sample_signed h) sample_state = Inr Accept"
    using sample_signed_accepted [OF assms(2,4)]
    by (simp add: validate_frame_def Let_def split: if_splits)
qed

lemma sample_unsigned:
  "validate_signature sample_ed25519 \<lparr>header = sample_member_header op, payload = []\<rparr> sample_state \<noteq> Inr Accept"
proof -
  let ?h = "sample_member_header op"
  have fields: "signature_bytes ?h = replicate 64 0" "magic_bytes ?h = to_be_bytes MAGIC"
    by (simp_all add: sample_member_header_def set_epoch_def set_sender_id_def set_room_id_def header_new_fields)
  have "signing_data ?h @ replicate 8 0 \<noteq> replicate 64 0"
  proof
    assume "signing_data ?h @ replicate 8 0 = replicate 64 0"
    then have "take 4 (signing_data ?h @ replicate 8 0) = replicate 4 0" by simp
    then have "to_be_bytes MAGIC = replicate 4 0" by (simp add: signing_data_eq fields)
    then have "header_magic ?h = from_be_bytes (replicate 4 0)" by (simp only: header_magic_def fields)
    then have "header_magic ?h = 0" by simp
    then show False by (simp add: MAGIC_def)
  qed
  then show ?thesis
    using fields(1)
    by (auto simp: validate_signature_def sample_ed25519_def sample_state_def with_keys_def member_key_def Let_def
        header_signature_def)
qed

lemmas sample_message = sample_signed_room [of "sample_member_header Op_AppMessage"]


text \<open>
  The pipeline sequences before it checks signatures, so a frame it rejects for its signature
  has still used up a log index: the room's next good frame is numbered one past the end of the
  stored log, and the storage refuses it with \<^verbatim>\<open>Conflict\<close>.
\<close>

lemma rejected_frame_leaves_gap:
  assumes "rm_groups rm r = Some grp" and "mem_mls_states s r = Some st"
    and "presentable om ed grp st r f" and "needs_signature f" and "validate_signature ed f st \<noteq> Inr Accept"
    and "presentable om ed grp st r g" and "validate_signature ed g st = Inr Accept"
    and "n = length (mem_log s r)" and "standing (rm_sequencer rm) (mem_log s) r = of_nat n" and "n + 2 < 2 ^ 64"
  shows "\<exists>rm1 s1 e rm2 s2 acts.
     rm_process_frame om ed memory_ops now f rm s = (rm1, s1, Inl (RE_MlsValidation e)) \<and>
     rm_process_frame om ed memory_ops now g rm1 s1 =
       (rm2, s2, Inr (PersistFrame r (of_nat (n + 1)) (rebuild_frame_with_index g (of_nat (n + 1))) now # acts)) \<and>
     snd (memory_store_frame r (of_nat (n + 1)) (rebuild_frame_with_index g (of_nat (n + 1))) s2) =
       Inl (SE_Conflict (of_nat n) (of_nat (n + 1)))"
proof -
  have i: "(of_nat n :: u64) \<noteq> - 1" "(of_nat (n + 1) :: u64) \<noteq> - 1"
    using assms(10) of_nat_u64_not_max [of n] of_nat_u64_not_max [of "n + 1"] by auto
  obtain rm1 s1 e where 1: "rm_process_frame om ed memory_ops now f rm s = (rm1, s1, Inl (RE_MlsValidation e))"
      "rm_groups rm1 = rm_groups rm"
      "seq_rooms (rm_sequencer rm1) = (seq_rooms (rm_sequencer rm))(r \<mapsto> \<lparr>next_log_index = of_nat n + 1\<rparr>)"
      "mem_log s1 = mem_log s" "mem_mls_states s1 = mem_mls_states s"
    using mem.rm_process_bad_signature [of rm r grp om ed f s "of_nat n" st now] assms i
    unfolding presentable_def by auto
  have std: "standing (rm_sequencer rm1) (mem_log s1) r = of_nat (n + 1)"
    using 1(3) by simp
  obtain rm2 s2 acts where 2: "rm_process_frame om ed memory_ops now g rm1 s1 =
       (rm2, s2, Inr (PersistFrame r (of_nat (n + 1)) (rebuild_frame_with_index g (of_nat (n + 1))) now # acts))"
      "mem_log s2 = mem_log s1"
    using mem.rm_process_passes [OF _ _ _ std i(2), of grp om ed g now] 1 assms(1,2,6,7)
    unfolding presentable_def by auto
  have "(of_nat (n + 1) :: u64) \<noteq> of_nat n" by simp
  then have "snd (memory_store_frame r (of_nat (n + 1)) (rebuild_frame_with_index g (of_nat (n + 1))) s2) =
       Inl (SE_Conflict (of_nat n) (of_nat (n + 1)))"
    using 2(2) 1(4) assms(8) by (simp add: memory_store_eq)
  with 1(1) 2(1) show ?thesis by blast
qed

text \<open>
  C32. What the pipeline answers for a frame in order: the frame, re-numbered with the room's next
  index, is persisted twice and broadcast. An unknown opcode needs no signature at all. Of the two
  writes the storage accepts the first, which appends the frame to the log, and refuses the
  second with \<^verbatim>\<open>Conflict\<close>.
\<close>

theorem accepted_frame_stored_twice:
  assumes "rm_groups rm r = Some grp" and "mem_mls_states s r = Some st"
    and "presentable om ed grp st r f" and "needs_signature f \<longrightarrow> validate_signature ed f st = Inr Accept"
    and "n = length (mem_log s r)" and "standing (rm_sequencer rm) (mem_log s) r = of_nat n" and "n + 1 < 2 ^ 64"
    and "g = rebuild_frame_with_index f (of_nat n)"
  shows "\<exists>rm' s' s''.
     rm_process_frame om ed memory_ops now f rm s =
       (rm', s', Inr [PersistFrame r (of_nat n) g now, PersistFrame r (of_nat n) g now, Broadcast r g False now]) \<and>
     memory_store_frame r (of_nat n) g s' = (s'', Inr ()) \<and> mem_log s'' r = mem_log s r @ [g] \<and>
     snd (memory_store_frame r (of_nat n) g s'') = Inl (SE_Conflict (of_nat n + 1) (of_nat n))"
proof -
  have i: "(of_nat n :: u64) \<noteq> - 1" using assms(7) of_nat_u64_not_max [of n] by auto
  obtain rm' s' where 1: "rm_process_frame om ed memory_ops now f rm s =
       (rm', s', Inr [PersistFrame r (of_nat n) g now, PersistFrame r (of_nat n) g now, Broadcast r g False now])"
      "mem_log s' = mem_log s"
    using mem.rm_process_passes [OF assms(1) _ _ assms(6) i, of om ed f now] assms(2,3,4,8)
    unfolding presentable_def by auto
  show ?thesis
    using 1 assms(5) by (simp add: memory_store_eq)
qed

theorem accepted_frame_stored_twice_witness:
  "let h = (sample_member_header Op_AppMessage)\<lparr>opcode_bytes := to_be_bytes (65535 :: u16)\<rparr>;
       f = \<lparr>header = h, payload = []\<rparr>; g = rebuild_frame_with_index f 0
   in opcode_enum h = None \<and>
     (\<exists>rm' s' s''. rm_process_frame sample_openmls sample_ed25519 memory_ops 0 f sample_manager sample_storage =
       (rm', s', Inr [PersistFrame 9 0 g 0, PersistFrame 9 0 g 0, Broadcast 9 g False 0]) \<and>
     memory_store_frame 9 0 g s' = (s'', Inr ()) \<and>
     snd (memory_store_frame 9 0 g s'') = Inl (SE_Conflict 1 0))"
proof -
  let ?h = "(sample_member_header Op_AppMessage)\<lparr>opcode_bytes := to_be_bytes (65535 :: u16)\<rparr>"
  let ?f = "\<lparr>header = ?h, payload = []\<rparr>"
  have same: "header_room_id ?h = 9" "header_sender_id ?h = 5" "header_epoch ?h = 2" "header_magic ?h = MAGIC"
      "header_version ?h = VERSION" "header_payload_size ?h = 0" "wf_header ?h"
    using sample_member_header [of Op_AppMessage]
    by (simp_all del: sample_member_header add: header_accessor_defs wf_header_def)
  have unknown: "opcode_enum ?h = None"
    by (simp add: opcode_enum_def header_opcode_def from_u16_def)
  have "presentable sample_openmls sample_ed25519 sample_group sample_state 9 ?f"
    by (rule sample_presentable) (use same unknown in simp_all)
  with accepted_frame_stored_twice [of sample_manager 9 sample_group sample_storage sample_state sample_openmls
      sample_ed25519 ?f 0 "rebuild_frame_with_index ?f 0" 0] unknown
  show ?thesis by (auto simp: needs_signature_def standing_def sequencer_new_def Let_def)
qed



end
