(* ===== verification/Registry_Model.thy ===== *)
theory Registry_Model
  imports Lockframe_Prelude
begin

text \<open>
  The connection registry (\<^verbatim>\<open>lockframe-server/src/registry.rs\<close>): sessions and the two indexes of
  room subscriptions. Hash sets are sets; iterating over one has no defined order, so the
  iterators are sets too.
\<close>

section \<open>The registry\<close>

record session_info =
  user_id :: "u64 option"
  authenticated :: bool

definition session_info_new :: session_info where
  "session_info_new = \<lparr>user_id = None, authenticated = False\<rparr>"

definition session_info_authenticated :: "u64 \<Rightarrow> session_info" where
  "session_info_authenticated u = \<lparr>user_id = Some u, authenticated = True\<rparr>"

record registry =
  sessions :: "u64 \<rightharpoonup> session_info"
  room_subscriptions :: "u128 \<rightharpoonup> u64 set"
  session_rooms :: "u64 \<rightharpoonup> u128 set"

definition registry_new :: registry where
  "registry_new = \<lparr>sessions = Map.empty, room_subscriptions = Map.empty, session_rooms = Map.empty\<rparr>"

definition has_session :: "registry \<Rightarrow> u64 \<Rightarrow> bool" where
  "has_session reg session_id \<longleftrightarrow> sessions reg session_id \<noteq> None"

definition register_session :: "u64 \<Rightarrow> session_info \<Rightarrow> registry \<Rightarrow> registry \<times> bool" where
  "register_session session_id info reg =
     (if sessions reg session_id \<noteq> None then (reg, False)
      else (reg\<lparr>sessions := (sessions reg)(session_id \<mapsto> info),
                session_rooms := (session_rooms reg)(session_id \<mapsto> {})\<rparr>, True))"

text \<open>One turn of the loop over the rooms of a leaving session; turns touch distinct rooms.\<close>

definition drop_subscriber :: "u64 \<Rightarrow> u64 set option \<Rightarrow> u64 set option" where
  "drop_subscriber session_id entry =
     (case entry of
        None \<Rightarrow> None
      | Some subscribers \<Rightarrow>
          if subscribers - {session_id} = {} then None else Some (subscribers - {session_id}))"

definition unregister_session :: "u64 \<Rightarrow> registry \<Rightarrow> registry \<times> (session_info \<times> u128 set) option" where
  "unregister_session session_id reg =
     (case sessions reg session_id of
        None \<Rightarrow> (reg, None)
      | Some info \<Rightarrow>
          let rooms = (case session_rooms reg session_id of Some rs \<Rightarrow> rs | None \<Rightarrow> {})
          in (reg\<lparr>sessions := (sessions reg)(session_id := None),
                  session_rooms := (session_rooms reg)(session_id := None),
                  room_subscriptions := (\<lambda>room_id.
                    if room_id \<in> rooms then drop_subscriber session_id (room_subscriptions reg room_id)
                    else room_subscriptions reg room_id)\<rparr>,
              Some (info, rooms)))"

text \<open>\<^verbatim>\<open>sessions_mut\<close>: an update through the mutable reference, if the session exists.\<close>

definition modify_session :: "u64 \<Rightarrow> (session_info \<Rightarrow> session_info) \<Rightarrow> registry \<Rightarrow> registry" where
  "modify_session session_id upd reg =
     (case sessions reg session_id of
        None \<Rightarrow> reg
      | Some info \<Rightarrow> reg\<lparr>sessions := (sessions reg)(session_id \<mapsto> upd info)\<rparr>)"

definition subscribe :: "u64 \<Rightarrow> u128 \<Rightarrow> registry \<Rightarrow> registry \<times> bool" where
  "subscribe session_id room_id reg =
     (if sessions reg session_id = None then (reg, False)
      else
        let subscribers = (case room_subscriptions reg room_id of Some s \<Rightarrow> s | None \<Rightarrow> {});
            rooms = (case session_rooms reg session_id of Some r \<Rightarrow> r | None \<Rightarrow> {})
        in (reg\<lparr>room_subscriptions := (room_subscriptions reg)(room_id \<mapsto> insert session_id subscribers),
                session_rooms := (session_rooms reg)(session_id \<mapsto> insert room_id rooms)\<rparr>, True))"

definition unsubscribe :: "u64 \<Rightarrow> u128 \<Rightarrow> registry \<Rightarrow> registry \<times> bool" where
  "unsubscribe session_id room_id reg =
     (let removed_from_room =
            (case room_subscriptions reg room_id of None \<Rightarrow> False | Some s \<Rightarrow> session_id \<in> s);
          reg1 = reg\<lparr>room_subscriptions := (case room_subscriptions reg room_id of
                   None \<Rightarrow> room_subscriptions reg
                 | Some s \<Rightarrow> (room_subscriptions reg)(room_id \<mapsto> s - {session_id}))\<rparr>;
          removed_from_session =
            (case session_rooms reg1 session_id of None \<Rightarrow> False | Some r \<Rightarrow> room_id \<in> r);
          reg2 = reg1\<lparr>session_rooms := (case session_rooms reg1 session_id of
                   None \<Rightarrow> session_rooms reg1
                 | Some r \<Rightarrow> (session_rooms reg1)(session_id \<mapsto> r - {room_id}))\<rparr>;
          reg3 = (if room_subscriptions reg2 room_id = Some {}
                  then reg2\<lparr>room_subscriptions := (room_subscriptions reg2)(room_id := None)\<rparr>
                  else reg2)
      in (reg3, removed_from_room \<and> removed_from_session))"

definition is_subscribed :: "registry \<Rightarrow> u64 \<Rightarrow> u128 \<Rightarrow> bool" where
  "is_subscribed reg session_id room_id \<longleftrightarrow>
     (case room_subscriptions reg room_id of None \<Rightarrow> False | Some s \<Rightarrow> session_id \<in> s)"

definition sessions_in_room :: "registry \<Rightarrow> u128 \<Rightarrow> u64 set" where
  "sessions_in_room reg room_id = (case room_subscriptions reg room_id of None \<Rightarrow> {} | Some s \<Rightarrow> s)"

definition rooms_for_session :: "registry \<Rightarrow> u64 \<Rightarrow> u128 set" where
  "rooms_for_session reg session_id = (case session_rooms reg session_id of None \<Rightarrow> {} | Some r \<Rightarrow> r)"

definition session_count :: "registry \<Rightarrow> nat" where
  "session_count reg = card (dom (sessions reg))"

definition room_session_count :: "registry \<Rightarrow> u128 \<Rightarrow> nat" where
  "room_session_count reg room_id =
     (case room_subscriptions reg room_id of None \<Rightarrow> 0 | Some s \<Rightarrow> card s)"

section \<open>Invariant\<close>

text \<open>
  The two indexes describe the same relation, exactly the registered sessions have an entry in the
  session index, and no room is kept without subscribers.
\<close>

definition registry_inv :: "registry \<Rightarrow> bool" where
  "registry_inv reg \<longleftrightarrow>
     dom (session_rooms reg) = dom (sessions reg) \<and>
     (\<forall>sid r. sid \<in> sessions_in_room reg r \<longleftrightarrow> r \<in> rooms_for_session reg sid) \<and>
     (\<forall>r. room_subscriptions reg r \<noteq> Some {})"

section \<open>Abstract specification\<close>

text \<open>The registry as a set of known sessions and a subscription relation.\<close>

datatype registry_call =
    RC_Register u64 session_info
  | RC_Unregister u64
  | RC_Modify u64 "session_info \<Rightarrow> session_info"
  | RC_Subscribe u64 u128
  | RC_Unsubscribe u64 u128

datatype registry_answer = RA_Bool bool | RA_Left "(session_info \<times> u128 set) option" | RA_Unit

fun registry_step :: "registry_call \<Rightarrow> registry \<Rightarrow> registry \<times> registry_answer" where
  "registry_step (RC_Register sid info) reg = apsnd RA_Bool (register_session sid info reg)"
| "registry_step (RC_Unregister sid) reg = apsnd RA_Left (unregister_session sid reg)"
| "registry_step (RC_Modify sid upd) reg = (modify_session sid upd reg, RA_Unit)"
| "registry_step (RC_Subscribe sid r) reg = apsnd RA_Bool (subscribe sid r reg)"
| "registry_step (RC_Unsubscribe sid r) reg = apsnd RA_Bool (unsubscribe sid r reg)"

type_synonym subscriptions = "(u64 \<rightharpoonup> session_info) \<times> (u64 \<times> u128) set"

fun subscriptions_step :: "registry_call \<Rightarrow> subscriptions \<Rightarrow> subscriptions \<times> registry_answer" where
  "subscriptions_step (RC_Register sid info) (known, rel) =
     (if known sid \<noteq> None then ((known, rel), RA_Bool False)
      else ((known(sid \<mapsto> info), rel), RA_Bool True))"
| "subscriptions_step (RC_Unregister sid) (known, rel) =
     (case known sid of
        None \<Rightarrow> ((known, rel), RA_Left None)
      | Some info \<Rightarrow> ((known(sid := None), rel - {sid} \<times> UNIV), RA_Left (Some (info, rel `` {sid}))))"
| "subscriptions_step (RC_Modify sid upd) (known, rel) =
     ((case known sid of None \<Rightarrow> known | Some info \<Rightarrow> known(sid \<mapsto> upd info), rel), RA_Unit)"
| "subscriptions_step (RC_Subscribe sid r) (known, rel) =
     (if known sid = None then ((known, rel), RA_Bool False)
      else ((known, insert (sid, r) rel), RA_Bool True))"
| "subscriptions_step (RC_Unsubscribe sid r) (known, rel) =
     ((known, rel - {(sid, r)}), RA_Bool ((sid, r) \<in> rel))"

definition subscriptions_of :: "registry \<Rightarrow> subscriptions" where
  "subscriptions_of reg = (sessions reg, {(sid, r). sid \<in> sessions_in_room reg r})"

section \<open>Lemmas\<close>

lemma registry_inv_new [simp]: "registry_inv registry_new"
  by (simp add: registry_inv_def registry_new_def sessions_in_room_def rooms_for_session_def)

lemma registry_invD:
  assumes "registry_inv reg"
  shows "session_rooms reg sid = None \<longleftrightarrow> sessions reg sid = None"
    and "sid \<in> sessions_in_room reg r \<longleftrightarrow> r \<in> rooms_for_session reg sid"
    and "room_subscriptions reg r \<noteq> Some {}"
    and "sid \<in> sessions_in_room reg r \<Longrightarrow> sessions reg sid \<noteq> None"
proof -
  show none: "session_rooms reg sid = None \<longleftrightarrow> sessions reg sid = None"
    using assms unfolding registry_inv_def by (metis domIff)
  show both: "sid \<in> sessions_in_room reg r \<longleftrightarrow> r \<in> rooms_for_session reg sid"
    and "room_subscriptions reg r \<noteq> Some {}"
    using assms by (simp_all add: registry_inv_def)
  show "sid \<in> sessions_in_room reg r \<Longrightarrow> sessions reg sid \<noteq> None"
    using both none by (auto simp: rooms_for_session_def split: option.splits)
qed

lemma registry_invI:
  assumes "\<And>sid. session_rooms reg sid = None \<longleftrightarrow> sessions reg sid = None"
    and "\<And>sid r. sid \<in> sessions_in_room reg r \<longleftrightarrow> r \<in> rooms_for_session reg sid"
    and "\<And>r. room_subscriptions reg r \<noteq> Some {}"
  shows "registry_inv reg"
  using assms by (auto simp: registry_inv_def dom_def)

text \<open>What each operation does to the observations.\<close>

lemma register_obs:
  assumes "registry_inv reg" and "sessions reg sid = None"
  shows "sessions_in_room (fst (register_session sid info reg)) = sessions_in_room reg"
    and "rooms_for_session (fst (register_session sid info reg)) = rooms_for_session reg"
  using assms registry_invD(1) [OF assms(1), of sid]
  by (auto simp: register_session_def sessions_in_room_def rooms_for_session_def fun_eq_iff)

lemma subscribe_obs:
  assumes "sessions reg sid \<noteq> None"
  shows "sessions_in_room (fst (subscribe sid r reg)) q =
      (if q = r then insert sid (sessions_in_room reg q) else sessions_in_room reg q)"
    and "rooms_for_session (fst (subscribe sid r reg)) t =
      (if t = sid then insert r (rooms_for_session reg t) else rooms_for_session reg t)"
  using assms
  by (auto simp: subscribe_def sessions_in_room_def rooms_for_session_def Let_def split: option.split)

lemma unsubscribe_obs:
  "sessions_in_room (fst (unsubscribe sid r reg)) q =
      (if q = r then sessions_in_room reg q - {sid} else sessions_in_room reg q)"
  "rooms_for_session (fst (unsubscribe sid r reg)) t =
      (if t = sid then rooms_for_session reg t - {r} else rooms_for_session reg t)"
  "sessions (fst (unsubscribe sid r reg)) = sessions reg"
  "session_rooms (fst (unsubscribe sid r reg)) t = None \<longleftrightarrow> session_rooms reg t = None"
  "(\<And>q. room_subscriptions reg q \<noteq> Some {}) \<Longrightarrow> room_subscriptions (fst (unsubscribe sid r reg)) q \<noteq> Some {}"
  by (auto simp: unsubscribe_def sessions_in_room_def rooms_for_session_def Let_def split: option.split)

lemma unregister_obs:
  assumes "registry_inv reg" and "sessions reg sid = Some info"
  shows "sessions_in_room (fst (unregister_session sid reg)) q = sessions_in_room reg q - {sid}"
    and "rooms_for_session (fst (unregister_session sid reg)) t =
      (if t = sid then {} else rooms_for_session reg t)"
    and "snd (unregister_session sid reg) = Some (info, rooms_for_session reg sid)"
proof -
  have "q \<notin> rooms_for_session reg sid \<Longrightarrow> sid \<notin> sessions_in_room reg q"
    using registry_invD(2) [OF assms(1)] by blast
  then show "sessions_in_room (fst (unregister_session sid reg)) q = sessions_in_room reg q - {sid}"
    using assms(2)
    by (auto simp: unregister_session_def sessions_in_room_def rooms_for_session_def drop_subscriber_def
        Let_def split: option.splits if_splits)
  show "rooms_for_session (fst (unregister_session sid reg)) t =
      (if t = sid then {} else rooms_for_session reg t)"
    and "snd (unregister_session sid reg) = Some (info, rooms_for_session reg sid)"
    using assms(2) by (simp_all add: unregister_session_def rooms_for_session_def Let_def split: option.split)
qed

lemma registry_step_inv: "registry_inv reg \<Longrightarrow> registry_inv (fst (registry_step call reg))"
proof (cases call)
  case (RC_Register sid info)
  assume inv: "registry_inv reg"
  show ?thesis
  proof (cases "sessions reg sid")
    case None
    note obs = register_obs [OF inv None, of info]
    show ?thesis
      using registry_invD [OF inv] None
      by (intro registry_invI) (simp_all add: RC_Register obs, simp_all add: register_session_def)
  qed (simp add: RC_Register register_session_def inv)
next
  case (RC_Unregister sid)
  assume inv: "registry_inv reg"
  show ?thesis
  proof (cases "sessions reg sid")
    case (Some info)
    note obs = unregister_obs [OF inv Some]
    show ?thesis
    proof (rule registry_invI)
      fix t q
      show "session_rooms (fst (registry_step call reg)) t = None
          \<longleftrightarrow> sessions (fst (registry_step call reg)) t = None"
        using registry_invD(1) [OF inv] Some by (simp add: RC_Unregister unregister_session_def Let_def)
      show "t \<in> sessions_in_room (fst (registry_step call reg)) q
          \<longleftrightarrow> q \<in> rooms_for_session (fst (registry_step call reg)) t"
        using registry_invD(2) [OF inv] by (simp add: RC_Unregister obs)
      show "room_subscriptions (fst (registry_step call reg)) q \<noteq> Some {}"
        using registry_invD(3) [OF inv] Some
        by (auto simp: RC_Unregister unregister_session_def drop_subscriber_def Let_def split: option.splits)
    qed
  qed (simp add: RC_Unregister unregister_session_def inv)
next
  case (RC_Modify sid upd)
  assume inv: "registry_inv reg"
  then show ?thesis
    by (auto simp: RC_Modify modify_session_def registry_inv_def sessions_in_room_def
        rooms_for_session_def dom_def split: option.split)
next
  case (RC_Subscribe sid r)
  assume inv: "registry_inv reg"
  show ?thesis
  proof (cases "sessions reg sid = None")
    case False
    show ?thesis
      using registry_invD [OF inv] False
      by (intro registry_invI) (simp_all add: RC_Subscribe subscribe_obs [OF False],
        auto simp: subscribe_def Let_def)
  qed (simp add: RC_Subscribe subscribe_def inv)
next
  case (RC_Unsubscribe sid r)
  assume inv: "registry_inv reg"
  show ?thesis
    using registry_invD [OF inv]
    by (intro registry_invI) (simp_all add: RC_Unsubscribe unsubscribe_obs)
qed

lemma registry_step_sim:
  assumes "registry_inv reg"
  shows "subscriptions_step call (subscriptions_of reg) =
    (subscriptions_of (fst (registry_step call reg)), snd (registry_step call reg))"
proof (cases call)
  case (RC_Register sid info)
  then show ?thesis
    using register_obs [OF assms, of sid info]
    by (cases "sessions reg sid") (simp_all add: subscriptions_of_def, simp_all add: register_session_def)
next
  case (RC_Unregister sid)
  show ?thesis
  proof (cases "sessions reg sid")
    case (Some info)
    note obs = unregister_obs [OF assms Some]
    have "rooms_for_session reg sid = {r. sid \<in> sessions_in_room reg r}"
      using registry_invD(2) [OF assms] by blast
    moreover have "sessions (fst (unregister_session sid reg)) = (sessions reg)(sid := None)"
      using Some by (simp add: unregister_session_def Let_def)
    ultimately show ?thesis
      using Some by (auto simp: RC_Unregister subscriptions_of_def obs)
  qed (simp add: RC_Unregister subscriptions_of_def unregister_session_def)
next
  case (RC_Modify sid upd)
  then show ?thesis
    by (auto simp: subscriptions_of_def modify_session_def sessions_in_room_def split: option.split)
next
  case (RC_Subscribe sid r)
  show ?thesis
  proof (cases "sessions reg sid = None")
    case False
    then show ?thesis
      by (auto simp: RC_Subscribe subscriptions_of_def subscribe_obs [OF False] split: if_splits)
        (auto simp: subscribe_def Let_def)
  qed (simp add: RC_Subscribe subscriptions_of_def subscribe_def)
next
  case (RC_Unsubscribe sid r)
  have "snd (unsubscribe sid r reg) \<longleftrightarrow> sid \<in> sessions_in_room reg r \<and> r \<in> rooms_for_session reg sid"
    by (auto simp: unsubscribe_def sessions_in_room_def rooms_for_session_def Let_def split: option.splits)
  with registry_invD(2) [OF assms, of sid r] show ?thesis
    by (auto simp: RC_Unsubscribe subscriptions_of_def unsubscribe_obs split: if_splits)
qed

interpretation registry_refines: simulation registry_step registry_inv subscriptions_step subscriptions_of
  by unfold_locales (simp_all add: registry_step_inv registry_step_sim)

section \<open>Properties\<close>

lemma subscriptions_of_new: "subscriptions_of registry_new = (Map.empty, {})"
  by (simp add: subscriptions_of_def registry_new_def sessions_in_room_def)

text \<open>
  C12. The registry implements a subscription relation: for every sequence of calls on a new
  registry, all return values, and the sessions and subscriptions at the end, are those of the
  specification that keeps one map of sessions and one relation.
\<close>

theorem registry_refines_relation:
  "run_outputs registry_step calls registry_new = run_outputs subscriptions_step calls (Map.empty, {}) \<and>
   subscriptions_of (run_events registry_step calls registry_new) =
     run_events subscriptions_step calls (Map.empty, {})"
  using registry_refines.outputs_sim [of registry_new calls] registry_refines.run_sim [of registry_new calls]
  by (simp add: subscriptions_of_new)

text \<open>
  After any sequence of calls the two indexes of the registry agree, only registered sessions
  are subscribed, and a room without subscribers has no entry, so its memory is released.
\<close>

lemma registry_indexes_agree:
  "let reg = run_events registry_step calls registry_new in
     (sid \<in> sessions_in_room reg r \<longleftrightarrow> r \<in> rooms_for_session reg sid) \<and>
     sessions_in_room reg r \<subseteq> dom (sessions reg) \<and>
     (room_subscriptions reg r = None \<longleftrightarrow> sessions_in_room reg r = {})"
proof -
  have inv: "registry_inv (run_events registry_step calls registry_new)"
    by (rule registry_refines.run_inv) simp
  have "room_subscriptions reg r = None \<longleftrightarrow> sessions_in_room reg r = {}"
    if "room_subscriptions reg r \<noteq> Some {}" for reg
    using that by (auto simp: sessions_in_room_def split: option.split)
  with registry_invD(2-4) [OF inv] show ?thesis
    unfolding Let_def by blast
qed

end
