(* ===== verification/Payloads.thy ===== *)
theory Payloads
  imports Frames
begin

text \<open>
  Typed payloads (\<^verbatim>\<open>lockframe-proto/src/payloads\<close>). The CBOR library is a parameter: the record
  \<open>ciborium\<close> holds, for every payload struct, what \<^verbatim>\<open>into_writer\<close> writes (with its error, if
  any) and what \<^verbatim>\<open>from_reader\<close> returns. Error messages of the library are strings of the
  parameter.
\<close>

section \<open>Payload structs\<close>

subsection \<open>Session management\<close>

record hello =
  hello_version :: u8
  hello_capabilities :: "string list"
  auth_token :: "bytes option"

record hello_reply =
  reply_session_id :: u64
  reply_capabilities :: "string list"
  challenge :: "bytes option"

record goodbye =
  goodbye_reason :: string

record sync_request =
  from_log_index :: u64
  sync_limit :: u64

record sync_response =
  sync_frames :: "bytes list"
  has_more :: bool
  server_epoch :: u64

subsection \<open>MLS operations\<close>

record key_package_data =
  key_package_bytes :: bytes

datatype proposal_type =
    PT_Add | PT_Remove | PT_Update | PT_PSK | PT_ReInit | PT_ExternalInit
  | PT_GroupContextExtensions

record proposal_data =
  proposal_bytes :: bytes
  proposal_kind :: proposal_type

record commit_data =
  commit_bytes :: bytes
  new_epoch :: u64
  commit_tree_hash :: bytes
  is_external :: bool

record welcome_data =
  welcome_bytes :: bytes
  welcome_epoch :: u64

subsection \<open>Application messages\<close>

record push_key =
  push_recipient_id :: u64
  encrypted_key :: bytes

record encrypted_message =
  msg_epoch :: u64
  msg_sender_index :: u32
  msg_generation :: u32
  msg_nonce :: bytes
  msg_ciphertext :: bytes
  push_keys :: "push_key list option"

datatype receipt_type = RT_Delivered | RT_Read

record receipt =
  receipt_log_index :: u64
  receipt_kind :: receipt_type
  receipt_timestamp :: u64

record reaction =
  reaction_log_index :: u64
  reaction_content :: string
  reaction_add :: bool

subsection \<open>Moderation\<close>

record redact =
  redact_log_index :: u64
  redact_reason :: string
  redact_moderator_id :: u64

record ban =
  ban_user_id :: u64
  ban_reason :: string
  duration_secs :: "u64 option"
  ban_moderator_id :: u64

record kick =
  kick_user_id :: u64
  kick_reason :: string
  kick_moderator_id :: u64

subsection \<open>Errors\<close>

record error_payload =
  error_code :: u16
  error_message :: string
  retry_after :: "u64 option"

definition FRAME_REJECTED :: u16 where "FRAME_REJECTED = 0x0001"
definition ROOM_NOT_FOUND :: u16 where "ROOM_NOT_FOUND = 0x0002"
definition STORAGE_ERROR :: u16 where "STORAGE_ERROR = 0x0003"
definition INVALID_PAYLOAD :: u16 where "INVALID_PAYLOAD = 0x0004"
definition MLS_ERROR :: u16 where "MLS_ERROR = 0x0005"
definition SEQUENCER_ERROR :: u16 where "SEQUENCER_ERROR = 0x0006"

definition frame_rejected :: "string \<Rightarrow> error_payload" where
  "frame_rejected reason =
     \<lparr>error_code = FRAME_REJECTED, error_message = reason, retry_after = None\<rparr>"

definition room_not_found :: "u128 \<Rightarrow> error_payload" where
  "room_not_found room_id =
     \<lparr>error_code = ROOM_NOT_FOUND, error_message = ''room not found: '' @ show_hex32 room_id,
      retry_after = None\<rparr>"

definition storage_error :: "string \<Rightarrow> error_payload" where
  "storage_error msg = \<lparr>error_code = STORAGE_ERROR, error_message = msg, retry_after = None\<rparr>"

definition invalid_payload :: "string \<Rightarrow> error_payload" where
  "invalid_payload msg = \<lparr>error_code = INVALID_PAYLOAD, error_message = msg, retry_after = None\<rparr>"

definition mls_error_payload :: "string \<Rightarrow> error_payload" where
  "mls_error_payload msg = \<lparr>error_code = MLS_ERROR, error_message = msg, retry_after = None\<rparr>"

definition sequencer_error_payload :: "string \<Rightarrow> error_payload" where
  "sequencer_error_payload msg =
     \<lparr>error_code = SEQUENCER_ERROR, error_message = msg, retry_after = None\<rparr>"

section \<open>The payload union\<close>

datatype payload =
    Payload_Hello hello
  | Payload_HelloReply hello_reply
  | Payload_Goodbye goodbye
  | Payload_Ping
  | Payload_Pong
  | Payload_SyncRequest sync_request
  | Payload_SyncResponse sync_response
  | Payload_KeyPackage key_package_data
  | Payload_Proposal proposal_data
  | Payload_Commit commit_data
  | Payload_Welcome welcome_data
  | Payload_AppMessage encrypted_message
  | Payload_AppReceipt receipt
  | Payload_AppReaction reaction
  | Payload_Redact redact
  | Payload_Ban ban
  | Payload_Kick kick
  | Payload_Error error_payload

text \<open>The CBOR library: bytes written and the error, if any; the value read or the error.\<close>

record ciborium =
  ser_hello :: "hello \<Rightarrow> bytes \<times> string option"
  ser_hello_reply :: "hello_reply \<Rightarrow> bytes \<times> string option"
  ser_goodbye :: "goodbye \<Rightarrow> bytes \<times> string option"
  ser_sync_request :: "sync_request \<Rightarrow> bytes \<times> string option"
  ser_sync_response :: "sync_response \<Rightarrow> bytes \<times> string option"
  ser_key_package_data :: "key_package_data \<Rightarrow> bytes \<times> string option"
  ser_proposal_data :: "proposal_data \<Rightarrow> bytes \<times> string option"
  ser_commit_data :: "commit_data \<Rightarrow> bytes \<times> string option"
  ser_welcome_data :: "welcome_data \<Rightarrow> bytes \<times> string option"
  ser_encrypted_message :: "encrypted_message \<Rightarrow> bytes \<times> string option"
  ser_receipt :: "receipt \<Rightarrow> bytes \<times> string option"
  ser_reaction :: "reaction \<Rightarrow> bytes \<times> string option"
  ser_redact :: "redact \<Rightarrow> bytes \<times> string option"
  ser_ban :: "ban \<Rightarrow> bytes \<times> string option"
  ser_kick :: "kick \<Rightarrow> bytes \<times> string option"
  ser_error_payload :: "error_payload \<Rightarrow> bytes \<times> string option"
  de_hello :: "bytes \<Rightarrow> string + hello"
  de_hello_reply :: "bytes \<Rightarrow> string + hello_reply"
  de_goodbye :: "bytes \<Rightarrow> string + goodbye"
  de_sync_request :: "bytes \<Rightarrow> string + sync_request"
  de_sync_response :: "bytes \<Rightarrow> string + sync_response"
  de_key_package_data :: "bytes \<Rightarrow> string + key_package_data"
  de_proposal_data :: "bytes \<Rightarrow> string + proposal_data"
  de_commit_data :: "bytes \<Rightarrow> string + commit_data"
  de_welcome_data :: "bytes \<Rightarrow> string + welcome_data"
  de_encrypted_message :: "bytes \<Rightarrow> string + encrypted_message"
  de_receipt :: "bytes \<Rightarrow> string + receipt"
  de_reaction :: "bytes \<Rightarrow> string + reaction"
  de_redact :: "bytes \<Rightarrow> string + redact"
  de_ban :: "bytes \<Rightarrow> string + ban"
  de_kick :: "bytes \<Rightarrow> string + kick"
  de_error_payload :: "bytes \<Rightarrow> string + error_payload"

fun payload_opcode :: "payload \<Rightarrow> opcode" where
  "payload_opcode (Payload_Hello _) = Op_Hello"
| "payload_opcode (Payload_HelloReply _) = Op_HelloReply"
| "payload_opcode (Payload_Goodbye _) = Op_Goodbye"
| "payload_opcode Payload_Ping = Op_Ping"
| "payload_opcode Payload_Pong = Op_Pong"
| "payload_opcode (Payload_SyncRequest _) = Op_SyncRequest"
| "payload_opcode (Payload_SyncResponse _) = Op_SyncResponse"
| "payload_opcode (Payload_KeyPackage _) = Op_KeyPackage"
| "payload_opcode (Payload_Proposal _) = Op_Proposal"
| "payload_opcode (Payload_Commit _) = Op_Commit"
| "payload_opcode (Payload_Welcome _) = Op_Welcome"
| "payload_opcode (Payload_AppMessage _) = Op_AppMessage"
| "payload_opcode (Payload_AppReceipt _) = Op_AppReceipt"
| "payload_opcode (Payload_AppReaction _) = Op_AppReaction"
| "payload_opcode (Payload_Redact _) = Op_Redact"
| "payload_opcode (Payload_Ban _) = Op_Ban"
| "payload_opcode (Payload_Kick _) = Op_Kick"
| "payload_opcode (Payload_Error _) = Op_Error"

text \<open>What one arm of the encoder's match writes, and its error.\<close>

fun payload_ser :: "ciborium \<Rightarrow> payload \<Rightarrow> bytes \<times> string option" where
  "payload_ser cb (Payload_Hello inner) = ser_hello cb inner"
| "payload_ser cb (Payload_HelloReply inner) = ser_hello_reply cb inner"
| "payload_ser cb (Payload_Goodbye inner) = ser_goodbye cb inner"
| "payload_ser cb Payload_Ping = ([], None)"
| "payload_ser cb Payload_Pong = ([], None)"
| "payload_ser cb (Payload_SyncRequest inner) = ser_sync_request cb inner"
| "payload_ser cb (Payload_SyncResponse inner) = ser_sync_response cb inner"
| "payload_ser cb (Payload_KeyPackage inner) = ser_key_package_data cb inner"
| "payload_ser cb (Payload_Proposal inner) = ser_proposal_data cb inner"
| "payload_ser cb (Payload_Commit inner) = ser_commit_data cb inner"
| "payload_ser cb (Payload_Welcome inner) = ser_welcome_data cb inner"
| "payload_ser cb (Payload_AppMessage inner) = ser_encrypted_message cb inner"
| "payload_ser cb (Payload_AppReceipt inner) = ser_receipt cb inner"
| "payload_ser cb (Payload_AppReaction inner) = ser_reaction cb inner"
| "payload_ser cb (Payload_Redact inner) = ser_redact cb inner"
| "payload_ser cb (Payload_Ban inner) = ser_ban cb inner"
| "payload_ser cb (Payload_Kick inner) = ser_kick cb inner"
| "payload_ser cb (Payload_Error inner) = ser_error_payload cb inner"

definition payload_encode :: "ciborium \<Rightarrow> payload \<Rightarrow> bytes \<Rightarrow> bytes \<times> (protocol_error + unit)" where
  "payload_encode cb p dst =
     (case payload_ser cb p of
        (written, None) \<Rightarrow> (dst @ written, Inr ())
      | (written, Some e) \<Rightarrow> (dst @ written, Inl (CborEncode e)))"

definition de_as :: "('a \<Rightarrow> payload) \<Rightarrow> string + 'a \<Rightarrow> protocol_error + payload" where
  "de_as wrap r = (case r of Inl e \<Rightarrow> Inl (CborDecode e) | Inr x \<Rightarrow> Inr (wrap x))"

definition payload_decode :: "ciborium \<Rightarrow> opcode \<Rightarrow> bytes \<Rightarrow> protocol_error + payload" where
  "payload_decode cb op bs =
     (if unat MAX_PAYLOAD_SIZE < length bs
      then Inl (PayloadTooLarge (length bs) (unat MAX_PAYLOAD_SIZE))
      else case op of
          Op_Hello \<Rightarrow> de_as Payload_Hello (de_hello cb bs)
        | Op_HelloReply \<Rightarrow> de_as Payload_HelloReply (de_hello_reply cb bs)
        | Op_Goodbye \<Rightarrow> de_as Payload_Goodbye (de_goodbye cb bs)
        | Op_Ping \<Rightarrow> Inr Payload_Ping
        | Op_Pong \<Rightarrow> Inr Payload_Pong
        | Op_SyncRequest \<Rightarrow> de_as Payload_SyncRequest (de_sync_request cb bs)
        | Op_SyncResponse \<Rightarrow> de_as Payload_SyncResponse (de_sync_response cb bs)
        | Op_KeyPackage \<Rightarrow> de_as Payload_KeyPackage (de_key_package_data cb bs)
        | Op_Proposal \<Rightarrow> de_as Payload_Proposal (de_proposal_data cb bs)
        | Op_Commit \<Rightarrow> de_as Payload_Commit (de_commit_data cb bs)
        | Op_Welcome \<Rightarrow> de_as Payload_Welcome (de_welcome_data cb bs)
        | Op_AppMessage \<Rightarrow> de_as Payload_AppMessage (de_encrypted_message cb bs)
        | Op_AppReceipt \<Rightarrow> de_as Payload_AppReceipt (de_receipt cb bs)
        | Op_AppReaction \<Rightarrow> de_as Payload_AppReaction (de_reaction cb bs)
        | Op_Redact \<Rightarrow> de_as Payload_Redact (de_redact cb bs)
        | Op_Ban \<Rightarrow> de_as Payload_Ban (de_ban cb bs)
        | Op_Kick \<Rightarrow> de_as Payload_Kick (de_kick cb bs)
        | Op_Error \<Rightarrow> de_as Payload_Error (de_error_payload cb bs)
        | _ \<Rightarrow> Inl (CborDecode (''Unsupported opcode: '' @ show_hex_alt 6 (to_u16 op))))"

definition into_frame :: "ciborium \<Rightarrow> payload \<Rightarrow> frame_header \<Rightarrow> protocol_error + frame" where
  "into_frame cb p h =
     (case payload_encode cb p [] of
        (_, Inl e) \<Rightarrow> Inl e
      | (buf, Inr _) \<Rightarrow>
          Inr (frame_new (h\<lparr>opcode_bytes := to_be_bytes (to_u16 (payload_opcode p))\<rparr>) buf))"

definition from_frame :: "ciborium \<Rightarrow> frame \<Rightarrow> protocol_error + payload" where
  "from_frame cb f =
     (case opcode_enum (header f) of
        None \<Rightarrow> Inl (CborDecode (''Invalid opcode: '' @ show_hex_alt 6 (header_opcode (header f))))
      | Some op \<Rightarrow> payload_decode cb op (payload f))"

section \<open>What the library promises\<close>

text \<open>
  Serialising one payload succeeds and deserialising the bytes at its type gives it back, the
  documented behaviour of the CBOR library on derived serialisers. Zero-byte payloads ask nothing.
\<close>

definition reads_back :: "('a \<Rightarrow> bytes \<times> string option) \<Rightarrow> (bytes \<Rightarrow> string + 'a) \<Rightarrow> 'a \<Rightarrow> bool" where
  "reads_back ser de x \<longleftrightarrow> snd (ser x) = None \<and> de (fst (ser x)) = Inr x"

fun cbor_inverse :: "ciborium \<Rightarrow> payload \<Rightarrow> bool" where
  "cbor_inverse cb (Payload_Hello inner) = reads_back (ser_hello cb) (de_hello cb) inner"
| "cbor_inverse cb (Payload_HelloReply inner) = reads_back (ser_hello_reply cb) (de_hello_reply cb) inner"
| "cbor_inverse cb (Payload_Goodbye inner) = reads_back (ser_goodbye cb) (de_goodbye cb) inner"
| "cbor_inverse cb Payload_Ping = True"
| "cbor_inverse cb Payload_Pong = True"
| "cbor_inverse cb (Payload_SyncRequest inner) = reads_back (ser_sync_request cb) (de_sync_request cb) inner"
| "cbor_inverse cb (Payload_SyncResponse inner) = reads_back (ser_sync_response cb) (de_sync_response cb) inner"
| "cbor_inverse cb (Payload_KeyPackage inner) = reads_back (ser_key_package_data cb) (de_key_package_data cb) inner"
| "cbor_inverse cb (Payload_Proposal inner) = reads_back (ser_proposal_data cb) (de_proposal_data cb) inner"
| "cbor_inverse cb (Payload_Commit inner) = reads_back (ser_commit_data cb) (de_commit_data cb) inner"
| "cbor_inverse cb (Payload_Welcome inner) = reads_back (ser_welcome_data cb) (de_welcome_data cb) inner"
| "cbor_inverse cb (Payload_AppMessage inner) = reads_back (ser_encrypted_message cb) (de_encrypted_message cb) inner"
| "cbor_inverse cb (Payload_AppReceipt inner) = reads_back (ser_receipt cb) (de_receipt cb) inner"
| "cbor_inverse cb (Payload_AppReaction inner) = reads_back (ser_reaction cb) (de_reaction cb) inner"
| "cbor_inverse cb (Payload_Redact inner) = reads_back (ser_redact cb) (de_redact cb) inner"
| "cbor_inverse cb (Payload_Ban inner) = reads_back (ser_ban cb) (de_ban cb) inner"
| "cbor_inverse cb (Payload_Kick inner) = reads_back (ser_kick cb) (de_kick cb) inner"
| "cbor_inverse cb (Payload_Error inner) = reads_back (ser_error_payload cb) (de_error_payload cb) inner"

section \<open>Lemmas\<close>

lemma payload_decode_ser:
  assumes "cbor_inverse cb p" and "length (fst (payload_ser cb p)) \<le> unat MAX_PAYLOAD_SIZE"
  shows "payload_decode cb (payload_opcode p) (fst (payload_ser cb p)) = Inr p"
  using assms by (cases p) (simp_all add: payload_decode_def reads_back_def de_as_def)

lemma payload_ser_ok: "cbor_inverse cb p \<Longrightarrow> snd (payload_ser cb p) = None"
  by (cases p) (simp_all add: reads_back_def)

lemma de_as_InrD: "de_as wrap r = Inr p \<Longrightarrow> \<exists>x. p = wrap x"
  by (auto simp: de_as_def split: sum.splits)

lemma payload_decode_opcode: "payload_decode cb op bs = Inr p \<Longrightarrow> payload_opcode p = op"
  by (cases op) (auto simp: payload_decode_def split: if_splits dest!: de_as_InrD)

lemma into_frame_Inr:
  "into_frame cb p h = Inr f \<longleftrightarrow>
     snd (payload_ser cb p) = None \<and>
     f = frame_new (h\<lparr>opcode_bytes := to_be_bytes (to_u16 (payload_opcode p))\<rparr>) (fst (payload_ser cb p))"
  by (auto simp: into_frame_def payload_encode_def split: prod.splits option.splits)

lemma into_frame_sel [simp]:
  assumes "into_frame cb p h = Inr f"
  shows "opcode_enum (header f) = Some (payload_opcode p)" "payload f = fst (payload_ser cb p)"
    "header_room_id (header f) = header_room_id h"
    "header_sender_id (header f) = header_sender_id h"
    "header_epoch (header f) = header_epoch h"
    "header_log_index (header f) = header_log_index h"
    "header_request_id (header f) = header_request_id h"
    "header_signature (header f) = header_signature h"
  using assms by (simp_all add: into_frame_Inr header_accessor_defs frame_new_def)

lemma wf_frame_into_frame [wf_intros]:
  assumes "into_frame cb p h = Inr f" and "wf_header h" and "header_magic h = MAGIC"
    and "header_version h = VERSION" and "length (payload f) \<le> unat MAX_PAYLOAD_SIZE"
  shows "wf_frame f"
  using assms
  by (auto simp: into_frame_Inr wf_header_def header_accessor_defs intro!: wf_frame_new)

section \<open>Properties\<close>

text \<open>
  A payload survives the whole wire path: put into a frame, encoded, followed by arbitrary
  bytes, decoded and read back at the type its opcode names, it is the same payload, provided
  the CBOR library reads back what it wrote for that payload and the result fits the size limit.
\<close>

lemma payload_wire_round_trip:
  assumes "cbor_inverse cb p"
    and "wf_header h" and "header_magic h = MAGIC" and "header_version h = VERSION"
    and "length (fst (payload_ser cb p)) \<le> 16777216"
  shows "\<exists>f w. into_frame cb p h = Inr f \<and> encode f dst = Inr (dst @ w) \<and>
     decode (w @ rest) = Inr f \<and> from_frame cb f = Inr p"
proof -
  obtain f where f: "into_frame cb p h = Inr f"
    using payload_ser_ok [OF assms(1)] by (simp add: into_frame_Inr)
  have wf: "wf_frame f" using wf_frame_into_frame [OF f] assms(2-5) f by simp
  have "from_frame cb f = Inr p"
    using payload_decode_ser [OF assms(1)] assms(5) f by (simp add: from_frame_def)
  with f wf show ?thesis
    using encode_wf decode_wire by blast
qed

text \<open>
  A concrete library for the witnesses: it reads back a few payload types and refuses the others.
\<close>

definition sample_cbor :: ciborium where
  "sample_cbor =
     \<lparr>ser_hello = (\<lambda>h. ([hello_version h], None)),
      ser_hello_reply = (\<lambda>r. (to_be_bytes (reply_session_id r), None)),
      ser_goodbye = (\<lambda>g. (map (\<lambda>c. of_nat (of_char c)) (goodbye_reason g), None)),
      ser_sync_request = (\<lambda>r. (to_be_bytes (from_log_index r) @ to_be_bytes (sync_limit r), None)),
      ser_sync_response = (\<lambda>_. ([], None)),
      ser_key_package_data = (\<lambda>_. ([], None)),
      ser_proposal_data = (\<lambda>_. ([], None)),
      ser_commit_data = (\<lambda>_. ([], None)),
      ser_welcome_data = (\<lambda>_. ([], None)),
      ser_encrypted_message = (\<lambda>_. ([], None)),
      ser_receipt = (\<lambda>_. ([], None)),
      ser_reaction = (\<lambda>_. ([], None)),
      ser_redact = (\<lambda>_. ([], None)),
      ser_ban = (\<lambda>_. ([], None)),
      ser_kick = (\<lambda>_. ([], None)),
      ser_error_payload = (\<lambda>_. ([], None)),
      de_hello = (\<lambda>bs. if bs = [] then Inl ''eof''
        else Inr \<lparr>hello_version = hd bs, hello_capabilities = [], auth_token = None\<rparr>),
      de_hello_reply = (\<lambda>bs. if length bs < 8 then Inl ''eof''
        else Inr \<lparr>reply_session_id = from_be_bytes (take 8 bs), reply_capabilities = [], challenge = None\<rparr>),
      de_goodbye = (\<lambda>bs. Inr \<lparr>goodbye_reason = map (\<lambda>b. char_of (unat b)) bs\<rparr>),
      de_sync_request = (\<lambda>bs. if length bs < 16 then Inl ''eof''
        else Inr \<lparr>from_log_index = from_be_bytes (take 8 bs), sync_limit = from_be_bytes (take 8 (drop 8 bs))\<rparr>),
      de_sync_response = (\<lambda>_. Inl []),
      de_key_package_data = (\<lambda>_. Inl []),
      de_proposal_data = (\<lambda>_. Inl []),
      de_commit_data = (\<lambda>_. Inl []),
      de_welcome_data = (\<lambda>_. Inl []),
      de_encrypted_message = (\<lambda>_. Inl []),
      de_receipt = (\<lambda>_. Inl []),
      de_reaction = (\<lambda>_. Inl []),
      de_redact = (\<lambda>_. Inl []),
      de_ban = (\<lambda>_. Inl []),
      de_kick = (\<lambda>_. Inl []),
      de_error_payload = (\<lambda>_. Inl [])\<rparr>"

text \<open>
  No type confusion: a payload read from a frame always has the variant named by the frame's
  opcode, whatever the CBOR library returns; in particular a frame whose opcode has no payload
  type, or no opcode at all, is always rejected.
\<close>

lemma from_frame_opcode:
  assumes "from_frame cb f = Inr p"
  shows "opcode_enum (header f) = Some (payload_opcode p) \<and> length (payload f) \<le> 16777216"
  using assms payload_decode_opcode
  by (auto simp: from_frame_def payload_decode_def split: option.splits if_splits)

end
