(* ===== verification/Session_Connection.thy ===== *)
theory Session_Connection
  imports Payloads
begin

text \<open>
  The session state machine (\<^verbatim>\<open>lockframe-core/src/connection.rs\<close>), its errors (\<^verbatim>\<open>error.rs\<close>)
  and the random identifiers of the environment (\<^verbatim>\<open>env.rs\<close>). A method on \<^verbatim>\<open>&mut self\<close> that returns
  a \<^verbatim>\<open>Result\<close> yields the new connection and the result, since the source may change the
  connection before it fails. Time and random bytes are arguments.
\<close>

section \<open>States, actions and errors\<close>

datatype connection_state = Init | Pending | Authenticated | Closed

fun state_rank :: "connection_state \<Rightarrow> nat" where
  "state_rank Init = 0"
| "state_rank Pending = 1"
| "state_rank Authenticated = 2"
| "state_rank Closed = 3"

text \<open>The lifecycle order, from \<^verbatim>\<open>Init\<close> to \<^verbatim>\<open>Closed\<close>.\<close>

instantiation connection_state :: linorder
begin

definition less_eq_connection_state :: "connection_state \<Rightarrow> connection_state \<Rightarrow> bool" where
  "less_eq_connection_state s t \<longleftrightarrow> state_rank s \<le> state_rank t"

definition less_connection_state :: "connection_state \<Rightarrow> connection_state \<Rightarrow> bool" where
  "less_connection_state s t \<longleftrightarrow> state_rank s < state_rank t"

instance
proof
  fix s t :: connection_state
  show "s \<le> t \<Longrightarrow> t \<le> s \<Longrightarrow> s = t"
    by (cases s; cases t) (simp_all add: less_eq_connection_state_def)
qed (auto simp: less_eq_connection_state_def less_connection_state_def)

end

lemmas state_order = less_eq_connection_state_def less_connection_state_def

lemma Closed_le_iff [simp]: "Closed \<le> s \<longleftrightarrow> s = Closed"
  by (cases s) (simp_all add: state_order)

lemma le_Closed [simp]: "s \<le> Closed"
  by (cases s) (simp_all add: state_order)

lemma Init_le [simp]: "Init \<le> s"
  by (simp add: state_order)

lemma Pending_le_Authenticated [simp]: "Pending \<le> Authenticated"
  by (simp add: state_order)

datatype connection_action = SendFrame frame | Close string

datatype connection_error =
    InvalidState connection_state string
  | UnexpectedFrame connection_state u16
  | HandshakeTimeout duration
  | IdleTimeout duration
  | CE_UnsupportedVersion u8
  | InvalidPayload string u16
  | CE_Protocol string
  | CE_Transport string

fun show_connection_state :: "connection_state \<Rightarrow> string" where
  "show_connection_state Init = ''Init''"
| "show_connection_state Pending = ''Pending''"
| "show_connection_state Authenticated = ''Authenticated''"
| "show_connection_state Closed = ''Closed''"

fun show_connection_error :: "connection_error \<Rightarrow> string" where
  "show_connection_error (InvalidState st operation) =
     ''invalid state transition: cannot '' @ operation @ '' from '' @ show_connection_state st"
| "show_connection_error (UnexpectedFrame st op) =
     ''unexpected frame: received opcode '' @ show_hex_alt 6 op @ '' in state '' @ show_connection_state st"
| "show_connection_error (HandshakeTimeout d) = ''handshake timeout after '' @ show_duration d"
| "show_connection_error (IdleTimeout d) = ''idle timeout after '' @ show_duration d"
| "show_connection_error (CE_UnsupportedVersion v) = ''unsupported protocol version: '' @ show_word v"
| "show_connection_error (InvalidPayload expected op) =
     ''invalid payload: expected '' @ expected @ '' for opcode '' @ show_hex_alt 6 op"
| "show_connection_error (CE_Protocol m) = ''protocol error: '' @ m"
| "show_connection_error (CE_Transport m) = ''transport error: '' @ m"

fun is_transient :: "connection_error \<Rightarrow> bool" where
  "is_transient (HandshakeTimeout _) = True"
| "is_transient (IdleTimeout _) = True"
| "is_transient _ = False"

datatype io_error_kind = TimedOut | InvalidData | OtherKind

fun io_kind :: "connection_error \<Rightarrow> io_error_kind" where
  "io_kind (HandshakeTimeout _) = TimedOut"
| "io_kind (IdleTimeout _) = TimedOut"
| "io_kind (InvalidState _ _) = InvalidData"
| "io_kind (UnexpectedFrame _ _) = InvalidData"
| "io_kind (CE_UnsupportedVersion _) = InvalidData"
| "io_kind (InvalidPayload _ _) = InvalidData"
| "io_kind (CE_Protocol _) = InvalidData"
| "io_kind (CE_Transport _) = OtherKind"

definition connection_error_of :: "protocol_error \<Rightarrow> connection_error" where
  "connection_error_of e = CE_Protocol (show_protocol_error e)"

text \<open>\<^verbatim>\<open>random_u64\<close> and \<^verbatim>\<open>random_u128\<close> of the 8 and 16 bytes the environment filled in.\<close>

definition random_u64 :: "bytes \<Rightarrow> u64" where
  "random_u64 bs = from_be_bytes bs"

definition random_u128 :: "bytes \<Rightarrow> u128" where
  "random_u128 bs = from_be_bytes bs"

section \<open>The connection\<close>

record connection_config =
  handshake_timeout :: duration
  idle_timeout :: duration
  heartbeat_interval :: duration

definition DEFAULT_HANDSHAKE_TIMEOUT :: duration where "DEFAULT_HANDSHAKE_TIMEOUT = 30 * 10 ^ 9"
definition DEFAULT_IDLE_TIMEOUT :: duration where "DEFAULT_IDLE_TIMEOUT = 60 * 10 ^ 9"
definition DEFAULT_HEARTBEAT_INTERVAL :: duration where "DEFAULT_HEARTBEAT_INTERVAL = 20 * 10 ^ 9"

definition connection_config_default :: connection_config where
  "connection_config_default =
     \<lparr>handshake_timeout = DEFAULT_HANDSHAKE_TIMEOUT, idle_timeout = DEFAULT_IDLE_TIMEOUT,
      heartbeat_interval = DEFAULT_HEARTBEAT_INTERVAL\<rparr>"

record connection =
  conn_state :: connection_state
  conn_config :: connection_config
  last_activity :: instant
  last_heartbeat :: "instant option"
  conn_session_id :: "u64 option"

type_synonym connection_result = "connection \<times> (connection_error + connection_action list)"

definition connection_new :: "instant \<Rightarrow> connection_config \<Rightarrow> connection" where
  "connection_new now cfg =
     \<lparr>conn_state = Init, conn_config = cfg, last_activity = now, last_heartbeat = None,
      conn_session_id = None\<rparr>"

definition connection_handshake_timeout :: "connection \<Rightarrow> duration" where
  "connection_handshake_timeout c = handshake_timeout (conn_config c)"

definition set_session_id :: "u64 \<Rightarrow> connection \<Rightarrow> connection" where
  "set_session_id s c = c\<lparr>conn_session_id := Some s\<rparr>"

text \<open>\<^verbatim>\<open>into_frame(...)?\<close> followed by the single action that sends it.\<close>

definition send_payload :: "ciborium \<Rightarrow> payload \<Rightarrow> connection_error + connection_action list" where
  "send_payload cb p =
     (case into_frame cb p (header_new (payload_opcode p)) of
        Inl e \<Rightarrow> Inl (connection_error_of e)
      | Inr f \<Rightarrow> Inr [SendFrame f])"

definition send_hello :: "ciborium \<Rightarrow> instant \<Rightarrow> connection \<Rightarrow> connection_result" where
  "send_hello cb now c =
     (if conn_state c \<noteq> Init then (c, Inl (InvalidState (conn_state c) ''send_hello''))
      else (c\<lparr>conn_state := Pending, last_activity := now\<rparr>,
            send_payload cb
              (Payload_Hello \<lparr>hello_version = 1, hello_capabilities = [], auth_token = None\<rparr>)))"

definition handle_hello :: "ciborium \<Rightarrow> hello \<Rightarrow> bytes \<Rightarrow> instant \<Rightarrow> connection \<Rightarrow> connection_result" where
  "handle_hello cb hello random now c =
     (if conn_state c \<noteq> Init then (c, Inl (InvalidState (conn_state c) ''handle_hello''))
      else if hello_version hello \<noteq> 1 then (c, Inl (CE_UnsupportedVersion (hello_version hello)))
      else let session_id = random_u64 random in
        (c\<lparr>conn_session_id := Some session_id, conn_state := Authenticated, last_activity := now\<rparr>,
         send_payload cb
           (Payload_HelloReply
             \<lparr>reply_session_id = session_id, reply_capabilities = [], challenge = None\<rparr>)))"

definition conn_close :: "connection \<Rightarrow> connection" where
  "conn_close c = c\<lparr>conn_state := Closed\<rparr>"

definition update_activity :: "instant \<Rightarrow> connection \<Rightarrow> connection" where
  "update_activity now c = c\<lparr>last_activity := now\<rparr>"

definition check_timeout :: "instant \<Rightarrow> connection \<Rightarrow> duration option" where
  "check_timeout now c =
     (let elapsed = now - last_activity c in
      case (case conn_state c of
              Pending \<Rightarrow> Some (handshake_timeout (conn_config c))
            | Authenticated \<Rightarrow> Some (idle_timeout (conn_config c))
            | _ \<Rightarrow> None) of
        None \<Rightarrow> None
      | Some timeout \<Rightarrow> if timeout < elapsed then Some elapsed else None)"

definition ping_frame :: frame where
  "ping_frame = frame_new (header_new Op_Ping) []"

definition pong_frame :: frame where
  "pong_frame = frame_new (header_new Op_Pong) []"

definition tick :: "instant \<Rightarrow> connection \<Rightarrow> connection \<times> connection_action list" where
  "tick now c =
     (case check_timeout now c of
        Some elapsed \<Rightarrow>
          (let reason = (case conn_state c of
               Pending \<Rightarrow> ''handshake timeout after '' @ show_duration elapsed
             | Authenticated \<Rightarrow> ''idle timeout after '' @ show_duration elapsed
             | _ \<Rightarrow> ''timeout'')
           in (conn_close c, [Close reason]))
      | None \<Rightarrow>
          if conn_state c = Authenticated \<and>
             (case last_heartbeat c of
                None \<Rightarrow> True
              | Some prev \<Rightarrow> heartbeat_interval (conn_config c) \<le> now - prev)
          then (c\<lparr>last_heartbeat := Some now, last_activity := now\<rparr>, [SendFrame ping_frame])
          else (c, []))"

text \<open>The arms of \<^verbatim>\<open>match payload\<close> that name one variant and send all others to the last arm.\<close>

definition as_hello :: "payload \<Rightarrow> hello option" where
  "as_hello p = (case p of Payload_Hello h \<Rightarrow> Some h | _ \<Rightarrow> None)"

definition as_hello_reply :: "payload \<Rightarrow> hello_reply option" where
  "as_hello_reply p = (case p of Payload_HelloReply r \<Rightarrow> Some r | _ \<Rightarrow> None)"

definition as_goodbye :: "payload \<Rightarrow> goodbye option" where
  "as_goodbye p = (case p of Payload_Goodbye g \<Rightarrow> Some g | _ \<Rightarrow> None)"

definition handle_frame :: "ciborium \<Rightarrow> frame \<Rightarrow> instant \<Rightarrow> connection \<Rightarrow> connection_result" where
  "handle_frame cb f now c0 =
     (let c = c0\<lparr>last_activity := now\<rparr> in
      case opcode_enum (header f) of
        None \<Rightarrow> (c, Inl (UnexpectedFrame (conn_state c) (header_opcode (header f))))
      | Some op \<Rightarrow>
          if conn_state c = Init \<and> op = Op_Hello then
            (case from_frame cb f of
               Inl e \<Rightarrow> (c, Inl (connection_error_of e))
             | Inr p \<Rightarrow> (case as_hello p of
                 Some hello \<Rightarrow>
                   if hello_version hello \<noteq> 1
                   then (c, Inl (CE_UnsupportedVersion (hello_version hello)))
                   else (case conn_session_id c of
                       None \<Rightarrow> (c, Inl (CE_Protocol ''server must set session_id before handling Hello''))
                     | Some session_id \<Rightarrow>
                         (c\<lparr>conn_state := Authenticated\<rparr>,
                          send_payload cb
                            (Payload_HelloReply \<lparr>reply_session_id = session_id,
                               reply_capabilities = [], challenge = None\<rparr>)))
               | None \<Rightarrow> (c, Inl (InvalidPayload ''Hello'' (to_u16 Op_Hello)))))
          else if conn_state c = Pending \<and> op = Op_HelloReply then
            (case from_frame cb f of
               Inl e \<Rightarrow> (c, Inl (connection_error_of e))
             | Inr p \<Rightarrow> (case as_hello_reply p of
                 Some reply \<Rightarrow>
                   (c\<lparr>conn_state := Authenticated, conn_session_id := Some (reply_session_id reply)\<rparr>,
                    Inr [])
               | None \<Rightarrow> (c, Inl (InvalidPayload ''HelloReply'' (to_u16 Op_HelloReply)))))
          else if conn_state c = Authenticated \<and> op = Op_Ping then (c, Inr [SendFrame pong_frame])
          else if conn_state c = Authenticated \<and> op = Op_Pong then (c, Inr [])
          else if op = Op_Goodbye \<and> conn_state c \<noteq> Closed then
            (case from_frame cb f of
               Inl e \<Rightarrow> (c, Inl (connection_error_of e))
             | Inr p \<Rightarrow> (case as_goodbye p of
                 Some goodbye \<Rightarrow>
                   (c\<lparr>conn_state := Closed\<rparr>,
                    case send_payload cb (Payload_Goodbye \<lparr>goodbye_reason = ''ack''\<rparr>) of
                      Inl e \<Rightarrow> Inl e
                    | Inr sends \<Rightarrow> Inr (sends @ [Close (''peer goodbye: '' @ goodbye_reason goodbye)]))
               | None \<Rightarrow> (c, Inl (InvalidPayload ''Goodbye'' (to_u16 Op_Goodbye)))))
          else if op = Op_Error then (c\<lparr>conn_state := Closed\<rparr>, Inr [Close ''peer error''])
          else (c, Inl (UnexpectedFrame (conn_state c) (to_u16 op))))"

section \<open>Runs\<close>

text \<open>Every public mutator of the connection as an event, with the time of the call.\<close>

datatype conn_event =
    Ev_SendHello | Ev_HandleHello hello bytes | Ev_Frame frame | Ev_Tick | Ev_Close
  | Ev_SetSession u64 | Ev_Activity

fun conn_step :: "ciborium \<Rightarrow> conn_event \<times> instant \<Rightarrow> connection \<Rightarrow> connection_result" where
  "conn_step cb (Ev_SendHello, now) c = send_hello cb now c"
| "conn_step cb (Ev_HandleHello h rnd, now) c = handle_hello cb h rnd now c"
| "conn_step cb (Ev_Frame f, now) c = handle_frame cb f now c"
| "conn_step cb (Ev_Tick, now) c = (let (c', acts) = tick now c in (c', Inr acts))"
| "conn_step cb (Ev_Close, now) c = (conn_close c, Inr [])"
| "conn_step cb (Ev_SetSession s, now) c = (set_session_id s c, Inr [])"
| "conn_step cb (Ev_Activity, now) c = (update_activity now c, Inr [])"

definition session_inv :: "connection \<Rightarrow> bool" where
  "session_inv c \<longleftrightarrow> (conn_state c = Authenticated \<longrightarrow> conn_session_id c \<noteq> None)"

lemmas conn_op_defs =
  send_hello_def handle_hello_def conn_close_def set_session_id_def update_activity_def Let_def

lemma send_hello_mono: "conn_state c \<le> conn_state (fst (send_hello cb now c))"
  by (simp add: send_hello_def)

lemma handle_hello_mono: "conn_state c \<le> conn_state (fst (handle_hello cb h rnd now c))"
  by (simp add: handle_hello_def Let_def)

lemma tick_mono: "conn_state c \<le> conn_state (fst (tick now c))"
  by (simp add: tick_def conn_close_def Let_def split: option.split)

lemma handle_frame_mono: "conn_state c \<le> conn_state (fst (handle_frame cb f now c))"
  by (simp add: handle_frame_def Let_def split: option.split sum.split)

lemma conn_step_mono: "conn_state c \<le> conn_state (fst (conn_step cb ev c))"
  by (cases "(cb, ev, c)" rule: conn_step.cases)
    (simp_all add: send_hello_mono handle_hello_mono tick_mono handle_frame_mono conn_close_def
      set_session_id_def update_activity_def split_beta Let_def)

lemma conn_step_config: "conn_config (fst (conn_step cb ev c)) = conn_config c"
  by (cases "(cb, ev, c)" rule: conn_step.cases)
    (simp_all add: conn_op_defs tick_def handle_frame_def split_beta
      split: option.split sum.split)

lemma handle_frame_session_inv: "session_inv c \<Longrightarrow> session_inv (fst (handle_frame cb f now c))"
  by (cases "conn_session_id c"; cases "conn_state c")
    (simp_all add: session_inv_def handle_frame_def Let_def
      split: option.split sum.split)

lemma conn_step_session_inv: "session_inv c \<Longrightarrow> session_inv (fst (conn_step cb ev c))"
  by (cases "(cb, ev, c)" rule: conn_step.cases)
    (simp_all add: handle_frame_session_inv,
     simp_all add: session_inv_def conn_op_defs tick_def split_beta split: option.split)

interpretation lifecycle: monotone_steps "conn_step cb" conn_state for cb
  by unfold_locales (rule conn_step_mono)

interpretation session: preserved_by "conn_step cb" session_inv for cb
  by unfold_locales (rule conn_step_session_inv)

section \<open>Specification of the frame handler\<close>

text \<open>
  The transition diagram of the module documentation: the state after an accepted frame, and
  no entry for a frame the state does not accept.
\<close>

definition conn_next :: "connection_state \<Rightarrow> opcode \<Rightarrow> connection_state option" where
  "conn_next st op =
     (if (st, op) \<in> {(Init, Op_Hello), (Pending, Op_HelloReply)} then Some Authenticated
      else if st = Authenticated \<and> op \<in> {Op_Ping, Op_Pong} then Some Authenticated
      else if op = Op_Error \<or> op = Op_Goodbye \<and> st \<noteq> Closed then Some Closed
      else None)"

lemma send_payload_inverse:
  assumes "cbor_inverse cb p" and "length (fst (payload_ser cb p)) \<le> 16777216"
  shows "\<exists>f. send_payload cb p = Inr [SendFrame f] \<and> wf_frame f \<and>
     opcode_enum (header f) = Some (payload_opcode p) \<and> from_frame cb f = Inr p"
proof -
  obtain f where f: "into_frame cb p (header_new (payload_opcode p)) = Inr f"
    using payload_ser_ok [OF assms(1)] by (simp add: into_frame_Inr)
  have "from_frame cb f = Inr p"
    using payload_decode_ser [OF assms(1)] assms(2) f by (simp add: from_frame_def)
  moreover have "wf_frame f" using wf_frame_into_frame [OF f] f assms(2) by simp
  ultimately show ?thesis using f by (simp add: send_payload_def)
qed

lemma send_payload_total:
  "snd (payload_ser cb p) = None \<Longrightarrow> \<exists>f. send_payload cb p = Inr [SendFrame f]"
  by (cases "payload_ser cb p") (simp add: send_payload_def into_frame_def payload_encode_def)

lemma handle_frame_accepted:
  assumes "handle_frame cb f now c = (c', Inr acts)"
  shows "\<exists>op. opcode_enum (header f) = Some op \<and>
    conn_next (conn_state c) op = Some (conn_state c')"
proof -
  obtain op where op: "opcode_enum (header f) = Some op"
    using assms by (auto simp: handle_frame_def Let_def split: option.splits)
  have "conn_next (conn_state c) op = Some (conn_state c')"
    using assms unfolding handle_frame_def conn_next_def
    by (simp add: op Let_def split: if_split_asm option.split_asm sum.split_asm) auto
  with op show ?thesis by blast
qed

lemma handle_frame_refused:
  assumes "opcode_enum (header f) = Some op" and "conn_next (conn_state c) op = None"
  shows "handle_frame cb f now c =
    (c\<lparr>last_activity := now\<rparr>, Inl (UnexpectedFrame (conn_state c) (to_u16 op)))"
proof -
  have "\<not> (conn_state c = Init \<and> op = Op_Hello)" "\<not> (conn_state c = Pending \<and> op = Op_HelloReply)"
    "\<not> (conn_state c = Authenticated \<and> op = Op_Ping)" "\<not> (conn_state c = Authenticated \<and> op = Op_Pong)"
    "\<not> (op = Op_Goodbye \<and> conn_state c \<noteq> Closed)" "op \<noteq> Op_Error"
    using assms(2) by (auto simp: conn_next_def split: if_split_asm)
  then show ?thesis
    by (cases "conn_state c") (simp_all add: handle_frame_def Let_def assms(1))
qed

lemma tick_pending:
  assumes "conn_state c = Pending"
  shows "tick now c = (if handshake_timeout (conn_config c) < now - last_activity c
     then (conn_close c, [Close (''handshake timeout after '' @ show_duration (now - last_activity c))])
     else (c, []))"
  using assms by (simp add: tick_def check_timeout_def)

text \<open>A run of ticks, the driver's periodic call.\<close>

definition run_ticks :: "instant list \<Rightarrow> connection \<Rightarrow> connection" where
  "run_ticks = run_events tick"

lemma run_ticks_simps [simp]:
  "run_ticks [] c = c"
  "run_ticks (t # ts) c = run_ticks ts (fst (tick t c))"
  by (simp_all add: run_ticks_def)

lemma run_ticks_closed: "conn_state c = Closed \<Longrightarrow> conn_state (run_ticks ts c) = Closed"
  by (induction ts arbitrary: c) (simp_all add: tick_def check_timeout_def)

lemma run_ticks_pending:
  "conn_state c = Pending \<Longrightarrow> run_ticks ts c = c \<or> conn_state (run_ticks ts c) = Closed"
proof (induction ts arbitrary: c)
  case (Cons t ts)
  then show ?case
    by (simp add: tick_pending run_ticks_closed conn_close_def)
qed simp

text \<open>
  After a tick at time \<open>t\<close> of an authenticated connection its activity mark is at most one
  heartbeat interval old: the heartbeat it sends moves the mark.
\<close>

definition freshly_marked :: "instant \<Rightarrow> connection \<Rightarrow> bool" where
  "freshly_marked t c \<longleftrightarrow> conn_state c = Authenticated \<and>
     (case last_heartbeat c of
        None \<Rightarrow> t \<le> last_activity c
      | Some lh \<Rightarrow> lh \<le> last_activity c \<and> t \<le> lh + heartbeat_interval (conn_config c))"

lemma tick_freshly_marked:
  assumes "freshly_marked t c" and "t' \<le> t + gap"
    and "heartbeat_interval (conn_config c) + gap \<le> idle_timeout (conn_config c)"
  shows "freshly_marked t' (fst (tick t' c)) \<and> conn_config (fst (tick t' c)) = conn_config c"
  using assms
  by (auto simp: freshly_marked_def tick_def check_timeout_def Let_def split: option.splits if_splits)

lemma run_ticks_freshly_marked:
  assumes "freshly_marked t c" and "successively (\<lambda>a b. b \<le> a + gap) (t # ts)"
    and "heartbeat_interval (conn_config c) + gap \<le> idle_timeout (conn_config c)"
  shows "conn_state (run_ticks ts c) = Authenticated"
  using assms
proof (induction ts arbitrary: t c)
  case Nil
  then show ?case by (simp add: freshly_marked_def)
next
  case (Cons t' ts)
  then have "freshly_marked t' (fst (tick t' c)) \<and> conn_config (fst (tick t' c)) = conn_config c"
    by (intro tick_freshly_marked [where gap = gap and t = t]) simp_all
  with Cons.IH [of t' "fst (tick t' c)"] Cons.prems show ?case by simp
qed

section \<open>Properties\<close>

text \<open>
  Whatever sequence of calls a connection receives, its lifecycle only moves forward: the state
  after the run is at least the state before it in the order
  Init, Pending, Authenticated, Closed, so a closed connection stays closed.
\<close>

lemma lifecycle_forward:
  "conn_state c \<le> conn_state (run_events (conn_step cb) evs c)"
  by (rule lifecycle.run_mono)

text \<open>
  A connection that is authenticated after any sequence of calls on a new connection has a
  session identifier.
\<close>

lemma authenticated_has_session:
  assumes "conn_state (run_events (conn_step cb) evs (connection_new t cfg)) = Authenticated"
  shows "conn_session_id (run_events (conn_step cb) evs (connection_new t cfg)) \<noteq> None"
proof -
  have "session_inv (run_events (conn_step cb) evs (connection_new t cfg))"
    by (rule session.run_inv) (simp add: session_inv_def connection_new_def)
  with assms show ?thesis by (simp add: session_inv_def)
qed

text \<open>
  The handshake agrees on the session: a client and a server connection in \<^verbatim>\<open>Init\<close>, the server
  with its session identifier set, exchange exactly one Hello and one HelloReply, after which both
  are authenticated with the server's identifier, provided the CBOR library reads back the two
  payloads and they fit a frame.
\<close>

lemma handshake_agrees:
  assumes "conn_state client = Init" and "conn_state server = Init"
    and "conn_session_id server = Some sid"
    and "cbor_inverse cb (Payload_Hello \<lparr>hello_version = 1, hello_capabilities = [], auth_token = None\<rparr>)"
    and "length (fst (payload_ser cb (Payload_Hello
           \<lparr>hello_version = 1, hello_capabilities = [], auth_token = None\<rparr>))) \<le> 16777216"
    and "cbor_inverse cb (Payload_HelloReply \<lparr>reply_session_id = sid, reply_capabilities = [], challenge = None\<rparr>)"
    and "length (fst (payload_ser cb (Payload_HelloReply
           \<lparr>reply_session_id = sid, reply_capabilities = [], challenge = None\<rparr>))) \<le> 16777216"
  shows "\<exists>client1 server1 client2 f g.
     send_hello cb t1 client = (client1, Inr [SendFrame f]) \<and>
     handle_frame cb f t2 server = (server1, Inr [SendFrame g]) \<and>
     handle_frame cb g t3 client1 = (client2, Inr []) \<and>
     conn_state client2 = Authenticated \<and> conn_state server1 = Authenticated \<and>
     conn_session_id client2 = Some sid \<and> conn_session_id server1 = Some sid"
proof -
  let ?hello = "Payload_Hello \<lparr>hello_version = 1, hello_capabilities = [], auth_token = None\<rparr>"
  let ?reply = "Payload_HelloReply \<lparr>reply_session_id = sid, reply_capabilities = [], challenge = None\<rparr>"
  obtain f where f: "send_payload cb ?hello = Inr [SendFrame f]"
      "opcode_enum (header f) = Some Op_Hello" "from_frame cb f = Inr ?hello"
    using send_payload_inverse [OF assms(4,5)] by auto
  obtain g where g: "send_payload cb ?reply = Inr [SendFrame g]"
      "opcode_enum (header g) = Some Op_HelloReply" "from_frame cb g = Inr ?reply"
    using send_payload_inverse [OF assms(6,7)] by auto
  show ?thesis
    using assms(1-3) f g by (simp add: send_hello_def handle_frame_def as_hello_def as_hello_reply_def)
qed

text \<open>
  The frame handler implements the transition diagram: a frame is accepted only along an
  edge of the diagram and then moves the state along that edge; a frame with a known opcode and
  no edge is refused with \<^verbatim>\<open>UnexpectedFrame\<close> and changes nothing but the activity mark.
\<close>

lemma handle_frame_refines_diagram:
  "(handle_frame cb f now c = (c', Inr acts) \<longrightarrow>
      (\<exists>op. opcode_enum (header f) = Some op \<and> conn_next (conn_state c) op = Some (conn_state c'))) \<and>
   (opcode_enum (header f) = Some op \<and> conn_next (conn_state c) op = None \<longrightarrow>
      handle_frame cb f now c =
        (c\<lparr>last_activity := now\<rparr>, Inl (UnexpectedFrame (conn_state c) (to_u16 op))))"
  using handle_frame_accepted handle_frame_refused by blast

text \<open>
  A refused frame never advances the session: when serialisation does not fail, a frame the
  handler answers with an error leaves the connection as it was, but for the activity mark.
\<close>

lemma frame_error_keeps_connection:
  assumes "\<forall>p. snd (payload_ser cb p) = None" and "handle_frame cb f now c = (c', Inl e)"
  shows "c' = c\<lparr>last_activity := now\<rparr>"
proof -
  have "send_payload cb p \<noteq> Inl e'" for p e'
    using send_payload_total [of cb p] assms(1) by auto
  with assms(2) show ?thesis
    by (auto simp: handle_frame_def Let_def split: option.splits sum.splits if_splits)
qed

text \<open>
  A handshake that gets no answer ends: however often a pending connection was ticked before,
  a tick later than the handshake timeout after its last activity leaves it closed.
\<close>

lemma pending_times_out:
  assumes "conn_state c = Pending"
    and "last_activity c + handshake_timeout (conn_config c) < t"
  shows "conn_state (run_ticks (ts @ [t]) c) = Closed"
proof -
  have "conn_state (fst (tick t c)) = Closed"
    using assms by (simp add: tick_pending conn_close_def)
  then show ?thesis
    using run_ticks_pending [OF assms(1), of ts] run_ticks_closed [of _ "[t]"]
    by (auto simp: run_ticks_def)
qed

text \<open>
  C34. The idle timeout does not see a silent peer: an authenticated connection whose ticks come at
  most \<open>gap\<close> apart, with heartbeat interval plus \<open>gap\<close> within the idle timeout, stays
  authenticated for ever although no frame arrives, because sending a heartbeat counts as
  activity.
\<close>

theorem heartbeats_hide_silence:
  assumes "conn_state c = Authenticated" and "last_heartbeat c = None"
    and "heartbeat_interval (conn_config c) + gap \<le> idle_timeout (conn_config c)"
    and "successively (\<lambda>a b. b \<le> a + gap) (last_activity c # ts)"
  shows "conn_state (run_ticks ts c) = Authenticated"
  using assms
  by (intro run_ticks_freshly_marked [where t = "last_activity c" and gap = gap])
    (simp_all add: freshly_marked_def)

theorem heartbeats_hide_silence_witness:
  "conn_state (run_ticks [40000000000, 80000000000, 120000000000]
     \<lparr>conn_state = Authenticated, conn_config = connection_config_default, last_activity = 0,
      last_heartbeat = None, conn_session_id = Some 1\<rparr>) = Authenticated"
  by (rule heartbeats_hide_silence [where gap = 40000000000])
    (simp_all add: connection_config_default_def DEFAULT_HEARTBEAT_INTERVAL_def DEFAULT_IDLE_TIMEOUT_def)

end
