(* ===== verification/Server_Driver.thy ===== *)
theory Server_Driver
  imports Room_Manager Registry_Model Session_Connection
begin

text \<open>
  The server driver (\<^verbatim>\<open>lockframe-server/src/driver.rs\<close>) and its errors (\<^verbatim>\<open>server_error.rs\<close>): it
  routes events to the connection state machines, the registry and the room manager, and answers
  with actions for the runtime. A handler returns the new driver with its result; a handler that
  reaches the storage's range read may panic. The order in which a hash map yields its keys is a
  parameter.
\<close>

section \<open>Configuration, events, actions and errors\<close>

record server_config =
  cfg_connection :: connection_config
  max_connections :: nat

definition server_config_default :: server_config where
  "server_config_default = \<lparr>cfg_connection = connection_config_default, max_connections = 10000\<rparr>"

datatype server_event =
    ConnectionAccepted u64
  | FrameReceived u64 frame
  | ConnectionClosed u64 string
  | Tick

datatype log_level = LL_Debug | LL_Info | LL_Warn | LL_Error

datatype server_action =
    SendToSession u64 frame
  | BroadcastToRoom u128 frame "u64 option"
  | CloseConnection u64 string
  | SV_PersistFrame u128 u64 frame
  | SV_PersistMlsState u128 mls_group_state
  | Log log_level string instant

datatype server_error =
    SV_SessionNotFound u64
  | SV_SessionAlreadyExists u64
  | SV_Room room_error
  | SV_Storage storage_error
  | SV_ConnectionFailed u64 string
  | SV_Protocol string

fun show_server_error :: "server_error \<Rightarrow> string" where
  "show_server_error (SV_SessionNotFound i) = ''session not found: '' @ show_word i"
| "show_server_error (SV_SessionAlreadyExists i) = ''session already exists: '' @ show_word i"
| "show_server_error (SV_Room e) = ''room error: '' @ show_room_error e"
| "show_server_error (SV_Storage e) = ''storage error: '' @ show_storage_error e"
| "show_server_error (SV_ConnectionFailed i reason) =
     ''connection failed for session '' @ show_word i @ '': '' @ reason"
| "show_server_error (SV_Protocol m) = ''protocol error: '' @ m"

section \<open>The driver\<close>

record ('x, 's) server_driver =
  d_connections :: "u64 \<rightharpoonup> connection"
  d_registry :: registry
  d_room_manager :: "'x room_manager"
  d_storage :: 's
  d_config :: server_config

text \<open>What the driver calls and does not own, and the readings of the clock during one event.\<close>

record ('x, 's) services =
  sv_cbor :: ciborium
  sv_openmls :: "'x openmls"
  sv_ed25519 :: ed25519
  sv_storage :: "'s storage_ops"
  sv_env :: 'x
  hash_order :: "u64 set \<Rightarrow> u64 list"

record readings =
  at_event :: instant
  at_room :: instant
  at_reply :: instant

type_synonym ('x, 's) driver_result = "('x, 's) server_driver \<times> (server_error + server_action list)"

definition driver_new :: "'s \<Rightarrow> server_config \<Rightarrow> ('x, 's) server_driver" where
  "driver_new storage config =
     \<lparr>d_connections = Map.empty, d_registry = registry_new, d_room_manager = room_manager_new,
      d_storage = storage, d_config = config\<rparr>"

definition handle_connection_accepted ::
  "readings \<Rightarrow> u64 \<Rightarrow> ('x, 's) server_driver \<Rightarrow> ('x, 's) driver_result" where
  "handle_connection_accepted rd session_id d =
     (if max_connections (d_config d) \<le> card (dom (d_connections d))
      then (d, Inr [CloseConnection session_id ''max connections exceeded''])
      else
        let conn = set_session_id session_id (connection_new (at_event rd) (cfg_connection (d_config d))) in
        (d\<lparr>d_connections := (d_connections d)(session_id \<mapsto> conn),
           d_registry := fst (register_session session_id session_info_new (d_registry d))\<rparr>,
         Inr [Log LL_Debug (''connection '' @ show_word session_id @ '' accepted, session_id=''
                @ show_word session_id) (at_event rd)]))"

definition server_action_of :: "u64 \<Rightarrow> connection_action \<Rightarrow> server_action" where
  "server_action_of session_id action =
     (case action of
        SendFrame f \<Rightarrow> SendToSession session_id f
      | Close reason \<Rightarrow> CloseConnection session_id reason)"

text \<open>The error and sync replies: encoded, given the room, and sent; a failed encoding is logged.\<close>

definition error_of_server_error :: "u128 \<Rightarrow> server_error \<Rightarrow> error_payload" where
  "error_of_server_error room_id error =
     (case error of
        SV_Room room_err \<Rightarrow>
          (case room_err of
             RE_RoomNotFound _ \<Rightarrow> room_not_found room_id
           | RE_Storage e \<Rightarrow> storage_error (show_storage_error e)
           | RE_MlsValidation e \<Rightarrow> mls_error_payload (show_mls_error e)
           | RE_Sequencing e \<Rightarrow> sequencer_error_payload (show_sequencer_error e)
           | _ \<Rightarrow> frame_rejected (show_server_error error))
      | SV_Protocol msg \<Rightarrow> invalid_payload msg
      | _ \<Rightarrow> frame_rejected (show_server_error error))"

definition make_error_response ::
  "ciborium \<Rightarrow> readings \<Rightarrow> u64 \<Rightarrow> u128 \<Rightarrow> server_error \<Rightarrow> server_action list" where
  "make_error_response cb rd session_id room_id error =
     (let error_payload = error_of_server_error room_id error in
      case into_frame cb (Payload_Error error_payload) (header_new Op_Error) of
        Inr f \<Rightarrow>
          [SendToSession session_id (f\<lparr>header := set_room_id room_id (header f)\<rparr>),
           Log LL_Warn (''sync request failed for '' @ show_word session_id @ '': ''
             @ error_message error_payload) (at_reply rd)]
      | Inl e \<Rightarrow> [Log LL_Error (''failed to encode error response: '' @ show_protocol_error e) (at_reply rd)])"

fun convert_room_action ::
  "ciborium \<Rightarrow> readings \<Rightarrow> u64 \<Rightarrow> room_action \<Rightarrow> server_action list" where
  "convert_room_action cb rd sender_session (Broadcast r f exclude_sender _) =
     [BroadcastToRoom r f (if exclude_sender then Some sender_session else None)]"
| "convert_room_action cb rd sender_session (PersistFrame r i f _) = [SV_PersistFrame r i f]"
| "convert_room_action cb rd sender_session (PersistMlsState r st _) = [SV_PersistMlsState r st]"
| "convert_room_action cb rd sender_session (RejectAction sender_id reason processed_at) =
     (let warn = Log LL_Warn (''rejected frame from '' @ show_word sender_id @ '': '' @ reason) processed_at in
      case into_frame cb (Payload_Error (frame_rejected reason)) (header_new Op_Error) of
        Inr f \<Rightarrow> [SendToSession sender_id f, warn]
      | Inl _ \<Rightarrow> [warn])"
| "convert_room_action cb rd sender_session (SendSyncResponse sender_id r frames rest epoch _) =
     (case into_frame cb
         (Payload_SyncResponse \<lparr>sync_frames = frames, has_more = rest, server_epoch = epoch\<rparr>)
         (header_new Op_SyncResponse) of
        Inr f \<Rightarrow> [SendToSession sender_id (f\<lparr>header := set_room_id r (header f)\<rparr>)]
      | Inl e \<Rightarrow> [Log LL_Error (''failed to encode SyncResponse: '' @ show_protocol_error e) (at_reply rd)])"

definition as_sync_request :: "payload \<Rightarrow> sync_request option" where
  "as_sync_request p = (case p of Payload_SyncRequest r \<Rightarrow> Some r | _ \<Rightarrow> None)"

definition handle_sync_request ::
  "('x, 's) services \<Rightarrow> readings \<Rightarrow> u64 \<Rightarrow> frame \<Rightarrow> ('x, 's) server_driver \<Rightarrow>
     (('x, 's) server_driver \<times> server_action list) exec" where
  "handle_sync_request sv rd session_id f d =
     (let room_id = header_room_id (header f);
          failed = make_error_response (sv_cbor sv) rd session_id room_id in
      case from_frame (sv_cbor sv) f of
        Inl e \<Rightarrow> Done (d, failed (SV_Protocol (show_protocol_error e)))
      | Inr p \<Rightarrow>
          (case as_sync_request p of
             None \<Rightarrow> Done (d, failed (SV_Protocol ''expected SyncRequest payload''))
           | Some req \<Rightarrow>
               (case rm_handle_sync_request (sv_openmls sv) (sv_storage sv) (at_room rd) room_id session_id
                   (from_log_index req) (unat (sync_limit req)) (d_room_manager d) (d_storage d) of
                  Panic \<Rightarrow> Panic
                | Done (s, Inl e) \<Rightarrow> Done (d\<lparr>d_storage := s\<rparr>, failed (SV_Room e))
                | Done (s, Inr action) \<Rightarrow>
                    Done (d\<lparr>d_storage := s\<rparr>, convert_room_action (sv_cbor sv) rd session_id action))))"

text \<open>The common end of the room-level arms: the room manager's answer, converted.\<close>

definition process_room_frame ::
  "('x, 's) services \<Rightarrow> readings \<Rightarrow> u64 \<Rightarrow> frame \<Rightarrow> server_action list \<Rightarrow> ('x, 's) server_driver \<Rightarrow>
     ('x, 's) driver_result" where
  "process_room_frame sv rd session_id f actions d =
     (case rm_process_frame (sv_openmls sv) (sv_ed25519 sv) (sv_storage sv) (at_room rd) f
         (d_room_manager d) (d_storage d) of
        (rm, s, res) \<Rightarrow>
          (d\<lparr>d_room_manager := rm, d_storage := s\<rparr>,
           case res of
             Inl e \<Rightarrow> Inl (SV_Room e)
           | Inr room_actions \<Rightarrow>
               Inr (actions @ concat (map (convert_room_action (sv_cbor sv) rd session_id) room_actions))))"

definition handle_session_frame ::
  "('x, 's) services \<Rightarrow> readings \<Rightarrow> u64 \<Rightarrow> frame \<Rightarrow> connection \<Rightarrow> ('x, 's) server_driver \<Rightarrow>
     ('x, 's) driver_result" where
  "handle_session_frame sv rd session_id f conn d =
     (case handle_frame (sv_cbor sv) f (at_event rd) conn of
        (conn', res) \<Rightarrow>
          let d1 = d\<lparr>d_connections := (d_connections d)(session_id \<mapsto> conn')\<rparr> in
          (case res of
             Inl e \<Rightarrow> (d1, Inl (SV_ConnectionFailed session_id (show_connection_error e)))
           | Inr conn_actions \<Rightarrow>
               (if opcode_enum (header f) = Some Op_Hello
                then d1\<lparr>d_registry := modify_session session_id
                       (\<lambda>info. info\<lparr>authenticated := True, user_id := conn_session_id conn'\<rparr>) (d_registry d1)\<rparr>
                else d1,
                Inr (map (server_action_of session_id) conn_actions))))"

definition handle_frame_received ::
  "('x, 's) services \<Rightarrow> readings \<Rightarrow> u64 \<Rightarrow> frame \<Rightarrow> ('x, 's) server_driver \<Rightarrow> ('x, 's) driver_result exec" where
  "handle_frame_received sv rd session_id f d =
     (case d_connections d session_id of
        None \<Rightarrow> Done (d, Inl (SV_SessionNotFound session_id))
      | Some conn \<Rightarrow>
          let opcode = opcode_enum (header f) in
          if opcode \<in> {Some Op_Hello, Some Op_Ping, Some Op_Pong, Some Op_Goodbye}
          then Done (handle_session_frame sv rd session_id f conn d)
          else if opcode = Some Op_SyncRequest
          then (case handle_sync_request sv rd session_id f d of
                  Panic \<Rightarrow> Panic
                | Done (d', actions) \<Rightarrow> Done (d', Inr actions))
          else
            let d1 = d\<lparr>d_connections := (d_connections d)(session_id \<mapsto> update_activity (at_event rd) conn)\<rparr> in
            if opcode = Some Op_Welcome then
              (let room_id = header_room_id (header f);
                   d2 = d1\<lparr>d_registry := fst (subscribe session_id room_id (d_registry d1))\<rparr>
               in Done (process_room_frame sv rd session_id f
                    [Log LL_Debug (''session '' @ show_word session_id @ '' subscribed to room ''
                       @ show_hex32 room_id @ '' via Welcome'') (at_event rd)] d2))
            else Done (process_room_frame sv rd session_id f [] d1))"

definition handle_connection_closed ::
  "readings \<Rightarrow> u64 \<Rightarrow> string \<Rightarrow> ('x, 's) server_driver \<Rightarrow> ('x, 's) driver_result" where
  "handle_connection_closed rd session_id reason d =
     (let (registry, left) = unregister_session session_id (d_registry d) in
      (d\<lparr>d_connections := (d_connections d)(session_id := None), d_registry := registry\<rparr>,
       Inr (case left of
              None \<Rightarrow> []
            | Some (_, rooms) \<Rightarrow>
                [Log LL_Info (''connection '' @ show_word session_id @ '' closed: '' @ reason @ '', was in ''
                   @ show_nat (card rooms) @ '' rooms'') (at_event rd)])))"

fun tick_all ::
  "instant \<Rightarrow> u64 list \<Rightarrow> (u64 \<rightharpoonup> connection) \<Rightarrow> (u64 \<rightharpoonup> connection) \<times> server_action list" where
  "tick_all now [] conns = (conns, [])"
| "tick_all now (session_id # session_ids) conns =
     (case conns session_id of
        None \<Rightarrow> tick_all now session_ids conns
      | Some conn \<Rightarrow>
          let (conn', conn_actions) = tick now conn;
              (conns', actions) = tick_all now session_ids (conns(session_id \<mapsto> conn'))
          in (conns', map (server_action_of session_id) conn_actions @ actions))"

definition handle_tick :: "('x, 's) services \<Rightarrow> readings \<Rightarrow> ('x, 's) server_driver \<Rightarrow> ('x, 's) driver_result" where
  "handle_tick sv rd d =
     (let (conns, actions) = tick_all (at_event rd) (hash_order sv (dom (d_connections d))) (d_connections d)
      in (d\<lparr>d_connections := conns\<rparr>, Inr actions))"

definition process_event ::
  "('x, 's) services \<Rightarrow> readings \<Rightarrow> server_event \<Rightarrow> ('x, 's) server_driver \<Rightarrow> ('x, 's) driver_result exec" where
  "process_event sv rd event d =
     (case event of
        ConnectionAccepted session_id \<Rightarrow> Done (handle_connection_accepted rd session_id d)
      | FrameReceived session_id f \<Rightarrow> handle_frame_received sv rd session_id f d
      | ConnectionClosed session_id reason \<Rightarrow> Done (handle_connection_closed rd session_id reason d)
      | Tick \<Rightarrow> Done (handle_tick sv rd d))"

definition driver_create_room ::
  "('x, 's) services \<Rightarrow> readings \<Rightarrow> u128 \<Rightarrow> u64 \<Rightarrow> ('x, 's) server_driver \<Rightarrow> ('x, 's) driver_result" where
  "driver_create_room sv rd room_id creator_session d =
     (case sessions (d_registry d) creator_session of
        None \<Rightarrow> (d, Inl (SV_SessionNotFound creator_session))
      | Some info \<Rightarrow>
          let user = (case user_id info of Some u \<Rightarrow> u | None \<Rightarrow> creator_session) in
          (case rm_create_room (sv_openmls sv) (sv_env sv) (at_room rd) room_id user (d_room_manager d) of
             (rm, Inl e) \<Rightarrow> (d\<lparr>d_room_manager := rm\<rparr>, Inl (SV_Room e))
           | (rm, Inr _) \<Rightarrow>
               (d\<lparr>d_room_manager := rm, d_registry := fst (subscribe creator_session room_id (d_registry d))\<rparr>,
                Inr [Log LL_Info (''room '' @ show_hex32 room_id @ '' created by session ''
                       @ show_word creator_session) (at_event rd)])))"

definition subscribe_to_room ::
  "u64 \<Rightarrow> u128 \<Rightarrow> ('x, 's) server_driver \<Rightarrow> ('x, 's) server_driver \<times> bool" where
  "subscribe_to_room session_id room_id d =
     (let (registry, b) = subscribe session_id room_id (d_registry d) in (d\<lparr>d_registry := registry\<rparr>, b))"

definition unsubscribe_from_room ::
  "u64 \<Rightarrow> u128 \<Rightarrow> ('x, 's) server_driver \<Rightarrow> ('x, 's) server_driver \<times> bool" where
  "unsubscribe_from_room session_id room_id d =
     (let (registry, b) = unsubscribe session_id room_id (d_registry d) in (d\<lparr>d_registry := registry\<rparr>, b))"

definition driver_sessions_in_room :: "('x, 's) server_driver \<Rightarrow> u128 \<Rightarrow> u64 set" where
  "driver_sessions_in_room d room_id = sessions_in_room (d_registry d) room_id"

definition connection_count :: "('x, 's) server_driver \<Rightarrow> nat" where
  "connection_count d = card (dom (d_connections d))"

definition driver_has_room :: "('x, 's) server_driver \<Rightarrow> u128 \<Rightarrow> bool" where
  "driver_has_room d room_id \<longleftrightarrow> rm_has_room (d_room_manager d) room_id"

definition room_epoch :: "('x, 's) services \<Rightarrow> ('x, 's) server_driver \<Rightarrow> u128 \<Rightarrow> u64 option" where
  "room_epoch sv d room_id = rm_epoch (sv_openmls sv) (d_room_manager d) room_id"

section \<open>Invariant\<close>

text \<open>The public operations that change the driver, as calls.\<close>

datatype driver_call =
    DC_Event server_event
  | DC_CreateRoom u128 u64
  | DC_Subscribe u64 u128
  | DC_Unsubscribe u64 u128

fun driver_step ::
  "('x, 's) services \<Rightarrow> readings \<times> driver_call \<Rightarrow> ('x, 's) server_driver \<Rightarrow>
     ('x, 's) server_driver \<times> (server_error + server_action list) exec" where
  "driver_step sv (rd, DC_Event ev) d =
     (case process_event sv rd ev d of Panic \<Rightarrow> (d, Panic) | Done (d', res) \<Rightarrow> (d', Done res))"
| "driver_step sv (rd, DC_CreateRoom r sid) d = apsnd Done (driver_create_room sv rd r sid d)"
| "driver_step sv (rd, DC_Subscribe sid r) d = (fst (subscribe_to_room sid r d), Done (Inr []))"
| "driver_step sv (rd, DC_Unsubscribe sid r) d = (fst (unsubscribe_from_room sid r d), Done (Inr []))"

text \<open>
  Connections and registry agree: the same sessions, no more than the limit, every connection under
  its own identifier, and every identified user is the session.
\<close>

definition books_agree :: "(u64 \<rightharpoonup> connection) \<Rightarrow> registry \<Rightarrow> server_config \<Rightarrow> bool" where
  "books_agree conns reg cfg \<longleftrightarrow>
     registry_inv reg \<and> (\<forall>sid. conns sid = None \<longleftrightarrow> sessions reg sid = None) \<and>
     finite (dom conns) \<and> card (dom conns) \<le> max_connections cfg \<and>
     (\<forall>sid c. conns sid = Some c \<longrightarrow> conn_session_id c = Some sid) \<and>
     (\<forall>sid info. sessions reg sid = Some info \<longrightarrow> user_id info \<in> {None, Some sid})"

abbreviation driver_inv :: "('x, 's) server_driver \<Rightarrow> bool" where
  "driver_inv d \<equiv> books_agree (d_connections d) (d_registry d) (d_config d)"

lemma handle_frame_session_id:
  "opcode_enum (header f) \<noteq> Some Op_HelloReply \<Longrightarrow>
     conn_session_id (fst (handle_frame cb f now c)) = conn_session_id c"
  by (simp add: handle_frame_def Let_def split: option.split sum.split)

lemma tick_session_id: "conn_session_id (fst (tick now c)) = conn_session_id c"
  by (simp add: tick_def conn_close_def Let_def split: option.split)

lemma registry_calls_inv:
  assumes "registry_inv reg"
  shows "registry_inv (fst (register_session sid info reg))" "registry_inv (fst (unregister_session sid reg))"
    "registry_inv (modify_session sid upd reg)" "registry_inv (fst (subscribe sid r reg))"
    "registry_inv (fst (unsubscribe sid r reg))"
  using registry_step_inv [OF assms, of "RC_Register sid info"] registry_step_inv [OF assms, of "RC_Unregister sid"]
    registry_step_inv [OF assms, of "RC_Modify sid upd"] registry_step_inv [OF assms, of "RC_Subscribe sid r"]
    registry_step_inv [OF assms, of "RC_Unsubscribe sid r"]
  by simp_all

lemma registry_calls_sessions:
  "sessions (fst (register_session sid info reg)) =
     (if sessions reg sid = None then (sessions reg)(sid \<mapsto> info) else sessions reg)"
  "sessions (fst (unregister_session sid reg)) = (sessions reg)(sid := None)"
  "sessions (modify_session sid upd reg) = (sessions reg)(sid := map_option upd (sessions reg sid))"
  "sessions (fst (subscribe sid r reg)) = sessions reg"
  by (auto simp: register_session_def unregister_session_def modify_session_def subscribe_def Let_def
      fun_eq_iff split: option.split)

lemma books_dom: "books_agree conns reg cfg \<Longrightarrow> dom conns = dom (sessions reg)"
  by (simp add: books_agree_def dom_def)

lemma books_subscribe:
  "books_agree conns reg cfg \<Longrightarrow> books_agree conns (fst (subscribe sid r reg)) cfg"
  by (simp add: books_agree_def registry_calls_inv registry_calls_sessions)

lemma books_unsubscribe:
  "books_agree conns reg cfg \<Longrightarrow> books_agree conns (fst (unsubscribe sid r reg)) cfg"
  by (simp add: books_agree_def registry_calls_inv unsubscribe_obs)

text \<open>Replacing the state machine of a known connection.\<close>

lemma books_connection:
  assumes "books_agree conns reg cfg" and "conns sid = Some c" and "conn_session_id c' = conn_session_id c"
  shows "books_agree (conns(sid \<mapsto> c')) reg cfg"
proof -
  have "dom (conns(sid \<mapsto> c')) = dom conns" using assms(2) by auto
  moreover have "sessions reg sid \<noteq> None" using assms(1,2) unfolding books_agree_def by (metis option.distinct(1))
  ultimately show ?thesis using assms by (auto simp: books_agree_def)
qed

lemma books_accept:
  assumes "books_agree conns reg cfg" and "card (dom conns) < max_connections cfg"
    and "conn_session_id c = Some sid"
  shows "books_agree (conns(sid \<mapsto> c)) (fst (register_session sid session_info_new reg)) cfg"
proof -
  have "card (dom (conns(sid \<mapsto> c))) \<le> max_connections cfg"
    using assms(1,2) card_insert_if [of "dom conns" sid] by (simp add: books_agree_def)
  with assms show ?thesis
    by (auto simp: books_agree_def registry_calls_inv registry_calls_sessions session_info_new_def)
qed

lemma books_close:
  assumes "books_agree conns reg cfg"
  shows "books_agree (conns(sid := None)) (fst (unregister_session sid reg)) cfg"
proof -
  have "card (dom (conns(sid := None))) \<le> card (dom conns)"
    using assms by (intro card_mono) (auto simp: books_agree_def)
  with assms show ?thesis
    by (auto simp: books_agree_def registry_calls_inv registry_calls_sessions)
qed

lemma books_hello:
  assumes "books_agree conns reg cfg"
  shows "books_agree conns (modify_session sid (\<lambda>info. info\<lparr>authenticated := True, user_id := Some sid\<rparr>) reg) cfg"
  using assms by (auto simp: books_agree_def registry_calls_inv registry_calls_sessions)

lemma tick_all_books:
  "books_agree conns reg cfg \<Longrightarrow> books_agree (fst (tick_all now sids conns)) reg cfg"
proof (induction sids arbitrary: conns)
  case (Cons sid sids)
  show ?case
  proof (cases "conns sid")
    case (Some c)
    have "books_agree (conns(sid \<mapsto> fst (tick now c))) reg cfg"
      by (rule books_connection [OF Cons.prems Some tick_session_id])
    moreover have "fst (tick_all now (sid # sids) conns) = fst (tick_all now sids (conns(sid \<mapsto> fst (tick now c))))"
      using Some by (simp add: split_beta Let_def)
    ultimately show ?thesis using Cons.IH by metis
  qed (simp add: Cons)
qed simp

lemma session_frame_inv:
  assumes "driver_inv d" and "d_connections d sid = Some c" and "opcode_enum (header f) \<noteq> Some Op_HelloReply"
  shows "driver_inv (fst (handle_session_frame sv rd sid f c d))"
proof -
  obtain c' res where step: "handle_frame (sv_cbor sv) f (at_event rd) c = (c', res)" by fastforce
  have same: "conn_session_id c' = conn_session_id c"
    using handle_frame_session_id [OF assms(3), of "sv_cbor sv" "at_event rd" c] step by simp
  moreover have own: "conn_session_id c = Some sid" using assms(1,2) by (simp add: books_agree_def)
  ultimately show ?thesis
    using books_hello books_connection [OF assms(1,2) same] step
    by (simp add: handle_session_frame_def Let_def split: sum.split)
qed

lemma room_frame_inv: "driver_inv d \<Longrightarrow> driver_inv (fst (process_room_frame sv rd sid f acts d))"
  by (simp add: process_room_frame_def split: prod.split)

lemma sync_request_inv:
  "handle_sync_request sv rd sid f d = Done (d', acts) \<Longrightarrow> driver_inv d \<Longrightarrow> driver_inv d'"
  by (auto simp: handle_sync_request_def Let_def split: sum.splits option.splits exec.splits)

lemma frame_received_inv:
  assumes "driver_inv d" and "handle_frame_received sv rd sid f d = Done (d', res)"
  shows "driver_inv d'"
proof (cases "d_connections d sid")
  case None
  with assms show ?thesis by (simp add: handle_frame_received_def)
next
  case (Some c)
  let ?d1 = "d\<lparr>d_connections := (d_connections d)(sid \<mapsto> update_activity (at_event rd) c)\<rparr>"
  have d1: "driver_inv ?d1"
    using books_connection [OF assms(1) Some] by (simp add: update_activity_def)
  then have d2: "driver_inv (?d1\<lparr>d_registry := fst (subscribe sid r (d_registry d))\<rparr>)" for r
    using books_subscribe by simp
  consider (session) "opcode_enum (header f) \<in> {Some Op_Hello, Some Op_Ping, Some Op_Pong, Some Op_Goodbye}"
    | (sync) "opcode_enum (header f) = Some Op_SyncRequest"
    | (room) "opcode_enum (header f) \<notin> {Some Op_Hello, Some Op_Ping, Some Op_Pong, Some Op_Goodbye,
        Some Op_SyncRequest}" by blast
  then show ?thesis
  proof cases
    case session
    then have "d' = fst (handle_session_frame sv rd sid f c d)"
      using assms(2) Some by (auto simp: handle_frame_received_def Let_def)
    with session session_frame_inv [OF assms(1) Some] show ?thesis by auto
  next
    case sync
    then show ?thesis
      using assms Some sync_request_inv by (auto simp: handle_frame_received_def Let_def split: exec.splits)
  next
    case room
    then show ?thesis
      using assms(2) Some room_frame_inv [OF d1] room_frame_inv [OF d2]
      by (simp add: handle_frame_received_def Let_def split: if_splits) (metis fst_conv)+
  qed
qed

lemma driver_step_inv:
  fixes d :: "('x, 's) server_driver"
  assumes "driver_inv d"
  shows "driver_inv (fst (driver_step sv e d))"
proof (cases "(sv, e, d)" rule: driver_step.cases)
  case (1 sv rd ev d')
  show ?thesis
  proof (cases ev)
    case (FrameReceived sid f)
    then show ?thesis
      using 1 assms frame_received_inv [OF assms, of sv rd sid f] by (auto simp: process_event_def split: exec.split)
  qed (use 1 assms in \<open>auto simp: process_event_def handle_connection_accepted_def handle_connection_closed_def
      handle_tick_def split_beta Let_def set_session_id_def tick_all_books books_close intro!: books_accept\<close>)
next
  case (2 sv rd r sid d')
  then show ?thesis
    using assms books_subscribe by (auto simp: driver_create_room_def Let_def split: option.split sum.split prod.split)
qed (use assms in \<open>simp_all add: subscribe_to_room_def unsubscribe_from_room_def split_beta Let_def
    books_subscribe books_unsubscribe\<close>)

interpretation books: preserved_by "driver_step sv" driver_inv for sv
  by unfold_locales (rule driver_step_inv)

lemma driver_new_inv: "driver_inv (driver_new s cfg)"
  by (simp add: driver_new_def books_agree_def registry_new_def [symmetric])
    (simp add: registry_new_def)

section \<open>Properties\<close>

text \<open>
  C15. After any sequence of events and calls on a new driver, the registered sessions are exactly
  the connected ones, there are never more than the configured maximum, every connection holds its
  own session identifier, and only connected sessions are subscribed to rooms, so that a
  broadcast never addresses a session the server has forgotten.
\<close>

theorem server_books_agree:
  "let d = run_events (driver_step sv) calls (driver_new s cfg) in
     dom (d_connections d) = dom (sessions (d_registry d)) \<and> connection_count d \<le> max_connections (d_config d) \<and>
     (\<forall>sid. map_option conn_session_id (d_connections d sid) \<in> {None, Some (Some sid)}) \<and>
     (\<forall>r. driver_sessions_in_room d r \<subseteq> dom (d_connections d))"
proof -
  let ?d = "run_events (driver_step sv) calls (driver_new s cfg)"
  have inv: "driver_inv ?d" by (rule books.run_inv) (rule driver_new_inv)
  have reg: "registry_inv (d_registry ?d)" using inv by (simp add: books_agree_def)
  have "d_connections ?d sid = Some c \<Longrightarrow> conn_session_id c = Some sid" for sid c
    using inv by (simp add: books_agree_def)
  then have "map_option conn_session_id (d_connections ?d sid) \<in> {None, Some (Some sid)}" for sid
    by (cases "d_connections ?d sid") simp_all
  moreover have "connection_count ?d \<le> max_connections (d_config ?d)"
    using inv by (simp add: books_agree_def connection_count_def)
  moreover have "driver_sessions_in_room ?d r \<subseteq> dom (d_connections ?d)" for r
    using registry_invD(4) [OF reg] by (auto simp: driver_sessions_in_room_def books_dom [OF inv])
  ultimately show ?thesis using books_dom [OF inv] by (simp add: Let_def)
qed

end
