(* ===== verification/Server_Runtime.thy ===== *)
theory Server_Runtime
  imports Server_Driver
begin

text \<open>
  The production runtime around the driver (\<^verbatim>\<open>lockframe-server/src/lib.rs\<close>, \<^verbatim>\<open>error.rs\<close>): reading
  frames off a stream, executing the driver's actions, and the interleaving of the tasks that do
  so. Opening a stream and writing to it are the transport's; a delivery is a buffer handed to
  the transport for an open connection.
\<close>

section \<open>Errors and reading\<close>

datatype runtime_error =
    RT_Config string
  | RT_Transport string
  | RT_Protocol string
  | RT_Internal string
  | RT_Driver server_error

fun show_runtime_error :: "runtime_error \<Rightarrow> string" where
  "show_runtime_error (RT_Config m) = ''configuration error: '' @ m"
| "show_runtime_error (RT_Transport m) = ''transport error: '' @ m"
| "show_runtime_error (RT_Protocol m) = ''protocol error: '' @ m"
| "show_runtime_error (RT_Internal m) = ''internal error: '' @ m"
| "show_runtime_error (RT_Driver e) = ''driver error: '' @ show_server_error e"

text \<open>
  One turn of the read loop on the bytes still to come: 128 header bytes, as many payload bytes as
  the header announces, and the decoder on both. \<open>None\<close> leaves the loop.
\<close>

definition read_frame :: "bytes \<Rightarrow> (frame \<times> bytes) option" where
  "read_frame incoming =
     (if length incoming < 128 then None
      else let payload_size = unat (header_payload_size (header_of_bytes (take 128 incoming))) in
        if length (drop 128 incoming) < payload_size then None
        else (case decode (take (128 + payload_size) incoming) of
            Inl _ \<Rightarrow> None
          | Inr f \<Rightarrow> Some (f, drop (128 + payload_size) incoming)))"

lemma read_frame_shorter: "read_frame incoming = Some (f, rest) \<Longrightarrow> length rest < length incoming"
  by (auto simp: read_frame_def Let_def split: if_splits sum.splits)

function read_stream :: "bytes \<Rightarrow> frame list" where
  "read_stream incoming =
     (case read_frame incoming of None \<Rightarrow> [] | Some (f, rest) \<Rightarrow> f # read_stream rest)"
  by auto

termination
  by (relation "measure length") (auto dest: read_frame_shorter)

lemma read_frame_wire:
  assumes "wf_frame f"
  shows "read_frame (wire f @ rest) = Some (f, rest)"
proof -
  note wf = wf_frameD [OF assms]
  have len: "length (wire f) = 128 + length (payload f)" using length_wire [OF assms] by (simp add: HEADER_SIZE_def)
  have head: "take 128 (wire f @ rest) = to_bytes (header f)"
    using length_to_bytes [OF wf(1)] by (simp add: wire_def HEADER_SIZE_def)
  have "from_bytes (to_bytes (header f)) = Inr (header f)"
    using from_bytes_to_bytes [OF wf(1,2), of "[]"] by simp
  then have "header_of_bytes (to_bytes (header f)) = header f"
    by (auto simp: from_bytes_def Let_def split: if_splits)
  then have size: "unat (header_payload_size (header_of_bytes (take 128 (wire f @ rest)))) = length (payload f)"
    using wf(3) head by simp
  have "decode (wire f) = Inr f" using decode_wire [OF assms, of "[]"] by simp
  then show ?thesis using len size by (simp add: read_frame_def Let_def)
qed

lemma read_stream_wire: "wf_frame f \<Longrightarrow> read_stream (wire f) = [f]"
  using read_frame_wire [of f "[]"] by (simp add: read_frame_def)

section \<open>Executing actions\<close>

type_synonym deliveries = "(u64 \<times> bytes) list"

fun execute_action ::
  "('x, 's) services \<Rightarrow> server_action \<Rightarrow> ('x, 's) server_driver \<Rightarrow> u64 set \<Rightarrow>
     ('x, 's) server_driver \<times> u64 set \<times> deliveries \<times> (runtime_error + unit)" where
  "execute_action sv (SendToSession session_id f) d conns =
     (if session_id \<in> conns then
        (case encode f [] of
           Inl e \<Rightarrow> (d, conns, [], Inl (RT_Protocol (show_protocol_error e)))
         | Inr buf \<Rightarrow> (d, conns, [(session_id, buf)], Inr ()))
      else (d, conns, [], Inr ()))"
| "execute_action sv (BroadcastToRoom room_id f exclude_session) d conns =
     (let recipients = hash_order sv (driver_sessions_in_room d room_id) in
      case encode f [] of
        Inl e \<Rightarrow> (d, conns, [], Inl (RT_Protocol (show_protocol_error e)))
      | Inr buf \<Rightarrow>
          (d, conns,
           map (\<lambda>session_id. (session_id, buf))
             (filter (\<lambda>session_id. Some session_id \<noteq> exclude_session \<and> session_id \<in> conns) recipients),
           Inr ()))"
| "execute_action sv (CloseConnection session_id reason) d conns = (d, conns - {session_id}, [], Inr ())"
| "execute_action sv (SV_PersistFrame room_id log_index f) d conns =
     (d\<lparr>d_storage := fst (so_store_frame (sv_storage sv) room_id log_index f (d_storage d))\<rparr>, conns, [], Inr ())"
| "execute_action sv (SV_PersistMlsState room_id st) d conns =
     (d\<lparr>d_storage := fst (so_store_mls_state (sv_storage sv) room_id st (d_storage d))\<rparr>, conns, [], Inr ())"
| "execute_action sv (Log level message timestamp) d conns = (d, conns, [], Inr ())"

fun execute_actions ::
  "('x, 's) services \<Rightarrow> server_action list \<Rightarrow> ('x, 's) server_driver \<Rightarrow> u64 set \<Rightarrow>
     ('x, 's) server_driver \<times> u64 set \<times> deliveries \<times> (runtime_error + unit)" where
  "execute_actions sv [] d conns = (d, conns, [], Inr ())"
| "execute_actions sv (action # actions) d conns =
     (case execute_action sv action d conns of
        (d1, conns1, sent, Inl e) \<Rightarrow> (d1, conns1, sent, Inl e)
      | (d1, conns1, sent, Inr _) \<Rightarrow>
          (case execute_actions sv actions d1 conns1 of
             (d2, conns2, sent2, res) \<Rightarrow> (d2, conns2, sent @ sent2, res)))"

section \<open>Tasks\<close>

text \<open>
  The server with its open connections and the tasks that hold actions still to be executed. A
  stream task takes the driver's lock once to process a frame and once more to execute the actions,
  so other tasks may run in between; connections are accepted and closed under one lock. A client
  may have any number of streams. \<open>WE_Call\<close> is a call of the driver's other public operations
  (creating a room, a tick) by an embedding runtime, as the simulated server makes them; the
  production runtime makes none.
\<close>

record ('x, 's) server_world =
  w_driver :: "('x, 's) server_driver"
  w_open :: "u64 set"
  w_tasks :: "server_action list list"

datatype world_event =
    WE_Accept u64
  | WE_Frame u64 frame
  | WE_Execute nat
  | WE_Closed u64
  | WE_Call driver_call

definition world_new :: "'s \<Rightarrow> server_config \<Rightarrow> ('x, 's) server_world" where
  "world_new storage config = \<lparr>w_driver = driver_new storage config, w_open = {}, w_tasks = []\<rparr>"

text \<open>A call and the execution of its actions under one lock.\<close>

definition call_and_execute ::
  "('x, 's) services \<Rightarrow> readings \<Rightarrow> driver_call \<Rightarrow> ('x, 's) server_world \<Rightarrow> ('x, 's) server_world \<times> deliveries" where
  "call_and_execute sv rd call w =
     (case driver_step sv (rd, call) (w_driver w) of
        (d, Done (Inr actions)) \<Rightarrow>
          (case execute_actions sv actions d (w_open w) of
             (d', conns, sent, _) \<Rightarrow> (w\<lparr>w_driver := d', w_open := conns\<rparr>, sent))
      | (d, _) \<Rightarrow> (w\<lparr>w_driver := d\<rparr>, []))"

fun world_step ::
  "('x, 's) services \<Rightarrow> readings \<times> world_event \<Rightarrow> ('x, 's) server_world \<Rightarrow> ('x, 's) server_world \<times> deliveries" where
  "world_step sv (rd, WE_Accept session_id) w =
     call_and_execute sv rd (DC_Event (ConnectionAccepted session_id))
       (w\<lparr>w_open := insert session_id (w_open w)\<rparr>)"
| "world_step sv (rd, WE_Closed session_id) w =
     call_and_execute sv rd (DC_Event (ConnectionClosed session_id ''connection closed''))
       (w\<lparr>w_open := w_open w - {session_id}\<rparr>)"
| "world_step sv (rd, WE_Call call) w = call_and_execute sv rd call w"
| "world_step sv (rd, WE_Frame session_id f) w =
     (case driver_step sv (rd, DC_Event (FrameReceived session_id f)) (w_driver w) of
        (d, Done (Inr actions)) \<Rightarrow> (w\<lparr>w_driver := d, w_tasks := w_tasks w @ [actions]\<rparr>, [])
      | (d, _) \<Rightarrow> (w\<lparr>w_driver := d\<rparr>, []))"
| "world_step sv (rd, WE_Execute k) w =
     (if k < length (w_tasks w) then
        (case execute_actions sv (w_tasks w ! k) (w_driver w) (w_open w) of
           (d, conns, sent, _) \<Rightarrow>
             (\<lparr>w_driver = d, w_open = conns, w_tasks = take k (w_tasks w) @ drop (Suc k) (w_tasks w)\<rparr>, sent))
      else (w, []))"

section \<open>What a call does to the rooms\<close>

text \<open>
  No call writes a log, the sequencer's next index of a room never decreases, and a frame a call
  asks to persist carries its room and its index, which is the next one of the room where that
  was known.
\<close>

definition index_of :: "('x, 's) server_driver \<Rightarrow> u128 \<Rightarrow> u64 option" where
  "index_of d r = map_option next_log_index (seq_rooms (rm_sequencer (d_room_manager d)) r)"

definition labelled :: "(u128 \<Rightarrow> u64 option) \<Rightarrow> server_action \<Rightarrow> bool" where
  "labelled idx a \<longleftrightarrow>
     (case a of
        SV_PersistFrame r i f \<Rightarrow>
          header_log_index (header f) = i \<and> header_room_id (header f) = r \<and> idx r \<in> {None, Some i}
      | _ \<Rightarrow> True)"

definition room_effect ::
  "('s \<Rightarrow> u128 \<Rightarrow> frame list) \<Rightarrow> ('x, 's) server_driver \<Rightarrow> ('x, 's) server_driver \<Rightarrow> server_action list \<Rightarrow> bool" where
  "room_effect lg d d' acts \<longleftrightarrow>
     lg (d_storage d') = lg (d_storage d) \<and>
     (\<forall>r n. index_of d r = Some n \<longrightarrow> (\<exists>n'. index_of d' r = Some n' \<and> n \<le> n')) \<and>
     (\<forall>a\<in>set acts. labelled (index_of d) a)"

lemma index_of_upd [simp]:
  "index_of (d\<lparr>d_connections := conns\<rparr>) = index_of d" "index_of (d\<lparr>d_registry := reg\<rparr>) = index_of d"
  "index_of (d\<lparr>d_storage := s\<rparr>) = index_of d"
  by (simp_all add: index_of_def fun_eq_iff)

lemma labelled_simps [simp]:
  "labelled idx (SendToSession s f)" "labelled idx (BroadcastToRoom r f x)" "labelled idx (CloseConnection s m)"
  "labelled idx (SV_PersistMlsState r st)" "labelled idx (Log l m t)"
  by (simp_all add: labelled_def)

lemma room_effect_quiet:
  "d_room_manager d' = d_room_manager d \<Longrightarrow> lg (d_storage d') = lg (d_storage d) \<Longrightarrow>
     \<forall>a\<in>set acts. labelled (index_of d) a \<Longrightarrow> room_effect lg d d' acts"
  by (auto simp: room_effect_def index_of_def)

lemma labelled_server_action_of [simp]: "labelled idx (server_action_of s a)"
  by (cases a) (simp_all add: server_action_of_def)

lemma labelled_error_response: "a \<in> set (make_error_response cb rd s r e) \<Longrightarrow> labelled idx a"
  by (auto simp: make_error_response_def Let_def split: sum.splits)

lemma labelled_convert:
  "a \<in> set (convert_room_action cb rd s ra) \<Longrightarrow>
     labelled idx a \<or> (\<exists>r i g t. ra = PersistFrame r i g t \<and> a = SV_PersistFrame r i g)"
  by (cases ra) (auto simp: Let_def split: sum.splits)

lemma checked_add_less: "checked_add i 1 = Some j \<Longrightarrow> (i :: u64) \<le> j"
  by (auto simp: checked_add_def word_le_nat_alt unat_word_ariths split: if_splits)

lemma labelled_tick_all: "a \<in> set (snd (tick_all now sids conns)) \<Longrightarrow> labelled idx a"
  by (induction sids arbitrary: conns) (auto simp: split_beta Let_def split: option.splits)

lemma room_action_of_persist:
  "room_action_of now a = PersistFrame r i g t \<Longrightarrow> a = AcceptFrame r i g \<or> a = StoreFrame r i g"
  by (cases a) auto

lemma rm_process_stages:
  assumes "rm_process_frame om ed ops now f rm s = (rm', s', res)"
  obtains (early) "rm_sequencer rm' = rm_sequencer rm" "\<exists>e. res = Inl e"
      "s' = s \<or> (\<exists>y. so_load_mls_state ops (header_room_id (header f)) s = (s', y))"
    | (sequenced) s1 y sres where "so_load_mls_state ops (header_room_id (header f)) s = (s1, y)"
      "seq_process_frame ops f (rm_sequencer rm) s1 = (rm_sequencer rm', s', sres)"
      "\<And>acts. res = Inr acts \<Longrightarrow> \<exists>sqacts rest. sres = Inr sqacts \<and>
         acts = map (room_action_of now) sqacts @ rest \<and> (\<forall>a\<in>set rest. \<exists>r st t. a = PersistMlsState r st t)"
proof (cases "rm_groups rm (header_room_id (header f))")
  case None
  with assms show thesis by (intro early) (auto simp: rm_process_frame_def)
next
  case (Some grp)
  obtain s1 y where load: "so_load_mls_state ops (header_room_id (header f)) s = (s1, y)" by fastforce
  show thesis
  proof (cases y)
    case (Inl e)
    with assms Some load show thesis by (intro early) (auto simp: rm_process_frame_def)
  next
    case y: (Inr st)
    show thesis
    proof (cases "validate_frame_basic om ed f grp st")
      case (Inl e)
      with assms Some load y show thesis by (intro early) (auto simp: rm_process_frame_def)
    next
      case basic: (Inr u)
      obtain sq s2 z where seq: "seq_process_frame ops f (rm_sequencer rm) s1 = (sq, s2, z)"
        by (metis prod.collapse)
      note eqs = assms [unfolded rm_process_frame_def Let_def Some load y basic seq, simplified]
      show thesis
      proof (rule sequenced [OF load])
        show "seq_process_frame ops f (rm_sequencer rm) s1 = (rm_sequencer rm', s', z)"
          using eqs seq basic by (auto simp: split_beta split: sum.splits if_splits)
      next
        fix acts
        assume "res = Inr acts"
        then show "\<exists>sqacts rest. z = Inr sqacts \<and> acts = map (room_action_of now) sqacts @ rest \<and>
            (\<forall>a\<in>set rest. \<exists>r st t. a = PersistMlsState r st t)"
          using eqs basic seq by (auto simp: split_beta split: sum.splits if_splits)
      qed
    qed
  qed
qed

lemma rm_create_sequencer:
  "rm_create_room om env now r u rm = (rm', res) \<Longrightarrow> rm_sequencer rm' = rm_sequencer rm"
  by (auto simp: rm_create_room_def split: sum.splits if_splits)

context storage_contract
begin

lemma seq_process_effect:
  assumes "seq_process_frame ops f sq s = (sq', s', res)"
  shows "log s' = log s \<and> mls s' = mls s \<and>
     (\<forall>r n. seq_rooms sq r = Some n \<longrightarrow>
        (\<exists>n'. seq_rooms sq' r = Some n' \<and> next_log_index n \<le> next_log_index n')) \<and>
     (\<forall>acts r i g. res = Inr acts \<longrightarrow> AcceptFrame r i g \<in> set acts \<or> StoreFrame r i g \<in> set acts \<longrightarrow>
        header_log_index (header g) = i \<and> header_room_id (header g) = r \<and>
        (\<forall>n. seq_rooms sq r = Some n \<longrightarrow> i = next_log_index n))"
proof (cases "validate_frame_structure f = Inr () \<and> opcode_enum (header f) \<noteq> Some Op_Welcome")
  case False
  then show ?thesis
    using assms by (auto simp: seq_process_frame_def Let_def split: sum.splits if_splits)
next
  case True
  let ?r = "header_room_id (header f)"
  obtain sq1 s1 ires where init: "init_room ops ?r sq s = (sq1, s1, ires)" by (metis prod.collapse)
  have keeps: "log s1 = log s \<and> mls s1 = mls s" "\<And>r n. seq_rooms sq r = Some n \<Longrightarrow> seq_rooms sq1 r = Some n"
    using init latest_keeps [of ?r s]
    by (auto simp: init_room_def Let_def split: if_splits prod.splits sum.splits)
  show ?thesis
  proof (cases ires)
    case (Inl e)
    then show ?thesis using assms True init keeps by (auto simp: seq_process_frame_def Let_def)
  next
    case (Inr u)
    let ?i = "next_log_index (the (seq_rooms sq1 ?r))"
    show ?thesis
    proof (cases "checked_add ?i 1")
      case None
      then show ?thesis using assms True init Inr keeps by (auto simp: seq_process_frame_def Let_def)
    next
      case (Some j)
      then have le: "?i \<le> j" by (rule checked_add_less)
      from Some assms True init Inr have run: "sq' = sq1\<lparr>seq_rooms := (seq_rooms sq1)(?r \<mapsto> \<lparr>next_log_index = j\<rparr>)\<rparr>"
        "s' = s1" "res = Inr [AcceptFrame ?r ?i (rebuild_frame_with_index f ?i),
            StoreFrame ?r ?i (rebuild_frame_with_index f ?i), SQ_BroadcastToRoom ?r (rebuild_frame_with_index f ?i)]"
        by (auto simp: seq_process_frame_def Let_def)
      have "\<exists>n'. seq_rooms sq' r = Some n' \<and> next_log_index n \<le> next_log_index n'"
        if "seq_rooms sq r = Some n" for r n
        using keeps(2) [OF that] le run(1) by (cases "r = ?r") auto
      then show ?thesis
        using keeps run(2,3) by auto
    qed
  qed
qed

lemma rm_process_effect:
  assumes "rm_process_frame om ed ops now f rm s = (rm', s', res)"
  shows "log s' = log s \<and>
     (\<forall>r n. seq_rooms (rm_sequencer rm) r = Some n \<longrightarrow>
        (\<exists>n'. seq_rooms (rm_sequencer rm') r = Some n' \<and> next_log_index n \<le> next_log_index n')) \<and>
     (\<forall>acts r i g t. res = Inr acts \<longrightarrow> PersistFrame r i g t \<in> set acts \<longrightarrow>
        header_log_index (header g) = i \<and> header_room_id (header g) = r \<and>
        (\<forall>n. seq_rooms (rm_sequencer rm) r = Some n \<longrightarrow> i = next_log_index n))"
  using assms
proof (cases rule: rm_process_stages)
  case early
  then show ?thesis using load_mls_keeps by fastforce
next
  case (sequenced s1 y sres)
  have "log s1 = log s" using load_mls_keeps [OF sequenced(1)] by simp
  moreover have "header_log_index (header g) = i \<and> header_room_id (header g) = r \<and>
      (\<forall>n. seq_rooms (rm_sequencer rm) r = Some n \<longrightarrow> i = next_log_index n)"
    if res: "res = Inr acts" and mem: "PersistFrame r i g t \<in> set acts" for acts r i g t
  proof -
    obtain sqacts rest where acts: "sres = Inr sqacts" "acts = map (room_action_of now) sqacts @ rest"
        "\<forall>a\<in>set rest. \<exists>r st t. a = PersistMlsState r st t"
      using sequenced(3) [OF res] by blast
    then obtain a where "a \<in> set sqacts" "room_action_of now a = PersistFrame r i g t"
      using mem by fastforce
    then have "AcceptFrame r i g \<in> set sqacts \<or> StoreFrame r i g \<in> set sqacts"
      using room_action_of_persist by fastforce
    with seq_process_effect [OF sequenced(2)] acts(1) show ?thesis by blast
  qed
  ultimately show ?thesis
    using seq_process_effect [OF sequenced(2)] by simp
qed

lemma process_room_frame_effect:
  assumes "sv_storage sv = ops" and "process_room_frame sv rd sid f acts0 d = (d', res)"
    and "\<forall>a\<in>set acts0. labelled (index_of d) a"
  shows "room_effect log d d' (case res of Inl _ \<Rightarrow> [] | Inr acts \<Rightarrow> acts)"
proof -
  obtain rm s r where run: "rm_process_frame (sv_openmls sv) (sv_ed25519 sv) ops (at_room rd) f
      (d_room_manager d) (d_storage d) = (rm, s, r)" by (metis prod.collapse)
  note eff = rm_process_effect [OF run]
  have d': "d' = d\<lparr>d_room_manager := rm, d_storage := s\<rparr>"
    and res: "res = (case r of Inl e \<Rightarrow> Inl (SV_Room e) | Inr ras \<Rightarrow>
        Inr (acts0 @ concat (map (convert_room_action (sv_cbor sv) rd sid) ras)))"
    using assms(1,2) run by (simp_all add: process_room_frame_def)
  have "labelled (index_of d) (SV_PersistFrame q i g)" if "r = Inr ras" "PersistFrame q i g t \<in> set ras" for ras q i g t
  proof -
    have "header_log_index (header g) = i \<and> header_room_id (header g) = q \<and>
        (\<forall>n. seq_rooms (rm_sequencer (d_room_manager d)) q = Some n \<longrightarrow> i = next_log_index n)"
      using eff that by blast
    then show ?thesis
      by (cases "seq_rooms (rm_sequencer (d_room_manager d)) q") (auto simp: labelled_def index_of_def)
  qed
  note persisted = this
  have "labelled (index_of d) a" if "r = Inr ras" "ra \<in> set ras" "a \<in> set (convert_room_action (sv_cbor sv) rd sid ra)"
    for ras ra a
    using labelled_convert [OF that(3), of "index_of d"] persisted that(1,2) by blast
  then have "\<forall>a\<in>set (case res of Inl _ \<Rightarrow> [] | Inr acts \<Rightarrow> acts). labelled (index_of d) a"
    using assms(3) unfolding res by (cases r) auto
  moreover have "\<exists>n'. index_of d' q = Some n' \<and> n \<le> n'" if "index_of d q = Some n" for q n
    using eff that unfolding d' index_of_def by fastforce
  ultimately show ?thesis using eff unfolding room_effect_def d' by auto
qed

lemma sync_request_effect:
  assumes "sv_storage sv = ops" and "handle_sync_request sv rd sid f d = Done (d', acts)"
  shows "room_effect log d d' acts"
proof -
  have keeps: "log s' = log (d_storage d)"
    if "rm_handle_sync_request om ops now r sid i limit rm (d_storage d) = Done (s', z)" for om now r i limit rm s' z
    using that
    by (auto simp: rm_handle_sync_request_def Let_def dest!: load_keeps latest_keeps
        split: option.splits exec.splits sum.splits prod.splits)
  have shown: "labelled idx a" if "a \<in> set (convert_room_action cb rd sid ra)"
      "rm_handle_sync_request om ops now r sid i limit rm s = Done (s', Inr ra)" for idx a cb ra om now r i limit rm s s'
    using that
    by (auto simp: rm_handle_sync_request_def Let_def split: option.splits exec.splits sum.splits prod.splits)
  show ?thesis
  proof (rule room_effect_quiet)
    show "d_room_manager d' = d_room_manager d"
      using assms(2) by (auto simp: handle_sync_request_def Let_def split: sum.splits option.splits exec.splits)
    show "log (d_storage d') = log (d_storage d)"
      using assms keeps by (auto simp: handle_sync_request_def Let_def split: sum.splits option.splits exec.splits)
    show "\<forall>a\<in>set acts. labelled (index_of d) a"
      using assms shown labelled_error_response
      by (auto simp: handle_sync_request_def Let_def split: sum.splits option.splits exec.splits)
  qed
qed

lemma frame_received_effect:
  assumes "sv_storage sv = ops" and "handle_frame_received sv rd sid f d = Done (d', res)"
  shows "room_effect log d d' (case res of Inl _ \<Rightarrow> [] | Inr acts \<Rightarrow> acts)"
proof (cases "d_connections d sid")
  case None
  with assms show ?thesis by (auto simp: handle_frame_received_def intro!: room_effect_quiet)
next
  case (Some c)
  let ?d1 = "d\<lparr>d_connections := (d_connections d)(sid \<mapsto> update_activity (at_event rd) c)\<rparr>"
  have same: "room_effect log (d\<lparr>d_connections := conns\<rparr>) = room_effect log d"
    "room_effect log (d\<lparr>d_connections := conns, d_registry := reg\<rparr>) = room_effect log d" for conns reg
    by (intro ext, simp add: room_effect_def)+
  consider (session) "opcode_enum (header f) \<in> {Some Op_Hello, Some Op_Ping, Some Op_Pong, Some Op_Goodbye}"
    | (sync) "opcode_enum (header f) = Some Op_SyncRequest"
    | (room) "opcode_enum (header f) \<notin> {Some Op_Hello, Some Op_Ping, Some Op_Pong, Some Op_Goodbye,
        Some Op_SyncRequest}" by blast
  then show ?thesis
  proof cases
    case session
    then have "handle_session_frame sv rd sid f c d = (d', res)"
      using assms(2) Some by (auto simp: handle_frame_received_def Let_def)
    then show ?thesis
      by (intro room_effect_quiet)
        (auto simp: handle_session_frame_def Let_def split: prod.splits sum.splits if_splits)
  next
    case sync
    then obtain acts where "handle_sync_request sv rd sid f d = Done (d', acts)" "res = Inr acts"
      using assms Some by (auto simp: handle_frame_received_def Let_def split: exec.splits)
    with sync_request_effect [OF assms(1)] show ?thesis by simp
  next
    case room
    then obtain reg acts0 where
      run: "process_room_frame sv rd sid f acts0 (?d1\<lparr>d_registry := reg\<rparr>) = (d', res)"
      and acts0: "\<forall>a\<in>set acts0. \<forall>idx. labelled idx a"
    proof (cases "opcode_enum (header f) = Some Op_Welcome")
      case True
      then show thesis
        using assms(2) Some that [of _ "fst (subscribe sid (header_room_id (header f)) (d_registry d))"]
        by (simp add: handle_frame_received_def Let_def)
    next
      case False
      then show thesis
        using assms(2) Some room that [of "[]" "d_registry d"] by (simp add: handle_frame_received_def Let_def)
    qed
    from process_room_frame_effect [OF assms(1) run] acts0 show ?thesis by (simp add: same)
  qed
qed

lemma driver_step_effect:
  assumes "sv_storage sv = ops" and "driver_step sv e d = (d', res)"
  shows "room_effect log d d' (case res of Done (Inr acts) \<Rightarrow> acts | _ \<Rightarrow> [])"
proof (cases "(sv, e, d)" rule: driver_step.cases)
  case (1 sv' rd ev d0)
  show ?thesis
  proof (cases ev)
    case (FrameReceived sid f)
    then show ?thesis
      using 1 assms frame_received_effect [OF assms(1), of rd sid f d]
      by (fastforce simp: process_event_def intro: room_effect_quiet split: exec.splits sum.splits)
  qed (use 1 assms labelled_tick_all in \<open>auto intro!: room_effect_quiet simp: process_event_def
      handle_connection_accepted_def handle_connection_closed_def handle_tick_def split_beta Let_def
      split: if_splits option.splits\<close>)
next
  case (2 sv' rd r sid d0)
  have "rm_sequencer (d_room_manager d') = rm_sequencer (d_room_manager d)" "d_storage d' = d_storage d"
    using 2 assms(2)
    by (auto simp: driver_create_room_def Let_def dest!: rm_create_sequencer
        split: option.splits prod.splits sum.splits)
  moreover have "\<forall>a\<in>set (case res of Done (Inr acts) \<Rightarrow> acts | _ \<Rightarrow> []). labelled (index_of d) a"
    using 2 assms(2) by (auto simp: driver_create_room_def Let_def split: option.splits prod.splits sum.splits)
  ultimately show ?thesis by (auto simp: room_effect_def index_of_def)
qed (use assms in \<open>auto intro!: room_effect_quiet simp: subscribe_to_room_def unsubscribe_from_room_def
      split_beta Let_def\<close>)

end

section \<open>Invariants of the interleaved tasks\<close>

text \<open>
  A property of the driver that every call keeps, and that executing an action keeps if the action
  is one a call may ask for, holds under every interleaving of the tasks.
\<close>

locale task_invariant =
  fixes sv :: "('x, 's) services"
    and good :: "('x, 's) server_driver \<Rightarrow> bool"
    and ok :: "server_action \<Rightarrow> bool"
  assumes call_good: "good d \<Longrightarrow> driver_step sv e d = (d', res) \<Longrightarrow> good d'"
    and call_ok: "good d \<Longrightarrow> driver_step sv e d = (d', Done (Inr acts)) \<Longrightarrow> a \<in> set acts \<Longrightarrow> ok a"
    and exec_good: "good d \<Longrightarrow> ok a \<Longrightarrow> good (fst (execute_action sv a d conns))"
begin

lemma execute_good:
  "good d \<Longrightarrow> \<forall>a\<in>set acts. ok a \<Longrightarrow> good (fst (execute_actions sv acts d conns))"
proof (induction acts arbitrary: d conns)
  case (Cons a acts)
  obtain d1 conns1 sent res where act: "execute_action sv a d conns = (d1, conns1, sent, res)"
    by (metis prod.collapse)
  then have "good d1" using exec_good [of d a conns] Cons.prems by simp
  with act Cons show ?case by (auto split: sum.split prod.split) (metis fst_conv)
qed simp

lemma call_and_execute_good:
  assumes "good (w_driver w)"
  shows "good (w_driver (fst (call_and_execute sv rd call w)))"
    and "w_tasks (fst (call_and_execute sv rd call w)) = w_tasks w"
proof -
  obtain d res where call: "driver_step sv (rd, call) (w_driver w) = (d, res)" by fastforce
  then have d: "good d" using call_good [OF assms] by blast
  have "good (fst (execute_actions sv acts d (w_open w)))" if "res = Done (Inr acts)" for acts
    using execute_good [OF d] call_ok [OF assms] call that by blast
  with d call show "good (w_driver (fst (call_and_execute sv rd call w)))"
    by (auto simp: call_and_execute_def split: exec.split sum.split prod.split)
  show "w_tasks (fst (call_and_execute sv rd call w)) = w_tasks w"
    using call by (auto simp: call_and_execute_def split: exec.split sum.split prod.split)
qed

sublocale tasks: preserved_by "world_step sv"
    "\<lambda>w :: ('x, 's) server_world. good (w_driver w) \<and> (\<forall>acts\<in>set (w_tasks w). \<forall>a\<in>set acts. ok a)"
proof unfold_locales
  fix w :: "('x, 's) server_world" and e
  assume inv: "good (w_driver w) \<and> (\<forall>acts\<in>set (w_tasks w). \<forall>a\<in>set acts. ok a)"
  show "good (w_driver (fst (world_step sv e w))) \<and>
      (\<forall>acts\<in>set (w_tasks (fst (world_step sv e w))). \<forall>a\<in>set acts. ok a)"
  proof (cases "(sv, e, w)" rule: world_step.cases)
    case (4 sv' rd sid f w')
    obtain d res where call: "driver_step sv (rd, DC_Event (FrameReceived sid f)) (w_driver w) = (d, res)" by fastforce
    then have "good d" using call_good inv by blast
    moreover have "\<forall>a\<in>set acts. ok a" if "res = Done (Inr acts)" for acts
      using call_ok inv call that by blast
    ultimately show ?thesis
      using 4 inv call by (auto split: exec.split sum.split)
  next
    case (5 sv' rd k w')
    show ?thesis
    proof (cases "k < length (w_tasks w)")
      case True
      then have "good (fst (execute_actions sv (w_tasks w ! k) (w_driver w) (w_open w)))"
        using execute_good [of "w_driver w" "w_tasks w ! k"] inv nth_mem [of k "w_tasks w"] by blast
      with 5 True inv show ?thesis
        by (auto split: prod.split dest: in_set_takeD in_set_dropD)
    qed (use 5 inv in simp)
  qed (use inv call_and_execute_good in auto)
qed

end

text \<open>The production server keeps its log in memory.\<close>

definition in_memory :: "('x, memory_storage) services \<Rightarrow> ('x, memory_storage) services" where
  "in_memory sv = sv\<lparr>sv_storage := memory_ops\<rparr>"

lemma in_memory_storage [simp]: "sv_storage (in_memory sv) = memory_ops"
  by (simp add: in_memory_def)

text \<open>The frames of a stored log carry their room and their position.\<close>

definition numbered :: "u128 \<Rightarrow> frame list \<Rightarrow> bool" where
  "numbered r fs \<longleftrightarrow> (\<forall>k<length fs. header_log_index (header (fs ! k)) = of_nat k \<and> header_room_id (header (fs ! k)) = r)"

text \<open>A room whose next index has left the end of its stored log behind.\<close>

definition overtaken :: "('s \<Rightarrow> u128 \<Rightarrow> frame list) \<Rightarrow> u128 \<Rightarrow> frame list \<Rightarrow> ('x, 's) server_driver \<Rightarrow> bool" where
  "overtaken lg r fs d \<longleftrightarrow> lg (d_storage d) r = fs \<and> (\<exists>n. index_of d r = Some n \<and> length fs < unat n)"

definition beyond :: "u128 \<Rightarrow> nat \<Rightarrow> server_action \<Rightarrow> bool" where
  "beyond r n a \<longleftrightarrow> (case a of SV_PersistFrame q i f \<Rightarrow> q = r \<longrightarrow> n < unat i | _ \<Rightarrow> True)"

context storage_contract
begin

lemma store_mls_log: "log (fst (so_store_mls_state ops r st s)) = log s"
  using store_mls_ok store_mls_err
  by (cases "so_store_mls_state ops r st s"; cases "snd (so_store_mls_state ops r st s)") auto

lemma execute_log:
  assumes "sv_storage sv = ops"
  shows "log (d_storage (fst (execute_action sv a d conns))) =
    (case a of
       SV_PersistFrame r i f \<Rightarrow>
         (case snd (so_store_frame ops r i f (d_storage d)) of
            Inl _ \<Rightarrow> log (d_storage d)
          | Inr _ \<Rightarrow> (log (d_storage d))(r := log (d_storage d) r @ [f]))
     | _ \<Rightarrow> log (d_storage d))"
  using assms store_frame_ok store_frame_err
  by (cases a) (auto simp: store_mls_log Let_def prod_eq_iff split: sum.splits)

lemma stored_at:
  "snd (so_store_frame ops r i f s) = Inr u \<Longrightarrow> i = of_nat (length (log s r))"
  using store_frame_ok by (metis prod.collapse)

lemma numbered_invariant:
  assumes "sv_storage sv = ops"
  shows "task_invariant sv (\<lambda>d. \<forall>r. numbered r (log (d_storage d) r)) (labelled (\<lambda>_. None))"
proof
  show "\<forall>r. numbered r (log (d_storage d') r)"
    if "\<forall>r. numbered r (log (d_storage d) r)" "driver_step sv e d = (d', res)" for d e d' res
    using driver_step_effect [OF assms that(2)] that(1) by (simp add: room_effect_def)
  show "labelled (\<lambda>_. None) a"
    if "driver_step sv e d = (d', Done (Inr acts))" "a \<in> set acts" for d e d' acts a
    using driver_step_effect [OF assms that(1)] that(2)
    by (auto simp: room_effect_def labelled_def split: server_action.splits)
  show "\<forall>r. numbered r (log (d_storage (fst (execute_action sv a d conns))) r)"
    if "\<forall>r. numbered r (log (d_storage d) r)" "labelled (\<lambda>_. None) a" for d a conns
    using that stored_at
    by (fastforce simp: execute_log [OF assms] numbered_def labelled_def nth_append less_Suc_eq
        split: server_action.splits sum.splits)
qed

lemma overtaken_invariant:
  assumes "sv_storage sv = ops"
  shows "task_invariant sv (overtaken log r fs) (beyond r (length fs))"
proof
  show "overtaken log r fs d'" if "overtaken log r fs d" "driver_step sv e d = (d', res)" for d e d' res
    using driver_step_effect [OF assms that(2)] that(1)
    by (fastforce simp: room_effect_def overtaken_def word_le_nat_alt)
  show "beyond r (length fs) a"
    if "overtaken log r fs d" "driver_step sv e d = (d', Done (Inr acts))" "a \<in> set acts" for d e d' acts a
    using driver_step_effect [OF assms that(2)] that(1,3)
    by (fastforce simp: room_effect_def overtaken_def labelled_def beyond_def split: server_action.splits)
  have small: "unat (of_nat n :: u64) \<le> n" for n by (simp add: unat_of_nat)
  show "overtaken log r fs (fst (execute_action sv a d conns))"
    if "overtaken log r fs d" "beyond r (length fs) a" for d a conns
  proof -
    have "index_of (fst (execute_action sv a d conns)) = index_of d"
      by (cases a) (auto simp: index_of_def fun_eq_iff Let_def split: sum.split)
    moreover have "log (d_storage (fst (execute_action sv a d conns))) r = fs"
      using that stored_at small [of "length fs"]
      by (fastforce simp: execute_log [OF assms] overtaken_def beyond_def split: server_action.splits sum.splits)
    ultimately show ?thesis using that(1) by (simp add: overtaken_def)
  qed
qed

end

interpretation numbers: task_invariant "in_memory sv" "\<lambda>d. \<forall>r. numbered r (mem_log (d_storage d) r)"
    "labelled (\<lambda>_. None)" for sv
  by (rule mem.numbered_invariant) simp

interpretation frozen: task_invariant "in_memory sv" "overtaken mem_log r fs" "beyond r (length fs)" for sv r fs
  by (rule mem.overtaken_invariant) simp

section \<open>Serving a room\<close>

text \<open>A driver that serves a room: its group, its validation state and the next index.\<close>

definition serving ::
  "'x mls_group \<Rightarrow> mls_group_state \<Rightarrow> u128 \<Rightarrow> nat \<Rightarrow> ('x, memory_storage) server_driver \<Rightarrow> bool" where
  "serving grp st r n d \<longleftrightarrow>
     rm_groups (d_room_manager d) r = Some grp \<and> mem_mls_states (d_storage d) r = Some st \<and>
     standing (rm_sequencer (d_room_manager d)) (mem_log (d_storage d)) r = of_nat n"

text \<open>A room-level frame of a connected session, in order for the room but for its signature.\<close>

definition submittable ::
  "('x, memory_storage) services \<Rightarrow> 'x mls_group \<Rightarrow> mls_group_state \<Rightarrow> u128 \<Rightarrow>
     ('x, memory_storage) server_driver \<Rightarrow> u64 \<Rightarrow> frame \<Rightarrow> bool" where
  "submittable sv grp st r d sid f \<longleftrightarrow>
     d_connections d sid \<noteq> None \<and> presentable (sv_openmls sv) (sv_ed25519 sv) grp st r f \<and>
     opcode_enum (header f) \<notin> {Some Op_Hello, Some Op_Ping, Some Op_Pong, Some Op_Goodbye, Some Op_SyncRequest}"

definition signed_well :: "('x, memory_storage) services \<Rightarrow> mls_group_state \<Rightarrow> frame \<Rightarrow> bool" where
  "signed_well sv st f \<longleftrightarrow> \<not> needs_signature f \<or> validate_signature (sv_ed25519 sv) f st = Inr Accept"

definition stored_actions :: "u128 \<Rightarrow> nat \<Rightarrow> frame \<Rightarrow> server_action list" where
  "stored_actions r n f =
     (let g = rebuild_frame_with_index f (of_nat n) in
      [SV_PersistFrame r (of_nat n) g, SV_PersistFrame r (of_nat n) g, BroadcastToRoom r g None])"

lemma in_memory_sel [simp]:
  "sv_openmls (in_memory sv) = sv_openmls sv" "sv_ed25519 (in_memory sv) = sv_ed25519 sv"
  "sv_cbor (in_memory sv) = sv_cbor sv"
  by (simp_all add: in_memory_def)

lemma submittable_cong:
  "dom (d_connections d) = dom (d_connections d') \<Longrightarrow>
     submittable sv grp st r d sid f = submittable sv grp st r d' sid f"
  unfolding submittable_def domIff [symmetric] by simp

lemma submittable_routed:
  assumes "submittable sv grp st r d sid f"
  obtains c where "d_connections d sid = Some c"
    "handle_frame_received (in_memory sv) rd sid f d = Done (process_room_frame (in_memory sv) rd sid f []
       (d\<lparr>d_connections := (d_connections d)(sid \<mapsto> update_activity (at_event rd) c)\<rparr>))"
  using assms
  by (cases "d_connections d sid")
    (auto simp: submittable_def presentable_def sequenced_in_def handle_frame_received_def Let_def)

lemma good_frame_step:
  assumes "serving grp st r n (w_driver w)" and "submittable sv grp st r (w_driver w) sid f"
    and "signed_well sv st f" and "n + 1 < 2 ^ 64"
  shows "\<exists>d'. world_step (in_memory sv) (rd, WE_Frame sid f) w =
       (w\<lparr>w_driver := d', w_tasks := w_tasks w @ [stored_actions r n f]\<rparr>, []) \<and>
     serving grp st r (Suc n) d' \<and> index_of d' r = Some (of_nat (Suc n)) \<and>
     mem_log (d_storage d') = mem_log (d_storage (w_driver w)) \<and>
     dom (d_connections d') = dom (d_connections (w_driver w)) \<and> d_registry d' = d_registry (w_driver w)"
proof -
  let ?d = "w_driver w"
  obtain c where c: "d_connections ?d sid = Some c"
    and route: "handle_frame_received (in_memory sv) rd sid f ?d = Done (process_room_frame (in_memory sv) rd sid f []
       (?d\<lparr>d_connections := (d_connections ?d)(sid \<mapsto> update_activity (at_event rd) c)\<rparr>))"
    using submittable_routed [OF assms(2)] by blast
  have i: "(of_nat n :: u64) \<noteq> - 1" using assms(4) of_nat_u64_not_max [of n] by auto
  have sv: "rm_groups (d_room_manager ?d) r = Some grp" "mem_mls_states (d_storage ?d) r = Some st"
      "standing (rm_sequencer (d_room_manager ?d)) (mem_log (d_storage ?d)) r = of_nat n"
    using assms(1) by (simp_all add: serving_def)
  obtain rm' s' where run: "rm_process_frame (sv_openmls sv) (sv_ed25519 sv) memory_ops (at_room rd) f
        (d_room_manager ?d) (d_storage ?d) = (rm', s', Inr
         [PersistFrame r (of_nat n) (rebuild_frame_with_index f (of_nat n)) (at_room rd),
          PersistFrame r (of_nat n) (rebuild_frame_with_index f (of_nat n)) (at_room rd),
          Broadcast r (rebuild_frame_with_index f (of_nat n)) False (at_room rd)])"
      "rm_groups rm' = rm_groups (d_room_manager ?d)"
      "seq_rooms (rm_sequencer rm') =
         (seq_rooms (rm_sequencer (d_room_manager ?d)))(r \<mapsto> \<lparr>next_log_index = of_nat n + 1\<rparr>)"
      "mem_log s' = mem_log (d_storage ?d)" "mem_mls_states s' = mem_mls_states (d_storage ?d)"
    using mem.rm_process_passes [OF sv(1) _ _ sv(3) i, of "sv_openmls sv" "sv_ed25519 sv" f "at_room rd"]
      sv(2) assms(2,3) unfolding submittable_def presentable_def signed_well_def by auto
  have "insert sid (dom (d_connections ?d)) = dom (d_connections ?d)" using c by auto
  then show ?thesis
    using run route sv
    by (intro exI [of _ "?d\<lparr>d_connections := (d_connections ?d)(sid \<mapsto> update_activity (at_event rd) c),
          d_room_manager := rm', d_storage := s'\<rparr>"])
      (simp add: process_event_def process_room_frame_def stored_actions_def serving_def index_of_def
        standing_def add.commute Let_def)
qed

lemma bad_frame_step:
  assumes "serving grp st r n (w_driver w)" and "submittable sv grp st r (w_driver w) sid f"
    and "\<not> signed_well sv st f" and "n + 1 < 2 ^ 64"
  shows "\<exists>d'. world_step (in_memory sv) (rd, WE_Frame sid f) w = (w\<lparr>w_driver := d'\<rparr>, []) \<and>
     index_of d' r = Some (of_nat (Suc n)) \<and> mem_log (d_storage d') = mem_log (d_storage (w_driver w))"
proof -
  let ?d = "w_driver w"
  obtain c where route: "handle_frame_received (in_memory sv) rd sid f ?d = Done (process_room_frame (in_memory sv) rd sid f []
       (?d\<lparr>d_connections := (d_connections ?d)(sid \<mapsto> update_activity (at_event rd) c)\<rparr>))"
    using submittable_routed [OF assms(2)] by blast
  have i: "(of_nat n :: u64) \<noteq> - 1" using assms(4) of_nat_u64_not_max [of n] by auto
  have sv: "rm_groups (d_room_manager ?d) r = Some grp" "mem_mls_states (d_storage ?d) r = Some st"
      "standing (rm_sequencer (d_room_manager ?d)) (mem_log (d_storage ?d)) r = of_nat n"
    using assms(1) by (simp_all add: serving_def)
  obtain rm' s' e where run: "rm_process_frame (sv_openmls sv) (sv_ed25519 sv) memory_ops (at_room rd) f
        (d_room_manager ?d) (d_storage ?d) = (rm', s', Inl (RE_MlsValidation e))"
      "seq_rooms (rm_sequencer rm') =
         (seq_rooms (rm_sequencer (d_room_manager ?d)))(r \<mapsto> \<lparr>next_log_index = of_nat n + 1\<rparr>)"
      "mem_log s' = mem_log (d_storage ?d)"
    using mem.rm_process_bad_signature [OF sv(1) _ _ sv(3) i, of "sv_openmls sv" "sv_ed25519 sv" f st "at_room rd"]
      sv(2) assms(2,3) unfolding submittable_def presentable_def signed_well_def by auto
  then show ?thesis
    using route by (auto simp: process_event_def process_room_frame_def index_of_def add.commute)
qed

lemma of_nat_u64_inj: "a < 2 ^ 64 \<Longrightarrow> b < 2 ^ 64 \<Longrightarrow> (of_nat a :: u64) = of_nat b \<longleftrightarrow> a = b"
  by (simp add: word_unat_eq_iff unat_of_nat)

text \<open>Executing the actions of an accepted frame stores it if its index is the end of the log.\<close>

lemma execute_stored_actions:
  assumes "n < 2 ^ 64" and "length (mem_log (d_storage d) r) + 1 < 2 ^ 64"
  shows "\<exists>s conns' sent res. execute_actions (in_memory sv) (stored_actions r n f) d conns =
       (d\<lparr>d_storage := s\<rparr>, conns', sent, res) \<and> mem_mls_states s = mem_mls_states (d_storage d) \<and>
     mem_log s = (if n = length (mem_log (d_storage d) r)
       then (mem_log (d_storage d))(r := mem_log (d_storage d) r @ [rebuild_frame_with_index f (of_nat n)])
       else mem_log (d_storage d))"
proof -
  have eq: "(of_nat n :: u64) = of_nat (length (mem_log (d_storage d) r)) \<longleftrightarrow> n = length (mem_log (d_storage d) r)"
    using assms by (simp add: of_nat_u64_inj)
  show ?thesis
    using eq
    by (cases "encode (rebuild_frame_with_index f (of_nat n)) []")
      (auto simp: stored_actions_def memory_store_eq Let_def fun_upd_idem)
qed

text \<open>Its broadcast reaches every subscribed session with an open connection.\<close>

definition deliveries_of :: "('x, 's) services \<Rightarrow> ('x, 's) server_world \<Rightarrow> u128 \<Rightarrow> frame \<Rightarrow> deliveries" where
  "deliveries_of sv w r g =
     map (\<lambda>sid. (sid, wire g))
       (filter (\<lambda>sid. sid \<in> w_open w) (hash_order sv (driver_sessions_in_room (w_driver w) r)))"

lemma execute_stored_deliveries:
  assumes "wf_frame (rebuild_frame_with_index f (of_nat n))"
    and "execute_actions (in_memory sv) (stored_actions r n f) d conns = (d', conns', sent, res)"
  shows "conns' = conns" and "sent = map (\<lambda>sid. (sid, wire (rebuild_frame_with_index f (of_nat n))))
     (filter (\<lambda>sid. sid \<in> conns) (hash_order sv (driver_sessions_in_room d r)))"
  using assms(2) encode_wf [OF assms(1), of "[]"]
  by (auto simp: stored_actions_def driver_sessions_in_room_def in_memory_def Let_def)

lemma submitted_frame_wf:
  assumes "submittable sv grp st r d sid f" and "length (payload f) \<le> unat MAX_PAYLOAD_SIZE"
  shows "wf_frame f" and "wf_frame (rebuild_frame_with_index f i)"
proof -
  have f: "wf_header (header f)" "header_magic (header f) = MAGIC" "header_version (header f) = VERSION"
      "length (payload f) = unat (header_payload_size (header f))"
    using assms(1)
    by (auto simp: submittable_def presentable_def sequenced_in_def validate_frame_structure_def split: if_splits)
  then show "wf_frame f"
    using assms(2) by (simp add: wf_frame_def valid_header_def word_le_nat_alt)
  show "wf_frame (rebuild_frame_with_index f i)"
    unfolding rebuild_frame_with_index_def using f assms(2) by (intro wf_frame_new) simp_all
qed

lemma frame_stored_and_delivered:
  assumes "serving grp st r n (w_driver w)" and "n = length (mem_log (d_storage (w_driver w)) r)"
    and "w_tasks w = []" and "n + 1 < 2 ^ 64"
    and "submittable sv grp st r (w_driver w) sid f" and "signed_well sv st f"
    and "length (payload f) \<le> unat MAX_PAYLOAD_SIZE"
  shows "mem_log (d_storage (w_driver (run_events (world_step (in_memory sv))
       [(rd, WE_Frame sid f), (rd, WE_Execute 0)] w))) r =
     mem_log (d_storage (w_driver w)) r @ [rebuild_frame_with_index f (of_nat n)]"
    and "concat (run_outputs (world_step (in_memory sv)) [(rd, WE_Frame sid f), (rd, WE_Execute 0)] w) =
     deliveries_of sv w r (rebuild_frame_with_index f (of_nat n))"
proof -
  let ?g = "rebuild_frame_with_index f (of_nat n)"
  obtain d1 where 1: "world_step (in_memory sv) (rd, WE_Frame sid f) w =
       (w\<lparr>w_driver := d1, w_tasks := [stored_actions r n f]\<rparr>, [])"
      "mem_log (d_storage d1) = mem_log (d_storage (w_driver w))" "d_registry d1 = d_registry (w_driver w)"
    using good_frame_step [OF assms(1,5,6,4), of rd] assms(3) by auto
  obtain s conns sent res where 2: "execute_actions (in_memory sv) (stored_actions r n f) d1 (w_open w) =
       (d1\<lparr>d_storage := s\<rparr>, conns, sent, res)"
      "mem_log s r = mem_log (d_storage (w_driver w)) r @ [?g]"
    using execute_stored_actions [of n d1 r sv f "w_open w"] 1(2) assms(2,4) by auto
  have "sent = deliveries_of sv w r ?g"
    using execute_stored_deliveries(2) [OF submitted_frame_wf(2) [OF assms(5,7)] 2(1)] 1(3)
    by (simp add: deliveries_of_def driver_sessions_in_room_def)
  with 1(1) 2 show "mem_log (d_storage (w_driver (run_events (world_step (in_memory sv))
       [(rd, WE_Frame sid f), (rd, WE_Execute 0)] w))) r = mem_log (d_storage (w_driver w)) r @ [?g]"
    "concat (run_outputs (world_step (in_memory sv)) [(rd, WE_Frame sid f), (rd, WE_Execute 0)] w) =
     deliveries_of sv w r ?g"
    by simp_all
qed

subsection \<open>A small server\<close>

definition sample_services :: "(nat, memory_storage) services" where
  "sample_services =
     \<lparr>sv_cbor = sample_cbor, sv_openmls = sample_openmls, sv_ed25519 = sample_ed25519,
      sv_storage = memory_ops, sv_env = 0, hash_order = sorted_list_of_set\<rparr>"

definition sample_world :: "(nat, memory_storage) server_world" where
  "sample_world =
     \<lparr>w_driver = \<lparr>d_connections = [7 \<mapsto> connection_new 0 connection_config_default], d_registry = registry_new,
        d_room_manager = sample_manager, d_storage = sample_storage, d_config = server_config_default\<rparr>,
      w_open = {7}, w_tasks = []\<rparr>"

definition sample_readings :: readings where
  "sample_readings = \<lparr>at_event = 0, at_room = 0, at_reply = 0\<rparr>"

lemma sample_serving:
  "serving sample_group sample_state 9 0 (w_driver sample_world)" "w_tasks sample_world = []"
  "mem_log (d_storage (w_driver sample_world)) 9 = []"
  by (simp_all add: serving_def sample_world_def standing_def sequencer_new_def)

lemma sample_submitted:
  "submittable sample_services sample_group sample_state 9 (w_driver sample_world) 7
     (sample_signed (sample_member_header Op_AppMessage))"
  "signed_well sample_services sample_state (sample_signed (sample_member_header Op_AppMessage))"
  by (simp_all add: submittable_def signed_well_def sample_message sample_services_def sample_world_def)
    (simp add: sample_signed_def)

lemma sample_bad_submitted:
  "submittable sample_services sample_group sample_state 9 (w_driver sample_world) 7
     \<lparr>header = sample_member_header Op_AppMessage, payload = []\<rparr>"
  "\<not> signed_well sample_services sample_state \<lparr>header = sample_member_header Op_AppMessage, payload = []\<rparr>"
proof -
  have "presentable sample_openmls sample_ed25519 sample_group sample_state 9
      \<lparr>header = sample_member_header Op_AppMessage, payload = []\<rparr>"
    by (rule sample_presentable) simp_all
  then show "submittable sample_services sample_group sample_state 9 (w_driver sample_world) 7
     \<lparr>header = sample_member_header Op_AppMessage, payload = []\<rparr>"
    by (simp add: submittable_def sample_services_def sample_world_def)
  show "\<not> signed_well sample_services sample_state \<lparr>header = sample_member_header Op_AppMessage, payload = []\<rparr>"
    using sample_unsigned by (simp add: signed_well_def sample_services_def needs_signature_def)
qed

section \<open>Properties\<close>

text \<open>
  C4. Stored logs are numbered: whatever connections, frames and calls arrive, in whatever order the
  tasks of the server are interleaved, the frame at every position of a room's stored log was
  addressed to that room and carries that position as its log index.
\<close>

theorem log_numbered_under_interleaving:
  fixes sv :: "('x, memory_storage) services"
  shows "numbered r (mem_log (d_storage (w_driver
     (run_events (world_step (in_memory sv)) es (world_new memory_new cfg)))) r)"
proof -
  have "\<forall>r. numbered r (mem_log (d_storage (w_driver (world_new memory_new cfg :: ('x, memory_storage) server_world))) r)"
    by (simp add: world_new_def driver_new_def memory_new_def mem_log_def numbered_def)
  then show ?thesis
    using numbers.tasks.run_inv [of "world_new memory_new cfg" sv es] by (simp add: world_new_def)
qed

text \<open>
  C6. Frames processed one after the other are all stored: if every task executes its actions before
  the next frame is processed, then well-signed frames in order for a room end up in its stored log,
  all of them, in the order of submission, numbered consecutively.
\<close>

theorem sequential_frames_stored:
  assumes "serving grp st r n (w_driver w)" and "n = length (mem_log (d_storage (w_driver w)) r)"
    and "w_tasks w = []" and "n + length subs < 2 ^ 64 - 1"
    and "\<forall>(sid, f)\<in>set subs. submittable sv grp st r (w_driver w) sid f \<and> signed_well sv st f"
  shows "mem_log (d_storage (w_driver (run_events (world_step (in_memory sv))
       (concat (map (\<lambda>(sid, f). [(rd, WE_Frame sid f), (rd, WE_Execute 0)]) subs)) w))) r =
     mem_log (d_storage (w_driver w)) r @ map snd (number_from n (map snd subs))"
  using assms
proof (induction subs arbitrary: w n)
  case (Cons sub subs)
  obtain sid f where sub: "sub = (sid, f)" by fastforce
  obtain d1 where 1: "world_step (in_memory sv) (rd, WE_Frame sid f) w =
       (w\<lparr>w_driver := d1, w_tasks := w_tasks w @ [stored_actions r n f]\<rparr>, [])"
      "serving grp st r (Suc n) d1" "index_of d1 r = Some (of_nat (Suc n))"
      "mem_log (d_storage d1) = mem_log (d_storage (w_driver w))"
      "dom (d_connections d1) = dom (d_connections (w_driver w))"
    using good_frame_step [OF Cons.prems(1), of sv sid f rd] Cons.prems(4,5) sub by auto
  obtain s conns sent res where 2: "execute_actions (in_memory sv) (stored_actions r n f) d1 (w_open w) =
       (d1\<lparr>d_storage := s\<rparr>, conns, sent, res)" "mem_mls_states s = mem_mls_states (d_storage d1)"
      "mem_log s r = mem_log (d_storage (w_driver w)) r @ [rebuild_frame_with_index f (of_nat n)]"
    using execute_stored_actions [of n d1 r sv f "w_open w"] 1(4) Cons.prems(2,4) by auto
  let ?w = "\<lparr>w_driver = d1\<lparr>d_storage := s\<rparr>, w_open = conns, w_tasks = []\<rparr>"
  have step: "run_events (world_step (in_memory sv)) [(rd, WE_Frame sid f), (rd, WE_Execute 0)] w = ?w"
    using 1(1) 2(1) Cons.prems(3) by simp
  have "serving grp st r (Suc n) (w_driver ?w)"
    using 1(2,3) 2(2) by (auto simp: serving_def standing_def index_of_def)
  moreover have "submittable sv grp st r (w_driver ?w) q g = submittable sv grp st r (w_driver w) q g" for q g
    by (rule submittable_cong) (simp add: 1(5))
  ultimately show ?case
    using Cons.IH [of "Suc n" ?w] Cons.prems 2(3) step sub by simp
qed simp

theorem sequential_frames_stored_witness:
  "let f = sample_signed (sample_member_header Op_AppMessage); rd = sample_readings in
   mem_log (d_storage (w_driver (run_events (world_step (in_memory sample_services))
     [(rd, WE_Frame 7 f), (rd, WE_Execute 0), (rd, WE_Frame 7 f), (rd, WE_Execute 0)] sample_world))) 9 =
   [rebuild_frame_with_index f 0, rebuild_frame_with_index f 1]"
  using sequential_frames_stored [OF sample_serving(1), of "[(7, sample_signed (sample_member_header Op_AppMessage)),
      (7, sample_signed (sample_member_header Op_AppMessage))]" sample_services sample_readings]
  by (simp del: world_step.simps run_events_simps add: sample_serving sample_submitted Let_def)

text \<open>
  C28. One badly signed frame freezes a room: after any connected session has submitted a frame that is in
  order for the room but for its signature, no frame is ever stored in the room's log again,
  whatever happens afterwards and however tasks are interleaved.
\<close>

theorem bad_signature_freezes_log:
  assumes "serving grp st r n (w_driver w)" and "length (mem_log (d_storage (w_driver w)) r) \<le> n"
    and "w_tasks w = []" and "n + 1 < 2 ^ 64"
    and "submittable sv grp st r (w_driver w) sid f" and "\<not> signed_well sv st f"
  shows "mem_log (d_storage (w_driver (run_events (world_step (in_memory sv)) ((rd, WE_Frame sid f) # es) w))) r =
     mem_log (d_storage (w_driver w)) r"
proof -
  obtain d' where step: "world_step (in_memory sv) (rd, WE_Frame sid f) w = (w\<lparr>w_driver := d'\<rparr>, [])"
      "index_of d' r = Some (of_nat (Suc n))" "mem_log (d_storage d') = mem_log (d_storage (w_driver w))"
    using bad_frame_step [OF assms(1,5,6,4)] by blast
  have "unat (of_nat (Suc n) :: u64) = Suc n" using assms(4) by (subst unat_of_nat) simp
  then have "overtaken mem_log r (mem_log (d_storage (w_driver w)) r) d'"
    using step(2,3) assms(2) by (simp add: overtaken_def)
  with frozen.tasks.run_inv [of r "mem_log (d_storage (w_driver w)) r" "w\<lparr>w_driver := d'\<rparr>" sv es] step(1) assms(3)
  show ?thesis by (simp add: overtaken_def)
qed

theorem bad_signature_freezes_log_witness:
  "let f = \<lparr>header = sample_member_header Op_AppMessage, payload = []\<rparr>;
       g = sample_signed (sample_member_header Op_AppMessage); rd = sample_readings in
   mem_log (d_storage (w_driver (run_events (world_step (in_memory sample_services))
     [(rd, WE_Frame 7 f), (rd, WE_Frame 7 g), (rd, WE_Execute 0)] sample_world))) 9 = []"
  using bad_signature_freezes_log [OF sample_serving(1) _ _ _ sample_bad_submitted, of sample_readings
      "[(sample_readings, WE_Frame 7 (sample_signed (sample_member_header Op_AppMessage))),
        (sample_readings, WE_Execute 0)]"]
  by (simp del: world_step.simps run_events_simps add: sample_serving Let_def)

text \<open>
  C27. Two locks lose frames: a stream task releases the driver's lock between processing a frame and
  executing its actions. If two good frames are processed in one order and their actions executed
  in the other, the first is stored, the second is not, and nothing is ever stored in that room's
  log again.
\<close>

theorem interleaved_frame_lost:
  assumes "serving grp st r n (w_driver w)" and "n = length (mem_log (d_storage (w_driver w)) r)"
    and "w_tasks w = []" and "n + 2 < 2 ^ 64"
    and "submittable sv grp st r (w_driver w) sid f" and "signed_well sv st f"
    and "submittable sv grp st r (w_driver w) sid' g" and "signed_well sv st g"
  shows "mem_log (d_storage (w_driver (run_events (world_step (in_memory sv))
       ([(rd, WE_Frame sid f), (rd, WE_Frame sid' g), (rd, WE_Execute 1), (rd, WE_Execute 0)] @ es) w))) r =
     mem_log (d_storage (w_driver w)) r @ [rebuild_frame_with_index f (of_nat n)]"
proof -
  let ?log = "mem_log (d_storage (w_driver w)) r"
  let ?fs = "?log @ [rebuild_frame_with_index f (of_nat n)]"
  obtain d1 where 1: "world_step (in_memory sv) (rd, WE_Frame sid f) w =
       (w\<lparr>w_driver := d1, w_tasks := [stored_actions r n f]\<rparr>, [])" "serving grp st r (Suc n) d1"
      "mem_log (d_storage d1) = mem_log (d_storage (w_driver w))"
      "dom (d_connections d1) = dom (d_connections (w_driver w))"
    using good_frame_step [OF assms(1,5,6), of rd] assms(3,4) by auto
  have "submittable sv grp st r d1 sid' g"
    using assms(7) submittable_cong [OF 1(4)] by blast
  then obtain d2 where 2: "world_step (in_memory sv) (rd, WE_Frame sid' g) (w\<lparr>w_driver := d1, w_tasks := [stored_actions r n f]\<rparr>) =
       (w\<lparr>w_driver := d2, w_tasks := [stored_actions r n f, stored_actions r (Suc n) g]\<rparr>, [])"
      "index_of d2 r = Some (of_nat (Suc (Suc n)))" "mem_log (d_storage d2) = mem_log (d_storage (w_driver w))"
    using good_frame_step [of grp st r "Suc n" "w\<lparr>w_driver := d1, w_tasks := [stored_actions r n f]\<rparr>" sv sid' g rd]
      1(2,3) assms(4,8) by auto
  obtain s3 c3 sent3 res3 where 3: "execute_actions (in_memory sv) (stored_actions r (Suc n) g) d2 (w_open w) =
       (d2\<lparr>d_storage := s3\<rparr>, c3, sent3, res3)" "mem_log s3 r = ?log"
    using execute_stored_actions [of "Suc n" d2 r sv g "w_open w"] 2(3) assms(2,4) by auto
  obtain s4 c4 sent4 res4 where 4: "execute_actions (in_memory sv) (stored_actions r n f) (d2\<lparr>d_storage := s3\<rparr>) c3 =
       (d2\<lparr>d_storage := s4\<rparr>, c4, sent4, res4)" "mem_log s4 r = ?fs"
    using execute_stored_actions [of n "d2\<lparr>d_storage := s3\<rparr>" r sv f c3] 3(2) assms(2,4) by auto
  let ?w = "\<lparr>w_driver = d2\<lparr>d_storage := s4\<rparr>, w_open = c4, w_tasks = []\<rparr>"
  have run: "run_events (world_step (in_memory sv))
      [(rd, WE_Frame sid f), (rd, WE_Frame sid' g), (rd, WE_Execute 1), (rd, WE_Execute 0)] w = ?w"
    using 1(1) 2(1) 3(1) 4(1) by simp
  have "unat (of_nat (Suc (Suc n)) :: u64) = Suc (Suc n)" using assms(4) by (subst unat_of_nat) simp
  then have "overtaken mem_log r ?fs (w_driver ?w)"
    using 2(2) 4(2) assms(2) by (simp add: overtaken_def)
  with frozen.tasks.run_inv [of r ?fs ?w sv es] run show ?thesis by (simp add: overtaken_def)
qed

theorem interleaved_frame_lost_witness:
  "let f = sample_signed (sample_member_header Op_AppMessage);
       rd = sample_readings in
   mem_log (d_storage (w_driver (run_events (world_step (in_memory sample_services))
     [(rd, WE_Frame 7 f), (rd, WE_Frame 7 f), (rd, WE_Execute 1), (rd, WE_Execute 0), (rd, WE_Frame 7 f),
      (rd, WE_Execute 0)] sample_world))) 9 = [rebuild_frame_with_index f 0]"
  using interleaved_frame_lost [OF sample_serving(1) _ _ _ sample_submitted sample_submitted, of sample_readings
      "[(sample_readings, WE_Frame 7 (sample_signed (sample_member_header Op_AppMessage))),
        (sample_readings, WE_Execute 0)]"]
  by (simp del: world_step.simps run_events_simps add: sample_serving Let_def)

text \<open>
  The read loop of a stream recovers the frames: the bytes of any number of encoded frames, followed
  by anything, are read as exactly those frames before the rest is looked at.
\<close>

lemma stream_framing:
  assumes "\<forall>f\<in>set fs. wf_frame f" and "encode_all fs = Done bufs"
  shows "read_stream (concat bufs @ rest) = fs @ read_stream rest"
proof -
  have bufs: "bufs = map wire fs" using assms encode_all_wf by simp
  have "read_frame (wire f @ more) = Some (f, more)" if "wf_frame f" for f more
    using read_frame_wire that .
  then have "read_stream (concat (map wire fs) @ rest) = fs @ read_stream rest"
    using assms(1) by (induction fs) (simp_all del: read_stream.simps add: read_stream.simps [of "wire _ @ _"])
  then show ?thesis by (simp add: bufs)
qed

end
