(* ===== verification/Reference_Model.thy ===== *)
theory Reference_Model
  imports Lockframe_Prelude
begin

text \<open>
  The reference model of the model-based tests (\<^verbatim>\<open>lockframe-harness/src/model\<close>): operations and their
  results (\<^verbatim>\<open>operation.rs\<close>), the model client (\<^verbatim>\<open>client.rs\<close>), the model server (\<^verbatim>\<open>server.rs\<close>) and the
  world that applies operations to both (\<^verbatim>\<open>world.rs\<close>). The order in which a hash set is iterated is
  the argument \<open>order\<close>. The bound on pending deliveries is a debug assertion and absent from release builds.
  The lemmas show what the tests sample: clients and server agree on membership and the log of every
  room is numbered without gaps.
\<close>

section \<open>Operations\<close>

type_synonym client_id = u8
type_synonym model_room_id = u8

record small_message =
  sm_seed :: u8
  sm_size_class :: u8

definition small_message_bytes :: "small_message \<Rightarrow> bytes" where
  "small_message_bytes m =
     (let c = unat (sm_size_class m) mod 4;
          len = (if c = 0 then 0 else if c = 1 then 8 else if c = 2 then 64 else 256)
      in map (\<lambda>i. sm_seed m + of_nat i) [0..<len])"

datatype operation =
    MO_CreateRoom client_id model_room_id
  | MO_SendMessage client_id model_room_id small_message
  | MO_LeaveRoom client_id model_room_id
  | MO_AddMember client_id client_id model_room_id
  | MO_RemoveMember client_id client_id model_room_id
  | MO_AdvanceTime u16
  | MO_DeliverPending

datatype operation_error =
    OE_RoomAlreadyExists
  | OE_RoomNotFound
  | OE_NotMember
  | OE_InvalidClient
  | OE_AlreadyMember
  | OE_CannotRemoveSelf
  | OE_EpochMismatch u64 u64

datatype operation_result = OR_Ok | OR_Error operation_error

record error_properties =
  ep_is_fatal :: bool
  ep_is_retryable :: bool

fun properties :: "operation_error \<Rightarrow> error_properties" where
  "properties OE_InvalidClient = \<lparr>ep_is_fatal = True, ep_is_retryable = False\<rparr>"
| "properties OE_NotMember = \<lparr>ep_is_fatal = True, ep_is_retryable = False\<rparr>"
| "properties OE_CannotRemoveSelf = \<lparr>ep_is_fatal = True, ep_is_retryable = False\<rparr>"
| "properties OE_RoomNotFound = \<lparr>ep_is_fatal = False, ep_is_retryable = False\<rparr>"
| "properties OE_RoomAlreadyExists = \<lparr>ep_is_fatal = False, ep_is_retryable = False\<rparr>"
| "properties OE_AlreadyMember = \<lparr>ep_is_fatal = False, ep_is_retryable = False\<rparr>"
| "properties (OE_EpochMismatch _ _) = \<lparr>ep_is_fatal = False, ep_is_retryable = True\<rparr>"

definition result_is_ok :: "operation_result \<Rightarrow> bool" where
  "result_is_ok r \<longleftrightarrow> r = OR_Ok"

definition result_is_err :: "operation_result \<Rightarrow> bool" where
  "result_is_err r \<longleftrightarrow> \<not> result_is_ok r"

fun error_properties_of :: "operation_result \<Rightarrow> error_properties option" where
  "error_properties_of OR_Ok = None"
| "error_properties_of (OR_Error e) = Some (properties e)"

section \<open>The model client\<close>

record model_message =
  mm_sender_id :: client_id
  mm_content :: bytes
  mm_log_index :: u64
  mm_epoch :: u64

record model_room_state =
  mr_epoch :: u64
  mr_messages :: "model_message list"
  mr_next_send_index :: u64

definition model_room_new :: model_room_state where
  "model_room_new = \<lparr>mr_epoch = 0, mr_messages = [], mr_next_send_index = 0\<rparr>"

record model_client =
  mc_id :: client_id
  mc_rooms :: "model_room_id \<rightharpoonup> model_room_state"

definition mc_new :: "client_id \<Rightarrow> model_client" where
  "mc_new i = \<lparr>mc_id = i, mc_rooms = Map.empty\<rparr>"

definition mc_is_member :: "model_client \<Rightarrow> model_room_id \<Rightarrow> bool" where
  "mc_is_member c r \<longleftrightarrow> mc_rooms c r \<noteq> None"

definition mc_epoch :: "model_client \<Rightarrow> model_room_id \<Rightarrow> u64 option" where
  "mc_epoch c r = map_option mr_epoch (mc_rooms c r)"

definition mc_room_ids :: "model_client \<Rightarrow> model_room_id set" where
  "mc_room_ids c = dom (mc_rooms c)"

definition mc_messages :: "model_client \<Rightarrow> model_room_id \<Rightarrow> model_message list option" where
  "mc_messages c r = map_option mr_messages (mc_rooms c r)"

definition mc_create_room :: "model_room_id \<Rightarrow> model_client \<Rightarrow> model_client \<times> operation_result" where
  "mc_create_room r c =
     (if mc_rooms c r \<noteq> None then (c, OR_Error OE_RoomAlreadyExists)
      else (c\<lparr>mc_rooms := (mc_rooms c)(r \<mapsto> model_room_new)\<rparr>, OR_Ok))"

definition mc_leave_room :: "model_room_id \<Rightarrow> model_client \<Rightarrow> model_client \<times> operation_result" where
  "mc_leave_room r c =
     (c\<lparr>mc_rooms := (mc_rooms c)(r := None)\<rparr>,
      if mc_rooms c r = None then OR_Error OE_NotMember else OR_Ok)"

definition mc_send_message :: "model_room_id \<Rightarrow> model_client \<Rightarrow> model_client \<times> (operation_error + u64)" where
  "mc_send_message r c =
     (case mc_rooms c r of
        None \<Rightarrow> (c, Inl OE_NotMember)
      | Some room \<Rightarrow>
          (c\<lparr>mc_rooms := (mc_rooms c)(r \<mapsto> room\<lparr>mr_next_send_index := mr_next_send_index room + 1\<rparr>)\<rparr>,
           Inr (mr_next_send_index room)))"

definition mc_receive_message :: "model_room_id \<Rightarrow> model_message \<Rightarrow> model_client \<Rightarrow> model_client" where
  "mc_receive_message r m c =
     (case mc_rooms c r of
        None \<Rightarrow> c
      | Some room \<Rightarrow> c\<lparr>mc_rooms := (mc_rooms c)(r \<mapsto> room\<lparr>mr_messages := mr_messages room @ [m]\<rparr>)\<rparr>)"

definition mc_join_room :: "model_room_id \<Rightarrow> model_client \<Rightarrow> model_client \<times> operation_result" where
  "mc_join_room r c =
     (if mc_rooms c r \<noteq> None then (c, OR_Error OE_RoomAlreadyExists)
      else (c\<lparr>mc_rooms := (mc_rooms c)(r \<mapsto> model_room_new)\<rparr>, OR_Ok))"

definition mc_join_room_at_epoch :: "model_room_id \<Rightarrow> u64 \<Rightarrow> model_client \<Rightarrow> model_client \<times> operation_result" where
  "mc_join_room_at_epoch r e c =
     (if mc_rooms c r \<noteq> None then (c, OR_Error OE_RoomAlreadyExists)
      else (c\<lparr>mc_rooms := (mc_rooms c)(r \<mapsto> model_room_new\<lparr>mr_epoch := e\<rparr>)\<rparr>, OR_Ok))"

definition mc_advance_epoch :: "model_room_id \<Rightarrow> model_client \<Rightarrow> model_client" where
  "mc_advance_epoch r c =
     (case mc_rooms c r of
        None \<Rightarrow> c
      | Some room \<Rightarrow> c\<lparr>mc_rooms := (mc_rooms c)(r \<mapsto> room\<lparr>mr_epoch := mr_epoch room + 1\<rparr>)\<rparr>)"

section \<open>The model server\<close>

record server_room_state =
  sr_creator :: client_id
  sr_members :: "client_id set"
  sr_messages :: "model_message list"
  sr_next_log_index :: u64
  sr_epoch :: u64

definition server_room_new :: "client_id \<Rightarrow> server_room_state" where
  "server_room_new i =
     \<lparr>sr_creator = i, sr_members = {i}, sr_messages = [], sr_next_log_index = 0, sr_epoch = 0\<rparr>"

record pending_message =
  pm_room_id :: model_room_id
  pm_message :: model_message
  pm_recipients :: "client_id list"

record model_server =
  ms_rooms :: "model_room_id \<rightharpoonup> server_room_state"
  ms_pending :: "pending_message list"

definition ms_new :: model_server where
  "ms_new = \<lparr>ms_rooms = Map.empty, ms_pending = []\<rparr>"

definition ms_pending_count :: "model_server \<Rightarrow> nat" where
  "ms_pending_count s = length (ms_pending s)"

definition ms_take_pending :: "model_server \<Rightarrow> model_server \<times> pending_message list" where
  "ms_take_pending s = (s\<lparr>ms_pending := []\<rparr>, ms_pending s)"

definition ms_room_exists :: "model_server \<Rightarrow> model_room_id \<Rightarrow> bool" where
  "ms_room_exists s r \<longleftrightarrow> ms_rooms s r \<noteq> None"

definition ms_is_member :: "model_server \<Rightarrow> model_room_id \<Rightarrow> client_id \<Rightarrow> bool" where
  "ms_is_member s r i \<longleftrightarrow> (case ms_rooms s r of Some room \<Rightarrow> i \<in> sr_members room | None \<Rightarrow> False)"

definition ms_members :: "model_server \<Rightarrow> model_room_id \<Rightarrow> client_id set option" where
  "ms_members s r = map_option sr_members (ms_rooms s r)"

definition ms_messages :: "model_server \<Rightarrow> model_room_id \<Rightarrow> model_message list option" where
  "ms_messages s r = map_option sr_messages (ms_rooms s r)"

definition ms_epoch :: "model_server \<Rightarrow> model_room_id \<Rightarrow> u64 option" where
  "ms_epoch s r = map_option sr_epoch (ms_rooms s r)"

definition ms_create_room :: "model_room_id \<Rightarrow> client_id \<Rightarrow> model_server \<Rightarrow> model_server \<times> (operation_error + unit)" where
  "ms_create_room r i s =
     (if ms_rooms s r \<noteq> None then (s, Inl OE_RoomAlreadyExists)
      else (s\<lparr>ms_rooms := (ms_rooms s)(r \<mapsto> server_room_new i)\<rparr>, Inr ()))"

definition ms_process_message ::
  "(client_id set \<Rightarrow> client_id list) \<Rightarrow> model_room_id \<Rightarrow> client_id \<Rightarrow> bytes \<Rightarrow> model_server \<Rightarrow>
     model_server \<times> (operation_error + model_message)" where
  "ms_process_message order r i content s =
     (case ms_rooms s r of
        None \<Rightarrow> (s, Inl OE_RoomNotFound)
      | Some room \<Rightarrow>
          if i \<notin> sr_members room then (s, Inl OE_NotMember)
          else
            let log_index = sr_next_log_index room;
                message = \<lparr>mm_sender_id = i, mm_content = content, mm_log_index = log_index, mm_epoch = sr_epoch room\<rparr>;
                room' = room\<lparr>sr_next_log_index := log_index + 1, sr_messages := sr_messages room @ [message]\<rparr>
            in (\<lparr>ms_rooms = (ms_rooms s)(r \<mapsto> room'),
                 ms_pending = ms_pending s @
                   [\<lparr>pm_room_id = r, pm_message = message, pm_recipients = order (sr_members room)\<rparr>]\<rparr>,
                Inr message))"

definition ms_remove_member :: "model_room_id \<Rightarrow> client_id \<Rightarrow> model_server \<Rightarrow> model_server \<times> (operation_error + unit)" where
  "ms_remove_member r i s =
     (case ms_rooms s r of
        None \<Rightarrow> (s, Inl OE_RoomNotFound)
      | Some room \<Rightarrow>
          if i \<notin> sr_members room then (s, Inl OE_NotMember)
          else
            let members = sr_members room - {i} in
            (s\<lparr>ms_rooms := (ms_rooms s)(r := (if members = {} then None else Some (room\<lparr>sr_members := members\<rparr>)))\<rparr>,
             Inr ()))"

definition ms_add_member :: "model_room_id \<Rightarrow> client_id \<Rightarrow> model_server \<Rightarrow> model_server" where
  "ms_add_member r i s =
     (case ms_rooms s r of
        None \<Rightarrow> s
      | Some room \<Rightarrow> s\<lparr>ms_rooms := (ms_rooms s)(r \<mapsto> room\<lparr>sr_members := insert i (sr_members room)\<rparr>)\<rparr>)"

definition ms_advance_epoch :: "model_room_id \<Rightarrow> model_server \<Rightarrow> model_server" where
  "ms_advance_epoch r s =
     (case ms_rooms s r of
        None \<Rightarrow> s
      | Some room \<Rightarrow> s\<lparr>ms_rooms := (ms_rooms s)(r \<mapsto> room\<lparr>sr_epoch := sr_epoch room + 1\<rparr>)\<rparr>)"

section \<open>The model world\<close>

record observable_state =
  obs_client_rooms :: "model_room_id list list"
  obs_client_messages :: "(model_room_id \<times> model_message list) list list"
  obs_server_messages :: "(model_room_id \<times> model_message list) list"

record model_world =
  mw_clients :: "model_client list"
  mw_server :: model_server

definition mw_new :: "nat \<Rightarrow> model_world" where
  "mw_new n = \<lparr>mw_clients = map (\<lambda>i. mc_new (of_nat i)) [0..<n], mw_server = ms_new\<rparr>"

definition mw_num_clients :: "model_world \<Rightarrow> nat" where
  "mw_num_clients w = length (mw_clients w)"

definition mw_client :: "model_world \<Rightarrow> client_id \<Rightarrow> model_client option" where
  "mw_client w i = (if unat i < length (mw_clients w) then Some (mw_clients w ! unat i) else None)"

text \<open>All room identifiers in ascending order, to list the keys of a map sorted.\<close>

definition all_rooms :: "model_room_id list" where
  "all_rooms = map of_nat [0..<256]"

fun option_list :: "'a option \<Rightarrow> 'a list" where
  "option_list None = []"
| "option_list (Some x) = [x]"

definition mw_observable_state :: "model_world \<Rightarrow> observable_state" where
  "mw_observable_state w =
     (let rooms = (\<lambda>c. filter (mc_is_member c) all_rooms);
          room_ids = filter (\<lambda>r. \<exists>c\<in>set (mw_clients w). mc_is_member c r) all_rooms
      in \<lparr>obs_client_rooms = map rooms (mw_clients w),
          obs_client_messages = map (\<lambda>c. concat (map (\<lambda>r. option_list (map_option (Pair r) (mc_messages c r))) (rooms c)))
            (mw_clients w),
          obs_server_messages = concat (map (\<lambda>r. option_list (map_option (Pair r) (ms_messages (mw_server w) r))) room_ids)\<rparr>)"

text \<open>\<^verbatim>\<open>get_mut\<close> followed by an update of the client in place.\<close>

definition update_client :: "client_id \<Rightarrow> (model_client \<Rightarrow> model_client) \<Rightarrow> model_world \<Rightarrow> model_world" where
  "update_client i f w = w\<lparr>mw_clients := (mw_clients w)[unat i := f (mw_clients w ! unat i)]\<rparr>"

text \<open>The loop that advances the epoch of every client in a room.\<close>

definition advance_members :: "model_room_id \<Rightarrow> model_world \<Rightarrow> model_world" where
  "advance_members r w =
     w\<lparr>mw_clients := map (\<lambda>c. if mc_is_member c r then mc_advance_epoch r c else c) (mw_clients w)\<rparr>"

definition apply_create_room :: "client_id \<Rightarrow> model_room_id \<Rightarrow> model_world \<Rightarrow> model_world \<times> operation_result" where
  "apply_create_room i r w =
     (case mw_client w i of
        None \<Rightarrow> (w, OR_Error OE_InvalidClient)
      | Some c \<Rightarrow>
          (case mc_create_room r c of
             (c', OR_Error e) \<Rightarrow> (update_client i (\<lambda>_. c') w, OR_Error e)
           | (c', OR_Ok) \<Rightarrow>
               let w1 = update_client i (\<lambda>_. c') w
               in (w1\<lparr>mw_server := ms_add_member r i (fst (ms_create_room r i (mw_server w1)))\<rparr>, OR_Ok)))"

definition apply_send_message ::
  "(client_id set \<Rightarrow> client_id list) \<Rightarrow> client_id \<Rightarrow> model_room_id \<Rightarrow> bytes \<Rightarrow> model_world \<Rightarrow>
     model_world \<times> operation_result" where
  "apply_send_message order i r content w =
     (case mw_client w i of
        None \<Rightarrow> (w, OR_Error OE_InvalidClient)
      | Some c \<Rightarrow>
          if \<not> mc_is_member c r then (w, OR_Error OE_NotMember)
          else (case ms_process_message order r i content (mw_server w) of
              (s, Inr _) \<Rightarrow> (w\<lparr>mw_server := s\<rparr>, OR_Ok)
            | (s, Inl e) \<Rightarrow> (w\<lparr>mw_server := s\<rparr>, OR_Error e)))"

text \<open>The two nested loops of the delivery.\<close>

fun deliver_to :: "model_room_id \<Rightarrow> model_message \<Rightarrow> client_id list \<Rightarrow> model_world \<Rightarrow> model_world" where
  "deliver_to r m [] w = w"
| "deliver_to r m (i # rest) w =
     deliver_to r m rest
       (case mw_client w i of
          None \<Rightarrow> w
        | Some c \<Rightarrow> if mc_is_member c r then update_client i (mc_receive_message r m) w else w)"

fun deliver_all :: "pending_message list \<Rightarrow> model_world \<Rightarrow> model_world" where
  "deliver_all [] w = w"
| "deliver_all (p # rest) w = deliver_all rest (deliver_to (pm_room_id p) (pm_message p) (pm_recipients p) w)"

definition apply_deliver_pending :: "model_world \<Rightarrow> model_world" where
  "apply_deliver_pending w =
     (let (s, pending) = ms_take_pending (mw_server w) in deliver_all pending (w\<lparr>mw_server := s\<rparr>))"

definition apply_leave_room :: "client_id \<Rightarrow> model_room_id \<Rightarrow> model_world \<Rightarrow> model_world \<times> operation_result" where
  "apply_leave_room i r w =
     (case mw_client w i of
        None \<Rightarrow> (w, OR_Error OE_InvalidClient)
      | Some c \<Rightarrow>
          (case mc_leave_room r c of
             (c', OR_Error e) \<Rightarrow> (update_client i (\<lambda>_. c') w, OR_Error e)
           | (c', OR_Ok) \<Rightarrow>
               let w1 = update_client i (\<lambda>_. c') w;
                   w2 = w1\<lparr>mw_server := ms_advance_epoch r (fst (ms_remove_member r i (mw_server w1)))\<rparr>
               in (advance_members r w2, OR_Ok)))"

definition apply_add_member ::
  "client_id \<Rightarrow> client_id \<Rightarrow> model_room_id \<Rightarrow> model_world \<Rightarrow> model_world \<times> operation_result" where
  "apply_add_member inviter invitee r w =
     (case mw_client w inviter of
        None \<Rightarrow> (w, OR_Error OE_InvalidClient)
      | Some a \<Rightarrow>
          (case mw_client w invitee of
             None \<Rightarrow> (w, OR_Error OE_InvalidClient)
           | Some b \<Rightarrow>
               if \<not> mc_is_member a r then (w, OR_Error OE_NotMember)
               else if mc_is_member b r then (w, OR_Error OE_AlreadyMember)
               else
                 let s1 = ms_advance_epoch r (mw_server w);
                     new_epoch = (case ms_epoch s1 r of Some e \<Rightarrow> e | None \<Rightarrow> 0);
                     w1 = advance_members r (w\<lparr>mw_server := s1\<rparr>);
                     w2 = w1\<lparr>mw_server := ms_add_member r invitee (mw_server w1)\<rparr>
                 in (update_client invitee (\<lambda>c. fst (mc_join_room_at_epoch r new_epoch c)) w2, OR_Ok)))"

definition apply_remove_member ::
  "client_id \<Rightarrow> client_id \<Rightarrow> model_room_id \<Rightarrow> model_world \<Rightarrow> model_world \<times> operation_result" where
  "apply_remove_member remover target r w =
     (case mw_client w remover of
        None \<Rightarrow> (w, OR_Error OE_InvalidClient)
      | Some a \<Rightarrow>
          (case mw_client w target of
             None \<Rightarrow> (w, OR_Error OE_InvalidClient)
           | Some b \<Rightarrow>
               if remover = target then (w, OR_Error OE_CannotRemoveSelf)
               else if \<not> mc_is_member a r then (w, OR_Error OE_NotMember)
               else if \<not> mc_is_member b r then (w, OR_Error OE_NotMember)
               else
                 let w1 = update_client target (\<lambda>c. fst (mc_leave_room r c)) w;
                     w2 = w1\<lparr>mw_server := ms_advance_epoch r (fst (ms_remove_member r target (mw_server w1)))\<rparr>
                 in (advance_members r w2, OR_Ok)))"

fun mw_apply ::
  "(client_id set \<Rightarrow> client_id list) \<Rightarrow> operation \<Rightarrow> model_world \<Rightarrow> model_world \<times> operation_result" where
  "mw_apply order (MO_CreateRoom i r) w = apply_create_room i r w"
| "mw_apply order (MO_SendMessage i r m) w = apply_send_message order i r (small_message_bytes m) w"
| "mw_apply order (MO_LeaveRoom i r) w = apply_leave_room i r w"
| "mw_apply order (MO_AddMember i j r) w = apply_add_member i j r w"
| "mw_apply order (MO_RemoveMember i j r) w = apply_remove_member i j r w"
| "mw_apply order (MO_AdvanceTime ms) w = (w, OR_Ok)"
| "mw_apply order MO_DeliverPending w = (apply_deliver_pending w, OR_Ok)"

definition mw_client_messages :: "model_world \<Rightarrow> client_id \<Rightarrow> model_room_id \<Rightarrow> model_message list option" where
  "mw_client_messages w i r = Option.bind (mw_client w i) (\<lambda>c. mc_messages c r)"

definition mw_client_rooms :: "model_world \<Rightarrow> client_id \<Rightarrow> model_room_id set" where
  "mw_client_rooms w i = (case mw_client w i of Some c \<Rightarrow> mc_room_ids c | None \<Rightarrow> {})"

section \<open>Membership and logs\<close>

definition in_room :: "model_world \<Rightarrow> client_id \<Rightarrow> model_room_id \<Rightarrow> bool" where
  "in_room w i r \<longleftrightarrow> (\<exists>c. mw_client w i = Some c \<and> mc_is_member c r)"

definition log_ok :: "server_room_state \<Rightarrow> bool" where
  "log_ok room \<longleftrightarrow> sr_members room \<noteq> {} \<and>
     map mm_log_index (sr_messages room) = map of_nat [0..<length (sr_messages room)] \<and>
     sr_next_log_index room = of_nat (length (sr_messages room))"

definition mw_inv :: "nat \<Rightarrow> model_world \<Rightarrow> bool" where
  "mw_inv n w \<longleftrightarrow> length (mw_clients w) = n \<and>
     (\<forall>i r. ms_is_member (mw_server w) r i \<longleftrightarrow> in_room w i r) \<and>
     (\<forall>r room. ms_rooms (mw_server w) r = Some room \<longrightarrow> log_ok room)"

named_theorems membership \<open>who is in which room after an operation\<close>

lemma unat_inject: "unat i = unat j \<longleftrightarrow> i = j"
  by (metis word_unat_eq_iff)

lemma mw_clientD:
  "mw_client w i = Some c \<Longrightarrow> unat i < length (mw_clients w) \<and> c = mw_clients w ! unat i \<and> in_room w i = mc_is_member c"
  by (auto simp: mw_client_def in_room_def split: if_splits)

lemma mw_clientI: "in_room w i r \<Longrightarrow> \<exists>c. mw_client w i = Some c"
  by (auto simp: in_room_def)

lemma in_room_server [membership]: "in_room (w\<lparr>mw_server := s\<rparr>) i r = in_room w i r"
  by (simp add: in_room_def mw_client_def)

lemma in_room_update [membership]:
  "unat i < length (mw_clients w) \<Longrightarrow>
     in_room (update_client i f w) j r = (if j = i then mc_is_member (f (mw_clients w ! unat i)) r else in_room w j r)"
  by (auto simp: in_room_def mw_client_def update_client_def nth_list_update unat_inject)

lemma mc_is_member_advance [membership]: "mc_is_member (mc_advance_epoch r c) r' = mc_is_member c r'"
  by (auto simp: mc_is_member_def mc_advance_epoch_def split: option.split)

lemma mc_is_member_receive [membership]: "mc_is_member (mc_receive_message r m c) r' = mc_is_member c r'"
  by (auto simp: mc_is_member_def mc_receive_message_def split: option.split)

lemma in_room_advance [membership]: "in_room (advance_members r w) i r' = in_room w i r'"
  by (auto simp: in_room_def mw_client_def advance_members_def mc_is_member_advance)

lemma in_room_deliver_to: "in_room (deliver_to r m is w) i r' = in_room w i r'"
proof (induction r m "is" w rule: deliver_to.induct)
  case (2 r m j rest w)
  show ?case
  proof (cases "mw_client w j")
    case (Some c)
    with "2.IH" mw_clientD [OF Some] show ?thesis
      by (auto simp: membership)
  qed (use "2.IH" in simp)
qed simp

lemma in_room_deliver_all [membership]: "in_room (deliver_all ps w) i r = in_room w i r"
  by (induction ps w rule: deliver_all.induct) (simp_all add: in_room_deliver_to)

lemma deliver_server: "mw_server (deliver_to r m is w) = mw_server w"
  "length (mw_clients (deliver_to r m is w)) = length (mw_clients w)"
  by (induction r m "is" w rule: deliver_to.induct) (auto simp: update_client_def split: option.split)

lemma deliver_all_server [simp]: "mw_server (deliver_all ps w) = mw_server w"
  "length (mw_clients (deliver_all ps w)) = length (mw_clients w)"
  by (induction ps w rule: deliver_all.induct) (simp_all add: deliver_server)

lemma update_client_sel [simp]:
  "mw_server (update_client i f w) = mw_server w" "length (mw_clients (update_client i f w)) = length (mw_clients w)"
  "mw_server (advance_members r w) = mw_server w" "length (mw_clients (advance_members r w)) = length (mw_clients w)"
  by (simp_all add: update_client_def advance_members_def)

lemma ms_is_member_add [membership]:
  "ms_is_member (ms_add_member r i s) r' j \<longleftrightarrow> ms_is_member s r' j \<or> (r' = r \<and> j = i \<and> ms_rooms s r \<noteq> None)"
  by (auto simp: ms_is_member_def ms_add_member_def split: option.splits)

lemma ms_is_member_create [membership]:
  "ms_is_member (fst (ms_create_room r i s)) r' j \<longleftrightarrow>
     ms_is_member s r' j \<or> (r' = r \<and> j = i \<and> ms_rooms s r = None)"
  by (auto simp: ms_is_member_def ms_create_room_def server_room_new_def split: option.splits)

lemma ms_is_member_remove [membership]:
  "ms_is_member (fst (ms_remove_member r i s)) r' j \<longleftrightarrow> ms_is_member s r' j \<and> \<not> (r' = r \<and> j = i)"
  by (auto simp: ms_is_member_def ms_remove_member_def Let_def split: option.splits)

lemma ms_is_member_epoch [membership]: "ms_is_member (ms_advance_epoch r s) r' j = ms_is_member s r' j"
  by (auto simp: ms_is_member_def ms_advance_epoch_def split: option.splits)

lemma ms_is_member_process [membership]:
  "ms_is_member (fst (ms_process_message order r i content s)) r' j = ms_is_member s r' j"
  by (auto simp: ms_is_member_def ms_process_message_def Let_def split: option.splits)

definition logs_ok :: "model_server \<Rightarrow> bool" where
  "logs_ok s \<longleftrightarrow> (\<forall>r room. ms_rooms s r = Some room \<longrightarrow> log_ok room)"

lemma logs_ok_ops:
  assumes "logs_ok s"
  shows "logs_ok (fst (ms_create_room r i s))" "logs_ok (ms_add_member r i s)" "logs_ok (ms_advance_epoch r s)"
    "logs_ok (fst (ms_remove_member r i s))" "logs_ok (fst (ms_process_message order r i content s))"
    "logs_ok (fst (ms_take_pending s))"
  using assms
  by (auto simp: logs_ok_def log_ok_def ms_create_room_def ms_add_member_def ms_advance_epoch_def ms_remove_member_def
      ms_process_message_def ms_take_pending_def server_room_new_def Let_def split: option.splits if_splits)

lemma create_then_exists: "ms_rooms (fst (ms_create_room r i s)) r \<noteq> None"
  by (simp add: ms_create_room_def)

lemma mw_inv_iff:
  "mw_inv n w \<longleftrightarrow> length (mw_clients w) = n \<and>
     (\<forall>i r. ms_is_member (mw_server w) r i \<longleftrightarrow> in_room w i r) \<and> logs_ok (mw_server w)"
  by (simp add: mw_inv_def logs_ok_def)

lemma ms_member_room: "ms_is_member s r i \<Longrightarrow> ms_rooms s r \<noteq> None"
  by (auto simp: ms_is_member_def split: option.splits)

lemma create_inv:
  assumes "mw_inv n w"
  shows "mw_inv n (fst (apply_create_room i r w))"
proof (cases "mw_client w i")
  case (Some c)
  then show ?thesis
    using assms mw_clientD [OF Some] create_then_exists [of r i "mw_server w"]
    by (auto simp: mw_inv_iff apply_create_room_def mc_create_room_def membership logs_ok_ops mc_is_member_def Let_def)
qed (use assms in \<open>simp add: apply_create_room_def\<close>)

lemma send_inv:
  assumes "mw_inv n w"
  shows "mw_inv n (fst (apply_send_message order i r content w))"
proof -
  have "fst (apply_send_message order i r content w) = w \<or>
      fst (apply_send_message order i r content w) =
        w\<lparr>mw_server := fst (ms_process_message order r i content (mw_server w))\<rparr>"
    by (auto simp: apply_send_message_def split: option.split prod.split sum.split)
  then show ?thesis
    using assms by (auto simp: mw_inv_iff membership logs_ok_ops)
qed

lemma leave_inv:
  assumes "mw_inv n w"
  shows "mw_inv n (fst (apply_leave_room i r w))"
proof (cases "mw_client w i")
  case (Some c)
  then show ?thesis
    using assms mw_clientD [OF Some]
    by (auto simp: mw_inv_iff apply_leave_room_def mc_leave_room_def membership logs_ok_ops mc_is_member_def Let_def)
qed (use assms in \<open>simp add: apply_leave_room_def\<close>)

lemma add_inv:
  assumes "mw_inv n w"
  shows "mw_inv n (fst (apply_add_member i j r w))"
proof (cases "in_room w i r \<and> mw_client w j \<noteq> None \<and> \<not> in_room w j r")
  case True
  then obtain a b where ab: "mw_client w i = Some a" "mw_client w j = Some b"
    using mw_clientI by blast
  then have member: "mc_is_member a r" "\<not> mc_is_member b r" "unat j < length (mw_clients w)"
    using True mw_clientD [OF ab(1)] mw_clientD [OF ab(2)] by auto
  have exists: "ms_rooms (ms_advance_epoch r (mw_server w)) r \<noteq> None"
    using True assms ms_member_room [of "ms_advance_epoch r (mw_server w)" r i] by (simp add: mw_inv_iff membership)
  have joined: "mc_is_member (fst (mc_join_room_at_epoch r e c)) r' \<longleftrightarrow> r' = r \<or> mc_is_member c r'" for e c r'
    by (auto simp: mc_join_room_at_epoch_def mc_is_member_def)
  have other: "mc_is_member (mw_clients (advance_members r w') ! unat j) r' = in_room w' j r'"
    if "unat j < length (mw_clients w')" for w' r'
    using that by (auto simp: advance_members_def in_room_def mw_client_def membership)
  show ?thesis
    using assms ab member exists
    by (simp add: mw_inv_iff apply_add_member_def membership logs_ok_ops Let_def joined other) blast
qed (use assms in \<open>auto simp: apply_add_member_def in_room_def split: option.split\<close>)

lemma remove_inv:
  assumes "mw_inv n w"
  shows "mw_inv n (fst (apply_remove_member i j r w))"
proof (cases "mw_client w j")
  case (Some b)
  note b = mw_clientD [OF Some]
  have "mc_is_member (fst (mc_leave_room r c)) r' \<longleftrightarrow> r' \<noteq> r \<and> mc_is_member c r'" for c r'
    by (simp add: mc_leave_room_def mc_is_member_def)
  then show ?thesis
    using assms b Some
    by (auto simp: mw_inv_iff apply_remove_member_def membership logs_ok_ops Let_def split: option.split)
qed (use assms in \<open>auto simp: apply_remove_member_def split: option.split\<close>)

lemma deliver_inv:
  "mw_inv n w \<Longrightarrow> mw_inv n (apply_deliver_pending w)"
  by (simp add: mw_inv_iff apply_deliver_pending_def ms_take_pending_def membership logs_ok_def ms_is_member_def)

lemma room_has_member: "logs_ok s \<Longrightarrow> ms_room_exists s r \<longleftrightarrow> (\<exists>j. ms_is_member s r j)"
  by (cases "ms_rooms s r") (auto simp: logs_ok_def log_ok_def ms_room_exists_def ms_is_member_def)

interpretation reference: preserved_by "mw_apply order" "mw_inv n" for order n
proof unfold_locales
  show "mw_inv n (fst (mw_apply order op w))" if "mw_inv n w" for op w
    using that by (cases op) (simp_all add: create_inv send_inv leave_inv add_inv remove_inv deliver_inv)
qed

lemma mw_inv_new: "mw_inv n (mw_new n)"
  by (auto simp: mw_inv_iff mw_new_def ms_new_def ms_is_member_def logs_ok_def in_room_def mw_client_def mc_new_def
      mc_is_member_def split: if_splits)

section \<open>Properties\<close>

text \<open>
  C14. The reference model is consistent: after any operations on a world of \<open>n\<close> clients, the server
  counts a client among the members of a room exactly when the client is in that room, a room the server keeps has
  a member, and the messages of its log carry their positions as log indexes.
\<close>

theorem model_world_consistent:
  "let w = run_events (mw_apply order) ops (mw_new n) in
     (ms_is_member (mw_server w) r i \<longleftrightarrow> r \<in> mw_client_rooms w i) \<and>
     (ms_room_exists (mw_server w) r \<longleftrightarrow> (\<exists>j. ms_is_member (mw_server w) r j)) \<and>
     map_option (map mm_log_index) (ms_messages (mw_server w) r) =
       map_option (\<lambda>ms. map of_nat [0..<length ms]) (ms_messages (mw_server w) r)"
proof -
  let ?w = "run_events (mw_apply order) ops (mw_new n)"
  have inv: "mw_inv n ?w" by (rule reference.run_inv [OF mw_inv_new])
  then have "ms_is_member (mw_server ?w) r i \<longleftrightarrow> r \<in> mw_client_rooms ?w i"
    by (auto simp: mw_inv_def in_room_def mw_client_rooms_def mc_room_ids_def mc_is_member_def split: option.split)
  moreover have "ms_room_exists (mw_server ?w) r \<longleftrightarrow> (\<exists>j. ms_is_member (mw_server ?w) r j)"
    using inv by (simp add: mw_inv_iff room_has_member)
  moreover have "map_option (map mm_log_index) (ms_messages (mw_server ?w) r) =
      map_option (\<lambda>ms. map of_nat [0..<length ms]) (ms_messages (mw_server ?w) r)"
    using inv by (cases "ms_rooms (mw_server ?w) r") (auto simp: mw_inv_def ms_messages_def log_ok_def)
  ultimately show ?thesis by (simp add: Let_def)
qed

text \<open>
  Pending messages outlive their room: when the last member leaves a room with messages still to be
  delivered and creates it again, the old messages are delivered into the new room, whose messages
  are then not ordered by log index.
\<close>

lemma stale_messages_delivered:
  "let m = \<lparr>sm_seed = 1, sm_size_class = 0\<rparr>;
       w = run_events (mw_apply sorted_list_of_set)
         [MO_CreateRoom 0 7, MO_SendMessage 0 7 m, MO_SendMessage 0 7 m, MO_LeaveRoom 0 7, MO_CreateRoom 0 7,
          MO_SendMessage 0 7 m, MO_DeliverPending] (mw_new 1)
   in map_option (map mm_log_index) (mw_client_messages w 0 7) = Some [0, 1, 0]"
  by (simp add: mw_new_def mc_new_def ms_new_def apply_create_room_def mc_create_room_def mw_client_def
      ms_create_room_def ms_add_member_def server_room_new_def update_client_def model_room_new_def
      apply_send_message_def mc_is_member_def ms_process_message_def apply_leave_room_def mc_leave_room_def
      ms_remove_member_def ms_advance_epoch_def advance_members_def apply_deliver_pending_def ms_take_pending_def
      mc_receive_message_def mw_client_messages_def mc_messages_def Let_def)

end
