(* ===== verification/Sender_Keys.thy ===== *)
theory Sender_Keys
  imports Frame_Header
begin

text \<open>
  Sender keys (\<^verbatim>\<open>lockframe-crypto/src/sender_keys\<close>): seed derivation, the symmetric ratchet and
  message encryption. HMAC-SHA256, HKDF-SHA256 and XChaCha20-Poly1305 are the fields of the
  parameter \<open>crypto\<close>. Zeroing memory on drop has no counterpart in the model.
\<close>

section \<open>Errors and the cryptographic library\<close>

datatype sender_key_error =
    UnknownSender u32
  | RatchetTooFarBehind u32 u32      \<comment> \<open>current, requested\<close>
  | DecryptionFailed string
  | SK_EpochMismatch u64 u64         \<comment> \<open>expected, actual\<close>
  | InvalidKeyLength nat nat         \<comment> \<open>expected, actual\<close>
  | GenerationOverflow u32           \<comment> \<open>current\<close>

fun show_sender_key_error :: "sender_key_error \<Rightarrow> string" where
  "show_sender_key_error (UnknownSender i) = ''unknown sender: '' @ show_word i"
| "show_sender_key_error (RatchetTooFarBehind current requested) =
     ''ratchet too far behind: at generation '' @ show_word current @ '', need '' @ show_word requested"
| "show_sender_key_error (DecryptionFailed reason) = ''decryption failed: '' @ reason"
| "show_sender_key_error (SK_EpochMismatch expected actual) =
     ''epoch mismatch: expected '' @ show_word expected @ '', got '' @ show_word actual"
| "show_sender_key_error (InvalidKeyLength expected actual) =
     ''invalid key length: expected '' @ show_nat expected @ '', got '' @ show_nat actual"
| "show_sender_key_error (GenerationOverflow current) =
     ''ratchet generation overflow at '' @ show_word current"

fun sender_key_is_fatal :: "sender_key_error \<Rightarrow> bool" where
  "sender_key_is_fatal (DecryptionFailed _) = True"
| "sender_key_is_fatal (InvalidKeyLength _ _) = True"
| "sender_key_is_fatal (GenerationOverflow _) = True"
| "sender_key_is_fatal (UnknownSender _) = False"
| "sender_key_is_fatal (RatchetTooFarBehind _ _) = False"
| "sender_key_is_fatal (SK_EpochMismatch _ _) = False"

text \<open>
  Keyed hash of a message; extract-then-expand of a secret with an info string to a length;
  authenticated encryption and decryption under a key and a nonce.
\<close>

record crypto =
  hmac_sha256 :: "bytes \<Rightarrow> bytes \<Rightarrow> bytes"
  hkdf_sha256 :: "bytes \<Rightarrow> bytes \<Rightarrow> nat \<Rightarrow> bytes option"
  aead_encrypt :: "bytes \<Rightarrow> bytes \<Rightarrow> bytes \<Rightarrow> bytes option"
  aead_decrypt :: "bytes \<Rightarrow> bytes \<Rightarrow> bytes \<Rightarrow> bytes option"

definition ascii_bytes :: "string \<Rightarrow> bytes" where
  "ascii_bytes s = map (\<lambda>c. of_nat (of_char c)) s"

section \<open>The symmetric ratchet\<close>

definition CHAIN_LABEL :: bytes where "CHAIN_LABEL = ascii_bytes ''chain''"
definition MESSAGE_LABEL :: bytes where "MESSAGE_LABEL = ascii_bytes ''message''"
definition MAX_SKIP :: u32 where "MAX_SKIP = 1000"

record message_key =
  mkey :: bytes
  mkey_generation :: u32

record symmetric_ratchet =
  chain_key :: bytes
  ratchet_generation :: u32

definition ratchet_new :: "bytes \<Rightarrow> symmetric_ratchet" where
  "ratchet_new seed = \<lparr>chain_key = seed, ratchet_generation = 0\<rparr>"

definition derive_message_key :: "crypto \<Rightarrow> symmetric_ratchet \<Rightarrow> bytes" where
  "derive_message_key cr r = hmac_sha256 cr (chain_key r) MESSAGE_LABEL"

definition derive_next_chain_key :: "crypto \<Rightarrow> symmetric_ratchet \<Rightarrow> bytes" where
  "derive_next_chain_key cr r = hmac_sha256 cr (chain_key r) CHAIN_LABEL"

definition advance :: "crypto \<Rightarrow> symmetric_ratchet \<Rightarrow> symmetric_ratchet \<times> (sender_key_error + message_key)" where
  "advance cr r =
     (if ratchet_generation r = - 1 then (r, Inl (GenerationOverflow (ratchet_generation r)))
      else
        let message_key = derive_message_key cr r;
            next_chain_key = derive_next_chain_key cr r;
            current_gen = ratchet_generation r
        in (r\<lparr>chain_key := next_chain_key, ratchet_generation := ratchet_generation r + 1\<rparr>,
            Inr \<lparr>mkey = message_key, mkey_generation = current_gen\<rparr>))"

lemma advance_InrD:
  assumes "advance cr r = (r', Inr k)"
  shows "ratchet_generation r \<noteq> - 1" "ratchet_generation r' = ratchet_generation r + 1"
    "unat (ratchet_generation r') = unat (ratchet_generation r) + 1"
  using assms unat_plus_one [of "ratchet_generation r"]
  by (auto simp: advance_def Let_def split: if_splits)

lemma advance_decreases:
  assumes "advance cr r = (r', Inr k)"
  shows "4294967296 - unat (ratchet_generation r') < 4294967296 - unat (ratchet_generation r)"
  using advance_InrD(3) [OF assms] unat_u32_bound [of "ratchet_generation r'"] by simp

text \<open>
  The loop \<^verbatim>\<open>while self.generation <= target\<close>: an error of \<^verbatim>\<open>advance\<close> leaves it, and every other
  turn increases the generation, so it ends.
\<close>

function advance_loop ::
  "crypto \<Rightarrow> u32 \<Rightarrow> message_key option \<Rightarrow> symmetric_ratchet \<Rightarrow>
     symmetric_ratchet \<times> (sender_key_error + message_key option)" where
  "advance_loop cr target message_key r =
     (if ratchet_generation r \<le> target then
        (case advance cr r of
           (r', Inl e) \<Rightarrow> (r', Inl e)
         | (r', Inr k) \<Rightarrow> advance_loop cr target (Some k) r')
      else (r, Inr message_key))"
  by pat_completeness auto

termination
  by (relation "measure (\<lambda>(cr, target, k, r). 2 ^ 32 - unat (ratchet_generation r))")
    (auto dest: advance_decreases [OF sym])

declare advance_loop.simps [simp del]

definition advance_to ::
  "crypto \<Rightarrow> u32 \<Rightarrow> symmetric_ratchet \<Rightarrow> symmetric_ratchet \<times> (sender_key_error + message_key)" where
  "advance_to cr target r =
     (if target < ratchet_generation r
      then (r, Inl (RatchetTooFarBehind (ratchet_generation r) target))
      else
        let skip_count = target - ratchet_generation r in
        if MAX_SKIP < skip_count
        then (r, Inl (RatchetTooFarBehind (ratchet_generation r) target))
        else
          (case advance_loop cr target None r of
             (r', Inl e) \<Rightarrow> (r', Inl e)
           | (r', Inr None) \<Rightarrow> (r', Inl (RatchetTooFarBehind (ratchet_generation r') target))
           | (r', Inr (Some k)) \<Rightarrow> (r', Inr k)))"

section \<open>Seed derivation\<close>

definition SENDER_KEY_LABEL :: bytes where
  "SENDER_KEY_LABEL = ascii_bytes ''lockframeSenderV1''"

definition sender_key_info :: "u64 \<Rightarrow> u32 \<Rightarrow> bytes" where
  "sender_key_info epoch sender_index =
     SENDER_KEY_LABEL @ to_be_bytes epoch @ to_be_bytes sender_index"

definition derive_sender_key_seed :: "crypto \<Rightarrow> bytes \<Rightarrow> u64 \<Rightarrow> u32 \<Rightarrow> bytes exec" where
  "derive_sender_key_seed cr epoch_secret epoch sender_index =
     (case hkdf_sha256 cr epoch_secret (sender_key_info epoch sender_index) 32 of
        Some seed \<Rightarrow> Done seed
      | None \<Rightarrow> Panic)"

fun derive_all_sender_seeds :: "crypto \<Rightarrow> bytes \<Rightarrow> u64 \<Rightarrow> u32 list \<Rightarrow> (u32 \<times> bytes) list exec" where
  "derive_all_sender_seeds cr epoch_secret epoch [] = Done []"
| "derive_all_sender_seeds cr epoch_secret epoch (index # rest) =
     (case derive_sender_key_seed cr epoch_secret epoch index of
        Panic \<Rightarrow> Panic
      | Done seed \<Rightarrow>
          (case derive_all_sender_seeds cr epoch_secret epoch rest of
             Panic \<Rightarrow> Panic
           | Done seeds \<Rightarrow> Done ((index, seed) # seeds)))"

section \<open>Message encryption\<close>

definition NONCE_RANDOM_SIZE :: nat where "NONCE_RANDOM_SIZE = 8"
definition POLY1305_TAG_SIZE :: nat where "POLY1305_TAG_SIZE = 16"

record sealed_message =
  sealed_epoch :: u64
  sealed_sender_index :: u32
  sealed_generation :: u32
  sealed_nonce :: bytes
  sealed_ciphertext :: bytes

definition plaintext_len :: "sealed_message \<Rightarrow> nat" where
  "plaintext_len m = length (sealed_ciphertext m) - POLY1305_TAG_SIZE"

definition build_nonce :: "u64 \<Rightarrow> u32 \<Rightarrow> u32 \<Rightarrow> bytes \<Rightarrow> bytes" where
  "build_nonce epoch sender_index generation random_suffix =
     copy_at 16 random_suffix
       (copy_at 12 (to_be_bytes generation)
         (copy_at 8 (to_be_bytes sender_index)
           (copy_at 0 (to_be_bytes epoch) (replicate 24 0))))"

definition encrypt_message :: "crypto \<Rightarrow> bytes \<Rightarrow> message_key \<Rightarrow> u64 \<Rightarrow> u32 \<Rightarrow> bytes \<Rightarrow> sealed_message exec" where
  "encrypt_message cr plaintext key epoch sender_index random_suffix =
     (let nonce = build_nonce epoch sender_index (mkey_generation key) random_suffix in
      case aead_encrypt cr (mkey key) nonce plaintext of
        None \<Rightarrow> Panic
      | Some ciphertext \<Rightarrow>
          Done \<lparr>sealed_epoch = epoch, sealed_sender_index = sender_index,
            sealed_generation = mkey_generation key, sealed_nonce = nonce,
            sealed_ciphertext = ciphertext\<rparr>)"

definition decrypt_message :: "crypto \<Rightarrow> sealed_message \<Rightarrow> message_key \<Rightarrow> sender_key_error + bytes" where
  "decrypt_message cr m key =
     (if mkey_generation key \<noteq> sealed_generation m
      then Inl (DecryptionFailed (''generation mismatch: key is '' @ show_word (mkey_generation key)
             @ '', message is '' @ show_word (sealed_generation m)))
      else case aead_decrypt cr (mkey key) (sealed_nonce m) (sealed_ciphertext m) of
        None \<Rightarrow> Inl (DecryptionFailed ''authentication failed'')
      | Some plaintext \<Rightarrow> Inr plaintext)"

text \<open>
  What the library documents of authenticated encryption: it does not fail on inputs below its
  length limit, which the frame size respects, and decryption inverts it. HKDF does not fail on
  32 bytes of output.
\<close>

definition aead_correct :: "crypto \<Rightarrow> bool" where
  "aead_correct cr \<longleftrightarrow>
     (\<forall>k n p. \<exists>c. aead_encrypt cr k n p = Some c \<and> aead_decrypt cr k n c = Some p)"

definition hkdf_total :: "crypto \<Rightarrow> bool" where
  "hkdf_total cr \<longleftrightarrow> (\<forall>secret info. hkdf_sha256 cr secret info 32 \<noteq> None)"

section \<open>The ratchet in closed form\<close>

text \<open>The chain key after \<open>n\<close> steps, and the message key of a chain key.\<close>

definition chain_at :: "crypto \<Rightarrow> bytes \<Rightarrow> nat \<Rightarrow> bytes" where
  "chain_at cr k n = ((\<lambda>k. hmac_sha256 cr k CHAIN_LABEL) ^^ n) k"

definition message_key_at :: "crypto \<Rightarrow> bytes \<Rightarrow> nat \<Rightarrow> bytes" where
  "message_key_at cr k n = hmac_sha256 cr (chain_at cr k n) MESSAGE_LABEL"

lemma chain_at_simps [simp]:
  "chain_at cr k 0 = k"
  "chain_at cr (hmac_sha256 cr k CHAIN_LABEL) n = chain_at cr k (Suc n)"
  by (simp_all add: chain_at_def funpow_swap1 [where f = "\<lambda>k. hmac_sha256 cr k CHAIN_LABEL"])

lemma chain_at_add: "chain_at cr (chain_at cr k m) n = chain_at cr k (m + n)"
  by (metis add.commute chain_at_def comp_apply funpow_add)

lemma message_key_at_step [simp]:
  "message_key_at cr (hmac_sha256 cr k CHAIN_LABEL) n = message_key_at cr k (Suc n)"
  by (simp add: message_key_at_def)

lemma message_key_at_0 [simp]: "message_key_at cr k 0 = hmac_sha256 cr k MESSAGE_LABEL"
  by (simp add: message_key_at_def)

lemma advance_eq:
  "advance cr r =
     (if ratchet_generation r = - 1 then (r, Inl (GenerationOverflow (- 1)))
      else (r\<lparr>chain_key := chain_at cr (chain_key r) 1, ratchet_generation := ratchet_generation r + 1\<rparr>,
            Inr \<lparr>mkey = message_key_at cr (chain_key r) 0, mkey_generation = ratchet_generation r\<rparr>))"
  by (simp add: advance_def derive_message_key_def derive_next_chain_key_def chain_at_def Let_def)

lemma minus_one_max: "(w :: 'a::len word) \<le> - 1"
  by (rule word_order.extremum)

lemma plus_one_le_iff:
  assumes "(w :: 'a::len word) \<noteq> - 1"
  shows "w + 1 \<le> v \<longleftrightarrow> w < v"
  using unat_plus_one [OF assms] by (simp add: word_le_nat_alt word_less_nat_alt Suc_le_eq)

lemma advance_loop_done:
  "\<not> ratchet_generation r \<le> target \<Longrightarrow> advance_loop cr target k r = (r, Inr k)"
  by (simp add: advance_loop.simps)

lemma advance_loop_step:
  assumes "ratchet_generation r \<le> target" and "ratchet_generation r \<noteq> - 1"
  shows "advance_loop cr target k r =
    advance_loop cr target
      (Some \<lparr>mkey = message_key_at cr (chain_key r) 0, mkey_generation = ratchet_generation r\<rparr>)
      (r\<lparr>chain_key := chain_at cr (chain_key r) 1, ratchet_generation := ratchet_generation r + 1\<rparr>)"
  using assms by (subst advance_loop.simps) (simp add: advance_eq)

lemma advance_loop_reaches:
  assumes "unat target = unat (ratchet_generation r) + n" and "target \<noteq> - 1"
  shows "advance_loop cr target k r =
    (r\<lparr>chain_key := chain_at cr (chain_key r) (Suc n), ratchet_generation := target + 1\<rparr>,
     Inr (Some \<lparr>mkey = message_key_at cr (chain_key r) n, mkey_generation = target\<rparr>))"
  using assms
proof (induction n arbitrary: k r)
  case 0
  then have "ratchet_generation r = target" by (simp add: word_unat_eq_iff)
  moreover have "\<not> target + 1 \<le> target"
    using 0 by (simp add: plus_one_le_iff)
  ultimately show ?case
    using 0 by (simp add: advance_loop_step advance_loop_done)
next
  case (Suc n)
  have ne: "ratchet_generation r \<noteq> - 1"
    using Suc.prems minus_one_max [of target] by (auto simp: word_le_nat_alt)
  have le: "ratchet_generation r \<le> target" using Suc.prems by (simp add: word_le_nat_alt)
  show ?case
    using Suc.prems unat_plus_one [OF ne]
    by (simp add: advance_loop_step [OF le ne] Suc.IH chain_at_add message_key_at_def)
qed

lemma advance_loop_overflows:
  assumes "unat (- 1 :: u32) = unat (ratchet_generation r) + n"
  shows "advance_loop cr (- 1) k r =
    (r\<lparr>chain_key := chain_at cr (chain_key r) n, ratchet_generation := - 1\<rparr>,
     Inl (GenerationOverflow (- 1)))"
  using assms
proof (induction n arbitrary: k r)
  case 0
  then have "ratchet_generation r = - 1" by (simp add: word_unat_eq_iff)
  then show ?case by (subst advance_loop.simps) (simp add: advance_eq)
next
  case (Suc n)
  have ne: "ratchet_generation r \<noteq> - 1"
    using Suc.prems by auto
  show ?case
    using Suc.prems unat_plus_one [OF ne]
    by (simp add: advance_loop_step [OF minus_one_max ne] Suc.IH chain_at_add)
qed

lemma unat_diff_gt_MAX_SKIP:
  assumes "(g :: u32) \<le> t"
  shows "MAX_SKIP < t - g \<longleftrightarrow> unat g + 1000 < unat t"
  using assms
  by (auto simp: MAX_SKIP_def word_less_nat_alt word_le_nat_alt unat_sub)

text \<open>\<^verbatim>\<open>advance_to\<close> against the closed form: the errors, the overflow at the last generation, the key.\<close>

lemma advance_to_eq:
  "advance_to cr t r =
     (let g = ratchet_generation r; n = unat t - unat g in
      if t < g \<or> unat g + 1000 < unat t then (r, Inl (RatchetTooFarBehind g t))
      else if t = - 1 then
        (r\<lparr>chain_key := chain_at cr (chain_key r) n, ratchet_generation := - 1\<rparr>,
         Inl (GenerationOverflow (- 1)))
      else
        (r\<lparr>chain_key := chain_at cr (chain_key r) (Suc n), ratchet_generation := t + 1\<rparr>,
         Inr \<lparr>mkey = message_key_at cr (chain_key r) n, mkey_generation = t\<rparr>))"
proof (cases "t < ratchet_generation r")
  case True
  then show ?thesis by (simp add: advance_to_def)
next
  case False
  then have le: "ratchet_generation r \<le> t" by simp
  then have eq: "unat t = unat (ratchet_generation r) + (unat t - unat (ratchet_generation r))"
    by (simp add: word_le_nat_alt)
  show ?thesis
  proof (cases "t = - 1")
    case True
    with eq show ?thesis
      using False unat_diff_gt_MAX_SKIP [OF le] advance_loop_overflows [of r]
      by (simp add: advance_to_def Let_def)
  next
    case ne: False
    with eq show ?thesis
      using False unat_diff_gt_MAX_SKIP [OF le] advance_loop_reaches [OF eq ne]
      by (simp add: advance_to_def Let_def)
  qed
qed

section \<open>Runs of a ratchet\<close>

datatype ratchet_call = Advance | AdvanceTo u32

fun ratchet_step ::
  "crypto \<Rightarrow> ratchet_call \<Rightarrow> symmetric_ratchet \<Rightarrow> symmetric_ratchet \<times> (sender_key_error + message_key)" where
  "ratchet_step cr Advance r = advance cr r"
| "ratchet_step cr (AdvanceTo t) r = advance_to cr t r"

text \<open>The chain key is the seed hashed once per generation.\<close>

definition on_chain :: "crypto \<Rightarrow> bytes \<Rightarrow> symmetric_ratchet \<Rightarrow> bool" where
  "on_chain cr seed r \<longleftrightarrow> chain_key r = chain_at cr seed (unat (ratchet_generation r))"

lemma on_chain_new [simp]: "on_chain cr seed (ratchet_new seed)"
  by (simp add: on_chain_def ratchet_new_def)

lemma advance_on_chain: "on_chain cr seed r \<Longrightarrow> on_chain cr seed (fst (advance cr r))"
  by (simp add: advance_eq on_chain_def unat_plus_one chain_at_add)

lemma advance_to_on_chain: "on_chain cr seed r \<Longrightarrow> on_chain cr seed (fst (advance_to cr t r))"
  by (auto simp: advance_to_eq Let_def on_chain_def unat_plus_one chain_at_add word_less_nat_alt
      not_less)

lemma ratchet_step_mono: "ratchet_generation r \<le> ratchet_generation (fst (ratchet_step cr e r))"
proof (cases e)
  case Advance
  then show ?thesis by (auto simp: advance_eq word_le_nat_alt unat_plus_one)
next
  case (AdvanceTo t)
  then show ?thesis
    using minus_one_max [of "ratchet_generation r"]
    by (auto simp: advance_to_eq Let_def word_le_nat_alt word_less_nat_alt unat_plus_one)
qed

lemma ratchet_step_on_chain: "on_chain cr seed r \<Longrightarrow> on_chain cr seed (fst (ratchet_step cr e r))"
  by (cases e) (simp_all add: advance_on_chain advance_to_on_chain)

lemma ratchet_step_key:
  assumes "ratchet_step cr e r = (r', Inr k)"
  shows "ratchet_generation r \<le> mkey_generation k" "mkey_generation k < ratchet_generation r'"
proof -
  have "ratchet_generation r \<le> mkey_generation k \<and> mkey_generation k < ratchet_generation r'"
    using assms
    by (cases e)
      (auto simp: advance_eq advance_to_eq Let_def word_less_nat_alt word_le_nat_alt unat_plus_one
        split: if_splits)
  then show "ratchet_generation r \<le> mkey_generation k" "mkey_generation k < ratchet_generation r'"
    by simp_all
qed

interpretation ratchet_forward: monotone_steps "ratchet_step cr" ratchet_generation for cr
  by unfold_locales (rule ratchet_step_mono)

interpretation ratchet_chain: preserved_by "ratchet_step cr" "on_chain cr seed" for cr seed
  by unfold_locales (rule ratchet_step_on_chain)

text \<open>Two ratchets on the same chain give the same key for a generation both can reach.\<close>

lemma ratchets_agree:
  assumes "on_chain cr seed s" and "on_chain cr seed r"
    and "ratchet_generation r \<le> ratchet_generation s"
    and "unat (ratchet_generation s) \<le> unat (ratchet_generation r) + 1000"
    and "advance cr s = (s', Inr k)"
  shows "\<exists>r'. advance_to cr (ratchet_generation s) r = (r', Inr k) \<and> on_chain cr seed r' \<and>
    ratchet_generation r' = ratchet_generation s'"
proof -
  note gen = advance_InrD [OF assms(5)]
  have "\<exists>r'. advance_to cr (ratchet_generation s) r = (r', Inr k) \<and>
      ratchet_generation r' = ratchet_generation s'"
    using assms gen
    by (auto simp: advance_to_eq advance_eq Let_def on_chain_def message_key_at_def chain_at_add
        word_le_nat_alt word_less_nat_alt)
  then show ?thesis
    using advance_to_on_chain [OF assms(2), of "ratchet_generation s"] by auto
qed

section \<open>Nonces and seeds\<close>

lemma take_build_nonce:
  "take 16 (build_nonce e i g rnd) = to_be_bytes e @ to_be_bytes i @ to_be_bytes g"
  by (simp add: build_nonce_def copy_at_def)

text \<open>The nonce determines epoch, sender and generation, whatever the random suffixes.\<close>

lemma build_nonce_inject:
  assumes "build_nonce e i g rnd = build_nonce e' i' g' rnd'"
  shows "e = e' \<and> i = i' \<and> g = g'"
proof -
  have "to_be_bytes e @ to_be_bytes i @ to_be_bytes g =
      to_be_bytes e' @ to_be_bytes i' @ to_be_bytes g'"
    using assms by (metis take_build_nonce)
  then show ?thesis
    by (simp add: be64.enc_append_inject be32.enc_append_inject)
qed

lemma sender_key_info_inject:
  "sender_key_info e i = sender_key_info e' i' \<longleftrightarrow> e = e' \<and> i = i'"
  by (simp add: sender_key_info_def be64.enc_append_inject)

lemma decrypt_encrypt_message:
  assumes "aead_correct cr" and "encrypt_message cr p k e i rnd = Done m"
  shows "decrypt_message cr m k = Inr p"
proof -
  obtain c where "aead_encrypt cr (mkey k) (build_nonce e i (mkey_generation k) rnd) p = Some c"
      "aead_decrypt cr (mkey k) (build_nonce e i (mkey_generation k) rnd) c = Some p"
    using assms(1) unfolding aead_correct_def by blast
  with assms(2) show ?thesis by (auto simp: encrypt_message_def decrypt_message_def Let_def)
qed

lemma encrypt_message_fields:
  assumes "encrypt_message cr p k e i rnd = Done m"
  shows "sealed_epoch m = e" "sealed_sender_index m = i" "sealed_generation m = mkey_generation k"
    "sealed_nonce m = build_nonce e i (mkey_generation k) rnd"
  using assms by (auto simp: encrypt_message_def Let_def split: option.splits)

section \<open>Properties\<close>

text \<open>
  C23. The key schedule is a function of the seed: after any calls on a fresh ratchet, failed ones
  included, asking for generation \<open>t\<close> succeeds exactly when \<open>t\<close> is not behind, at most 1000 ahead
  and not the last 32-bit value, and then yields the HMAC of the seed hashed \<open>t\<close> times and moves
  the ratchet just past \<open>t\<close>.
\<close>

theorem ratchet_key_schedule:
  assumes "r = run_events (ratchet_step cr) calls (ratchet_new seed)"
  shows "((\<exists>r' k. advance_to cr t r = (r', Inr k)) \<longleftrightarrow>
       ratchet_generation r \<le> t \<and> unat t \<le> unat (ratchet_generation r) + 1000 \<and> t \<noteq> - 1) \<and>
     (\<forall>r' k. advance_to cr t r = (r', Inr k) \<longrightarrow>
       mkey k = hmac_sha256 cr (((\<lambda>c. hmac_sha256 cr c CHAIN_LABEL) ^^ unat t) seed) MESSAGE_LABEL \<and>
       mkey_generation k = t \<and> ratchet_generation r' = t + 1)"
proof -
  have "on_chain cr seed r"
    unfolding assms by (rule ratchet_chain.run_inv) simp
  then have "advance_to cr t r = (r', Inr k) \<Longrightarrow>
       mkey k = hmac_sha256 cr (((\<lambda>c. hmac_sha256 cr c CHAIN_LABEL) ^^ unat t) seed) MESSAGE_LABEL \<and>
       mkey_generation k = t \<and> ratchet_generation r' = t + 1" for r' k
    by (auto simp: advance_to_eq Let_def on_chain_def message_key_at_def chain_at_add
        word_less_nat_alt chain_at_def [symmetric] split: if_splits)
  moreover have "(\<exists>r' k. advance_to cr t r = (r', Inr k)) \<longleftrightarrow>
       ratchet_generation r \<le> t \<and> unat t \<le> unat (ratchet_generation r) + 1000 \<and> t \<noteq> - 1"
    by (auto simp: advance_to_eq Let_def)
  ultimately show ?thesis by blast
qed

text \<open>A concrete library for the witnesses: a one-byte tag, checked on decryption.\<close>

definition sample_crypto :: crypto where
  "sample_crypto =
     \<lparr>hmac_sha256 = (\<lambda>k m. [of_nat (length k + length m)] @ take 2 k),
      hkdf_sha256 = (\<lambda>secret info n. Some (take n (secret @ info))),
      aead_encrypt = (\<lambda>k n p. Some (0 # p)),
      aead_decrypt = (\<lambda>k n c. if c \<noteq> [] \<and> hd c = 0 then Some (tl c) else None)\<rparr>"

theorem ratchet_key_schedule_witness:
  "\<exists>r' k. advance_to sample_crypto 5
     (run_events (ratchet_step sample_crypto) [Advance, AdvanceTo 3, AdvanceTo 1] (ratchet_new [1, 2])) = (r', Inr k)"
  by (subst ratchet_key_schedule [OF refl, THEN conjunct1])
    (simp add: advance_eq advance_to_eq ratchet_new_def Let_def sample_crypto_def)

text \<open>
  Every message key is handed out at most once, in order: once a call has returned the key of some
  generation, every key that any later call returns belongs to a strictly later generation.
\<close>

lemma keys_handed_out_once:
  assumes "ratchet_step cr e r = (r1, Inr k)"
    and "ratchet_step cr e' (run_events (ratchet_step cr) calls r1) = (r2, Inr k')"
  shows "mkey_generation k < mkey_generation k'"
  using ratchet_step_key(2) [OF assms(1)] ratchet_forward.run_mono [of r1 cr calls]
    ratchet_step_key(1) [OF assms(2)]
  by (meson less_le_trans)

end
