(* ===== verification/Sender_Key_Store.thy ===== *)
theory Sender_Key_Store
  imports Sender_Keys
begin

text \<open>
  The per-room store of sender ratchets (\<^verbatim>\<open>lockframe-client/src/sender_key_store.rs\<close>): one
  ratchet per member index, all derived from one epoch secret.
\<close>

record sender_key_store =
  store_epoch :: u64
  ratchets :: "u32 \<rightharpoonup> symmetric_ratchet"

text \<open>The loop over the member indices, inserting into the map.\<close>

fun init_ratchets ::
  "crypto \<Rightarrow> bytes \<Rightarrow> u64 \<Rightarrow> u32 list \<Rightarrow> (u32 \<rightharpoonup> symmetric_ratchet) \<Rightarrow> (u32 \<rightharpoonup> symmetric_ratchet) exec" where
  "init_ratchets cr epoch_secret epoch [] m = Done m"
| "init_ratchets cr epoch_secret epoch (sender_index # rest) m =
     (case derive_sender_key_seed cr epoch_secret epoch sender_index of
        Panic \<Rightarrow> Panic
      | Done seed \<Rightarrow> init_ratchets cr epoch_secret epoch rest (m(sender_index \<mapsto> ratchet_new seed)))"

definition initialize_epoch :: "crypto \<Rightarrow> bytes \<Rightarrow> u64 \<Rightarrow> u32 list \<Rightarrow> sender_key_store exec" where
  "initialize_epoch cr epoch_secret epoch member_indices =
     (case init_ratchets cr epoch_secret epoch member_indices Map.empty of
        Panic \<Rightarrow> Panic
      | Done m \<Rightarrow> Done \<lparr>store_epoch = epoch, ratchets = m\<rparr>)"

definition member_count :: "sender_key_store \<Rightarrow> nat" where
  "member_count st = card (dom (ratchets st))"

definition has_member :: "sender_key_store \<Rightarrow> u32 \<Rightarrow> bool" where
  "has_member st sender_index \<longleftrightarrow> ratchets st sender_index \<noteq> None"

definition store_encrypt ::
  "crypto \<Rightarrow> u32 \<Rightarrow> bytes \<Rightarrow> bytes \<Rightarrow> sender_key_store \<Rightarrow>
     (sender_key_store \<times> (sender_key_error + sealed_message)) exec" where
  "store_encrypt cr sender_index plaintext random_bytes st =
     (case ratchets st sender_index of
        None \<Rightarrow> Done (st, Inl (UnknownSender sender_index))
      | Some ratchet \<Rightarrow>
          (case advance cr ratchet of
             (ratchet', Inl e) \<Rightarrow> Done (st\<lparr>ratchets := (ratchets st)(sender_index \<mapsto> ratchet')\<rparr>, Inl e)
           | (ratchet', Inr message_key) \<Rightarrow>
               (case encrypt_message cr plaintext message_key (store_epoch st) sender_index random_bytes of
                  Panic \<Rightarrow> Panic
                | Done m \<Rightarrow> Done (st\<lparr>ratchets := (ratchets st)(sender_index \<mapsto> ratchet')\<rparr>, Inr m))))"

definition store_decrypt ::
  "crypto \<Rightarrow> sealed_message \<Rightarrow> sender_key_store \<Rightarrow> sender_key_store \<times> (sender_key_error + bytes)" where
  "store_decrypt cr m st =
     (if sealed_epoch m \<noteq> store_epoch st
      then (st, Inl (SK_EpochMismatch (store_epoch st) (sealed_epoch m)))
      else case ratchets st (sealed_sender_index m) of
        None \<Rightarrow> (st, Inl (UnknownSender (sealed_sender_index m)))
      | Some ratchet \<Rightarrow>
          (case advance_to cr (sealed_generation m) ratchet of
             (ratchet', Inl e) \<Rightarrow>
               (st\<lparr>ratchets := (ratchets st)(sealed_sender_index m \<mapsto> ratchet')\<rparr>, Inl e)
           | (ratchet', Inr message_key) \<Rightarrow>
               (st\<lparr>ratchets := (ratchets st)(sealed_sender_index m \<mapsto> ratchet')\<rparr>,
                decrypt_message cr m message_key)))"

definition store_generation :: "sender_key_store \<Rightarrow> u32 \<Rightarrow> u32 option" where
  "store_generation st sender_index = map_option ratchet_generation (ratchets st sender_index)"

section \<open>Initialisation\<close>

definition sender_seed :: "crypto \<Rightarrow> bytes \<Rightarrow> u64 \<Rightarrow> u32 \<Rightarrow> bytes" where
  "sender_seed cr epoch_secret epoch i =
     the (hkdf_sha256 cr epoch_secret (sender_key_info epoch i) 32)"

lemma derive_sender_key_seed_total:
  "hkdf_total cr \<Longrightarrow>
     derive_sender_key_seed cr secret epoch i = Done (sender_seed cr secret epoch i)"
  by (auto simp: derive_sender_key_seed_def sender_seed_def hkdf_total_def split: option.splits)

lemma init_ratchets_eq:
  assumes "hkdf_total cr"
  shows "init_ratchets cr secret epoch is m =
    Done (\<lambda>i. if i \<in> set is then Some (ratchet_new (sender_seed cr secret epoch i)) else m i)"
  by (induction "is" arbitrary: m)
    (auto simp: derive_sender_key_seed_total [OF assms])

lemma initialize_epoch_eq:
  assumes "hkdf_total cr"
  shows "initialize_epoch cr secret epoch is = Done
    \<lparr>store_epoch = epoch,
     ratchets = (\<lambda>i. if i \<in> set is then Some (ratchet_new (sender_seed cr secret epoch i)) else None)\<rparr>"
  by (simp add: initialize_epoch_def init_ratchets_eq [OF assms])

section \<open>Sequences of messages\<close>

text \<open>A sender seals a list of plaintexts with their random suffixes; a receiver opens a list.\<close>

fun seal_all ::
  "crypto \<Rightarrow> u32 \<Rightarrow> (bytes \<times> bytes) list \<Rightarrow> sender_key_store \<Rightarrow> (sender_key_error + sealed_message) list exec" where
  "seal_all cr i [] st = Done []"
| "seal_all cr i ((p, rnd) # rest) st =
     (case store_encrypt cr i p rnd st of
        Panic \<Rightarrow> Panic
      | Done (st', r) \<Rightarrow>
          (case seal_all cr i rest st' of Panic \<Rightarrow> Panic | Done rs \<Rightarrow> Done (r # rs)))"

fun open_all ::
  "crypto \<Rightarrow> sealed_message list \<Rightarrow> sender_key_store \<Rightarrow> (sender_key_error + bytes) list" where
  "open_all cr [] st = []"
| "open_all cr (m # ms) st = (let (st', r) = store_decrypt cr m st in r # open_all cr ms st')"

text \<open>
  The receiver's ratchet for sender \<open>i\<close> is on the same chain as the sender's, and behind it.
\<close>

definition synced ::
  "crypto \<Rightarrow> bytes \<Rightarrow> u32 \<Rightarrow> sender_key_store \<Rightarrow> sender_key_store \<Rightarrow> bool" where
  "synced cr seed i a b \<longleftrightarrow> store_epoch a = store_epoch b \<and>
     (\<exists>ra rb. ratchets a i = Some ra \<and> ratchets b i = Some rb \<and>
        on_chain cr seed ra \<and> on_chain cr seed rb \<and> ratchet_generation rb \<le> ratchet_generation ra)"

text \<open>How far the receiver is behind the sender.\<close>

definition lag :: "u32 \<Rightarrow> sender_key_store \<Rightarrow> sender_key_store \<Rightarrow> nat" where
  "lag i a b = unat (the (store_generation a i)) - unat (the (store_generation b i))"

definition sent_count :: "u32 \<Rightarrow> sender_key_store \<Rightarrow> nat" where
  "sent_count i a = unat (the (store_generation a i))"

lemma seal_step:
  assumes "aead_correct cr" and "synced cr seed i a b" and "sent_count i a < 4294967295"
  shows "\<exists>a' m. store_encrypt cr i p rnd a = Done (a', Inr m) \<and> synced cr seed i a' b \<and>
    sent_count i a' = Suc (sent_count i a) \<and> lag i a' b = Suc (lag i a b) \<and>
    (lag i a b \<le> 1000 \<longrightarrow>
       (\<exists>b'. store_decrypt cr m b = (b', Inr p) \<and> synced cr seed i a' b' \<and> lag i a' b' = 0))"
proof -
  obtain ra rb where ab: "store_epoch a = store_epoch b" "ratchets a i = Some ra" "ratchets b i = Some rb"
      "on_chain cr seed ra" "on_chain cr seed rb" "ratchet_generation rb \<le> ratchet_generation ra"
    using assms(2) by (auto simp: synced_def)
  have ne: "ratchet_generation ra \<noteq> - 1"
    using assms(3) ab by (auto simp: sent_count_def store_generation_def unat_u32_max)
  obtain ra' k where adv: "advance cr ra = (ra', Inr k)" using ne by (simp add: advance_eq)
  note gen = advance_InrD [OF adv]
  have chain': "on_chain cr seed ra'" using advance_on_chain [OF ab(4)] adv by (metis fst_conv)
  obtain m where m: "encrypt_message cr p k (store_epoch a) i rnd = Done m"
    using assms(1) unfolding aead_correct_def encrypt_message_def Let_def by (metis option.simps(5))
  note fields = encrypt_message_fields [OF m]
  have kg: "mkey_generation k = ratchet_generation ra" using adv ne by (auto simp: advance_eq)
  let ?a' = "a\<lparr>ratchets := (ratchets a)(i \<mapsto> ra')\<rparr>"
  have enc: "store_encrypt cr i p rnd a = Done (?a', Inr m)"
    by (simp add: store_encrypt_def ab(2) adv m)
  have sync: "synced cr seed i ?a' b"
    using ab chain' gen by (auto simp: synced_def word_le_nat_alt)
  have counts: "sent_count i ?a' = Suc (sent_count i a)" "lag i ?a' b = Suc (lag i a b)"
    using ab gen by (auto simp: sent_count_def lag_def store_generation_def word_le_nat_alt)
  have "\<exists>b'. store_decrypt cr m b = (b', Inr p) \<and> synced cr seed i ?a' b' \<and> lag i ?a' b' = 0"
    if "lag i a b \<le> 1000"
  proof -
    have "unat (ratchet_generation ra) \<le> unat (ratchet_generation rb) + 1000"
      using that ab by (simp add: lag_def store_generation_def)
    from ratchets_agree [OF ab(4,5,6) this adv] obtain rb' where rb':
      "advance_to cr (ratchet_generation ra) rb = (rb', Inr k)" "on_chain cr seed rb'"
      "ratchet_generation rb' = ratchet_generation ra'" by blast
    then have "store_decrypt cr m b = (b\<lparr>ratchets := (ratchets b)(i \<mapsto> rb')\<rparr>, Inr p)"
      using decrypt_encrypt_message [OF assms(1) m] ab fields kg by (simp add: store_decrypt_def)
    moreover have "synced cr seed i ?a' (b\<lparr>ratchets := (ratchets b)(i \<mapsto> rb')\<rparr>)"
      using ab chain' rb' by (simp add: synced_def)
    moreover have "lag i ?a' (b\<lparr>ratchets := (ratchets b)(i \<mapsto> rb')\<rparr>) = 0"
      using rb' by (simp add: lag_def store_generation_def)
    ultimately show ?thesis by blast
  qed
  with enc sync counts show ?thesis by blast
qed

lemma seal_all_Inr:
  assumes "aead_correct cr"
  shows "synced cr seed i a b \<Longrightarrow> sent_count i a + length pts \<le> 4294967295 \<Longrightarrow>
    \<exists>ms. seal_all cr i pts a = Done (map Inr ms) \<and> length ms = length pts"
proof (induction pts arbitrary: a)
  case Nil
  then show ?case by simp
next
  case (Cons pt pts)
  obtain p rnd where pt: "pt = (p, rnd)" by (cases pt)
  obtain a' m where step: "store_encrypt cr i p rnd a = Done (a', Inr m)" "synced cr seed i a' b"
      "sent_count i a' = Suc (sent_count i a)"
    using seal_step [OF assms Cons.prems(1), of p rnd] Cons.prems(2) by auto
  then obtain ms where "seal_all cr i pts a' = Done (map Inr ms)" "length ms = length pts"
    using Cons.IH [of a'] Cons.prems(2) by auto
  then show ?case using step(1) by (intro exI [of _ "m # ms"]) (simp add: pt)
qed

lemma open_sealed:
  assumes "aead_correct cr"
  shows "synced cr seed i a b \<Longrightarrow> sent_count i a + length pts \<le> 4294967295 \<Longrightarrow>
    lag i a b + length pts \<le> 1001 \<Longrightarrow> seal_all cr i pts a = Done (map Inr ms) \<Longrightarrow>
    open_all cr (nths ms I) b = map Inr (nths (map fst pts) I)"
proof (induction pts arbitrary: a b ms I)
  case Nil
  then show ?case by simp
next
  case (Cons pt pts)
  obtain p rnd where pt: "pt = (p, rnd)" by (cases pt)
  obtain a' m where step: "store_encrypt cr i p rnd a = Done (a', Inr m)" "synced cr seed i a' b"
      "sent_count i a' = Suc (sent_count i a)" "lag i a' b = Suc (lag i a b)"
      "lag i a b \<le> 1000 \<longrightarrow>
        (\<exists>b'. store_decrypt cr m b = (b', Inr p) \<and> synced cr seed i a' b' \<and> lag i a' b' = 0)"
    using seal_step [OF assms Cons.prems(1), of p rnd] Cons.prems(2) by auto
  obtain ms' where ms: "ms = m # ms'" "seal_all cr i pts a' = Done (map Inr ms')"
    using Cons.prems(4) step(1) by (auto simp: pt Cons_eq_map_conv split: exec.splits)
  obtain b' where b': "store_decrypt cr m b = (b', Inr p)" "synced cr seed i a' b'" "lag i a' b' = 0"
    using step(5) Cons.prems(3) by auto
  let ?J = "{j. Suc j \<in> I}"
  have "open_all cr (nths ms' ?J) b = map Inr (nths (map fst pts) ?J)"
    using Cons.IH [OF step(2) _ _ ms(2)] Cons.prems(2,3) step(3,4) by simp
  moreover have "open_all cr (nths ms' ?J) b' = map Inr (nths (map fst pts) ?J)"
    using Cons.IH [OF b'(2) _ _ ms(2)] Cons.prems(2,3) step(3) b'(3) by simp
  ultimately show ?case
    using b'(1) by (simp add: ms(1) pt nths_Cons)
qed

lemma synced_initial:
  assumes "hkdf_total cr" and "initialize_epoch cr secret epoch ms = Done a"
    and "initialize_epoch cr secret epoch ms' = Done b" and "i \<in> set ms" and "i \<in> set ms'"
  shows "synced cr (sender_seed cr secret epoch i) i a b" "lag i a b = 0" "sent_count i a = 0"
  using assms
  by (auto simp: initialize_epoch_eq synced_def lag_def sent_count_def store_generation_def
      ratchet_new_def on_chain_def)

section \<open>What a decryption leaves behind\<close>

lemma advance_to_past:
  assumes "advance_to cr t r = (r', Inr k)" and "t' \<le> t"
  shows "advance_to cr t' r' = (r', Inl (RatchetTooFarBehind (t + 1) t'))"
proof -
  have "ratchet_generation r' = t + 1" "t \<noteq> - 1"
    using assms(1) by (auto simp: advance_to_eq Let_def split: if_splits)
  moreover from this have "t' < t + 1"
    using assms(2) by (simp add: word_less_nat_alt word_le_nat_alt unat_plus_one)
  ultimately show ?thesis by (simp add: advance_to_eq Let_def)
qed

lemma decrypt_message_no_ratchet_error:
  "decrypt_message cr m k = Inl e \<Longrightarrow> \<exists>reason. e = DecryptionFailed reason"
  by (auto simp: decrypt_message_def split: if_splits option.splits)

section \<open>Nonces of one store\<close>

text \<open>One store seals a list of (sender, plaintext, suffix) requests from any senders.\<close>

fun seal_mixed ::
  "crypto \<Rightarrow> (u32 \<times> bytes \<times> bytes) list \<Rightarrow> sender_key_store \<Rightarrow> (sender_key_error + sealed_message) list exec" where
  "seal_mixed cr [] st = Done []"
| "seal_mixed cr ((i, p, rnd) # rest) st =
     (case store_encrypt cr i p rnd st of
        Panic \<Rightarrow> Panic
      | Done (st', r) \<Rightarrow>
          (case seal_mixed cr rest st' of Panic \<Rightarrow> Panic | Done rs \<Rightarrow> Done (r # rs)))"

fun sealed_of :: "(sender_key_error + sealed_message) list \<Rightarrow> sealed_message list" where
  "sealed_of [] = []"
| "sealed_of (Inl _ # rs) = sealed_of rs"
| "sealed_of (Inr m # rs) = m # sealed_of rs"

definition from_generation :: "sender_key_store \<Rightarrow> sealed_message \<Rightarrow> bool" where
  "from_generation st m \<longleftrightarrow>
     (\<exists>r. ratchets st (sealed_sender_index m) = Some r \<and> ratchet_generation r \<le> sealed_generation m) \<and>
     (\<exists>rnd. sealed_nonce m = build_nonce (store_epoch st) (sealed_sender_index m) (sealed_generation m) rnd)"

lemma store_encrypt_Inr:
  assumes "store_encrypt cr i p rnd st = Done (st', Inr m)"
  obtains r r' where "ratchets st i = Some r" "st' = st\<lparr>ratchets := (ratchets st)(i \<mapsto> r')\<rparr>"
    "sealed_sender_index m = i" "sealed_generation m = ratchet_generation r"
    "ratchet_generation r < ratchet_generation r'"
    "sealed_nonce m = build_nonce (store_epoch st) i (sealed_generation m) rnd"
proof -
  obtain r where r: "ratchets st i = Some r"
    using assms by (auto simp: store_encrypt_def split: option.splits)
  obtain r' k where adv: "advance cr r = (r', Inr k)"
    using assms r by (auto simp: store_encrypt_def split: prod.splits sum.splits exec.splits)
  have enc: "encrypt_message cr p k (store_epoch st) i rnd = Done m"
    and st': "st' = st\<lparr>ratchets := (ratchets st)(i \<mapsto> r')\<rparr>"
    using assms r adv by (auto simp: store_encrypt_def split: exec.splits)
  have "mkey_generation k = ratchet_generation r"
    using adv by (auto simp: advance_eq split: if_splits)
  then show thesis
    using that [OF r st'] encrypt_message_fields [OF enc] advance_InrD [OF adv]
    by (simp add: word_less_nat_alt)
qed

lemma store_encrypt_Inl:
  assumes "store_encrypt cr i p rnd st = Done (st', Inl e)"
  shows "st' = st"
  using assms
  by (auto simp: store_encrypt_def advance_eq fun_upd_idem_iff split: option.splits exec.splits if_splits)

lemma from_generation_earlier:
  assumes "ratchets st i = Some r" and "ratchet_generation r \<le> ratchet_generation r'"
    and "from_generation (st\<lparr>ratchets := (ratchets st)(i \<mapsto> r')\<rparr>) m"
  shows "from_generation st m"
  using assms by (auto simp: from_generation_def split: if_splits)

lemma seal_mixed_generations:
  "seal_mixed cr reqs st = Done rs \<Longrightarrow> m \<in> set (sealed_of rs) \<Longrightarrow> from_generation st m"
proof (induction cr reqs st arbitrary: rs rule: seal_mixed.induct)
  case (2 cr i p rnd rest st)
  obtain st' r rs' where step: "store_encrypt cr i p rnd st = Done (st', r)"
      and rest: "seal_mixed cr rest st' = Done rs'" and rs: "rs = r # rs'"
    using "2.prems"(1) by (auto split: exec.splits)
  show ?case
  proof (cases r)
    case (Inl e)
    then show ?thesis
      using "2.IH" [OF step refl rest] "2.prems"(2) store_encrypt_Inl [OF step [unfolded Inl]] rs
      by simp
  next
    case (Inr s)
    from store_encrypt_Inr [OF step [unfolded Inr]] obtain q q' where q: "ratchets st i = Some q"
        "st' = st\<lparr>ratchets := (ratchets st)(i \<mapsto> q')\<rparr>" "sealed_sender_index s = i"
        "sealed_generation s = ratchet_generation q" "ratchet_generation q < ratchet_generation q'"
        "sealed_nonce s = build_nonce (store_epoch st) i (sealed_generation s) rnd" .
    have "from_generation st s" using q by (auto simp: from_generation_def)
    moreover have "from_generation st m" if "m \<in> set (sealed_of rs')"
      using "2.IH" [OF step refl rest that] from_generation_earlier [OF q(1) less_imp_le [OF q(5)]]
      by (simp add: q(2))
    ultimately show ?thesis using "2.prems"(2) rs Inr by auto
  qed
qed simp

section \<open>Properties\<close>

text \<open>
  C8. In-order delivery with losses: a member seals up to 1000 messages in a fresh epoch store; a
  receiver with a store of the same epoch secret who gets any subsequence of them, in order, opens
  every message it gets and reads exactly the plaintexts that were sent.
\<close>

theorem lossy_in_order_delivery:
  assumes "aead_correct cr" and "hkdf_total cr"
    and "initialize_epoch cr secret epoch members = Done alice" and "i \<in> set members"
    and "initialize_epoch cr secret epoch members' = Done bob" and "i \<in> set members'"
    and "length pts \<le> 1000"
  shows "\<exists>ms. seal_all cr i pts alice = Done (map Inr ms) \<and> length ms = length pts \<and>
     (\<forall>I. open_all cr (nths ms I) bob = map Inr (nths (map fst pts) I))"
proof -
  note init = synced_initial [OF assms(2,3,5,4,6)]
  obtain ms where ms: "seal_all cr i pts alice = Done (map Inr ms)" "length ms = length pts"
    using seal_all_Inr [OF assms(1) init(1), of pts] assms(7) init(3) by auto
  moreover have "open_all cr (nths ms I) bob = map Inr (nths (map fst pts) I)" for I
    using open_sealed [OF assms(1) init(1) _ _ ms(1)] assms(7) init(2,3) by simp
  ultimately show ?thesis by blast
qed

lemma sample_crypto_encrypt: "aead_encrypt sample_crypto k n p = Some (0 # p)"
  by (simp add: sample_crypto_def)

lemma sample_crypto_ok: "aead_correct sample_crypto" "hkdf_total sample_crypto"
  by (simp_all add: aead_correct_def hkdf_total_def sample_crypto_def)

theorem lossy_in_order_delivery_witness:
  "\<exists>alice ms. initialize_epoch sample_crypto [7, 7] 3 [0, 1] = Done alice \<and>
     seal_all sample_crypto 1 [([1], []), ([2], []), ([3], [])] alice = Done (map Inr ms) \<and>
     open_all sample_crypto (nths ms {0, 2}) alice = [Inr [1], Inr [3]]"
proof -
  obtain alice where a: "initialize_epoch sample_crypto [7, 7] 3 [0, 1] = Done alice"
    by (simp add: initialize_epoch_eq sample_crypto_ok)
  obtain ms where "seal_all sample_crypto 1 [([1], []), ([2], []), ([3], [])] alice = Done (map Inr ms)"
      "length ms = length [([1] :: bytes, [] :: bytes), ([2], []), ([3], [])]"
      "\<forall>I. open_all sample_crypto (nths ms I) alice
        = map Inr (nths (map fst [([1] :: bytes, [] :: bytes), ([2], []), ([3], [])]) I)"
    using lossy_in_order_delivery [OF sample_crypto_ok a _ a, of 1 "[([1], []), ([2], []), ([3], [])]"]
    by auto
  with a show ?thesis by (fastforce simp: nths_Cons)
qed

text \<open>
  C25. Opening a message spends its generation, whether or not it authenticates: after the store
  has opened a message, or has refused it for bad authentication, every message of
  that sender and epoch with the same or an earlier generation, a replay or the genuine message
  behind a forged one, is refused as too far behind and the store does not change.
\<close>

theorem decrypt_spends_generation:
  assumes "store_decrypt cr m st = (st', r)"
    and "(\<exists>p. r = Inr p) \<or> (\<exists>reason. r = Inl (DecryptionFailed reason))"
    and "sealed_epoch m' = sealed_epoch m" and "sealed_sender_index m' = sealed_sender_index m"
    and "sealed_generation m' \<le> sealed_generation m"
  shows "store_decrypt cr m' st' =
     (st', Inl (RatchetTooFarBehind (sealed_generation m + 1) (sealed_generation m')))"
proof -
  have epoch: "sealed_epoch m = store_epoch st"
    using assms(1,2) by (auto simp: store_decrypt_def split: if_splits)
  obtain q where q: "ratchets st (sealed_sender_index m) = Some q"
    using assms(1,2) epoch by (auto simp: store_decrypt_def split: option.splits)
  obtain q' k where adv: "advance_to cr (sealed_generation m) q = (q', Inr k)"
    using assms(1,2) epoch q
    by (cases "advance_to cr (sealed_generation m) q")
      (auto simp: store_decrypt_def advance_to_eq Let_def split: sum.splits if_splits)
  have st': "st' = st\<lparr>ratchets := (ratchets st)(sealed_sender_index m \<mapsto> q')\<rparr>"
    using assms(1) epoch q adv by (simp add: store_decrypt_def)
  then show ?thesis
    using advance_to_past [OF adv assms(5)] assms(3,4) epoch
    by (simp add: store_decrypt_def)
qed

theorem decrypt_spends_generation_witness:
  "\<exists>st st'. initialize_epoch sample_crypto [7, 7] 3 [0, 1] = Done st \<and>
     store_decrypt sample_crypto \<lparr>sealed_epoch = 3, sealed_sender_index = 1, sealed_generation = 2,
        sealed_nonce = [], sealed_ciphertext = [9]\<rparr> st = (st', Inl (DecryptionFailed ''authentication failed'')) \<and>
     store_decrypt sample_crypto \<lparr>sealed_epoch = 3, sealed_sender_index = 1, sealed_generation = 0,
        sealed_nonce = [], sealed_ciphertext = [0, 5]\<rparr> st' = (st', Inl (RatchetTooFarBehind (2 + 1) 0))"
proof -
  let ?forged = "\<lparr>sealed_epoch = 3, sealed_sender_index = 1, sealed_generation = 2,
        sealed_nonce = [], sealed_ciphertext = [9]\<rparr>"
  let ?genuine = "\<lparr>sealed_epoch = 3, sealed_sender_index = 1, sealed_generation = 0,
        sealed_nonce = [], sealed_ciphertext = [0, 5]\<rparr>"
  obtain st where st: "initialize_epoch sample_crypto [7, 7] 3 [0, 1] = Done st"
    by (simp add: initialize_epoch_eq sample_crypto_ok)
  then have "store_epoch st = 3" "\<exists>r. ratchets st 1 = Some r \<and> ratchet_generation r = 0"
    by (auto simp: initialize_epoch_eq sample_crypto_ok ratchet_new_def)
  then obtain st' where st': "store_decrypt sample_crypto ?forged st
      = (st', Inl (DecryptionFailed ''authentication failed''))"
    by (auto simp: store_decrypt_def advance_to_eq Let_def decrypt_message_def sample_crypto_def)
  have "store_decrypt sample_crypto ?genuine st' = (st', Inl (RatchetTooFarBehind
      (sealed_generation ?forged + 1) (sealed_generation ?genuine)))"
    by (rule decrypt_spends_generation [OF st']) auto
  with st st' show ?thesis by auto
qed

text \<open>
  C24. A store never repeats a nonce: whatever senders and plaintexts it is asked to seal, and whatever
  random suffixes it is given, even constant ones, the nonces of all messages it seals are distinct.
\<close>

theorem nonces_never_repeat:
  assumes "seal_mixed cr reqs st = Done rs"
  shows "distinct (map sealed_nonce (sealed_of rs))"
  using assms
proof (induction cr reqs st arbitrary: rs rule: seal_mixed.induct)
  case (2 cr i p rnd rest st)
  obtain st' r rs' where step: "store_encrypt cr i p rnd st = Done (st', r)"
      and rest: "seal_mixed cr rest st' = Done rs'" and rs: "rs = r # rs'"
    using "2.prems"(1) by (auto split: exec.splits)
  note IH = "2.IH" [OF step refl rest]
  show ?case
  proof (cases r)
    case (Inr s)
    from store_encrypt_Inr [OF step [unfolded Inr]] obtain q q' where q: "ratchets st i = Some q"
        "st' = st\<lparr>ratchets := (ratchets st)(i \<mapsto> q')\<rparr>" "sealed_sender_index s = i"
        "sealed_generation s = ratchet_generation q" "ratchet_generation q < ratchet_generation q'"
        "sealed_nonce s = build_nonce (store_epoch st) i (sealed_generation s) rnd" .
    have "sealed_nonce m \<noteq> sealed_nonce s" if "m \<in> set (sealed_of rs')" for m
    proof
      assume "sealed_nonce m = sealed_nonce s"
      with seal_mixed_generations [OF rest that] q show False
        by (auto simp: from_generation_def dest!: build_nonce_inject)
    qed
    then have "sealed_nonce s \<notin> sealed_nonce ` set (sealed_of rs')" by (metis imageE)
    with IH show ?thesis by (simp add: rs Inr)
  qed (use IH in \<open>simp add: rs\<close>)
qed simp

theorem nonces_never_repeat_witness:
  "\<exists>st rs. initialize_epoch sample_crypto [7, 7] 3 [0, 1] = Done st \<and>
     seal_mixed sample_crypto [(0, [1], []), (1, [1], []), (0, [1], [])] st = Done rs \<and>
     length (sealed_of rs) = 3 \<and> distinct (map sealed_nonce (sealed_of rs))"
proof -
  obtain st rs where st: "initialize_epoch sample_crypto [7, 7] 3 [0, 1] = Done st"
      and rs: "seal_mixed sample_crypto [(0, [1], []), (1, [1], []), (0, [1], [])] st = Done rs"
      and n: "length (sealed_of rs) = 3"
    by (simp add: initialize_epoch_eq sample_crypto_ok store_encrypt_def advance_eq
        ratchet_new_def encrypt_message_def sample_crypto_encrypt Let_def)
  from st rs n nonces_never_repeat [OF rs] show ?thesis by blast
qed

end
