(* ===== verification/Client_Machine.thy ===== *)
theory Client_Machine
  imports Sender_Key_Store Mls_Group_Model Payloads
begin

text \<open>
  The client (\<^verbatim>\<open>lockframe-client/src/client.rs\<close>, \<^verbatim>\<open>event.rs\<close>, \<^verbatim>\<open>error.rs\<close>): room memberships, each an
  MLS group with the sender keys of its epoch. A handler may have changed the client before it
  fails, so it returns the new client with its result; deriving keys and serialising may panic. The
  environment's clone, its random bytes and the clock are arguments. A sync response holds encoded
  frames which are handled like received ones, further sync responses included; the depth of
  that nesting is bounded by a fuel argument, and \<open>None\<close> means that the fuel ran out.
\<close>

section \<open>Events, actions and errors\<close>

datatype client_error =
    CL_RoomNotFound room_id
  | CL_EpochMismatch u64 u64                      \<comment> \<open>expected, actual\<close>
  | CL_RoomAlreadyExists room_id
  | CL_Mls string
  | CL_SenderKey sender_key_error
  | CL_InvalidFrame string
  | CL_InvalidState string
  | CL_SyncRequired room_id u64                   \<comment> \<open>room, target epoch\<close>

fun show_client_error :: "client_error \<Rightarrow> string" where
  "show_client_error (CL_RoomNotFound r) = ''room not found: '' @ show_hex r"
| "show_client_error (CL_EpochMismatch expected actual) =
     ''epoch mismatch: expected '' @ show_word expected @ '', got '' @ show_word actual"
| "show_client_error (CL_RoomAlreadyExists r) = ''room already exists: '' @ show_hex r"
| "show_client_error (CL_Mls reason) = ''MLS error: '' @ reason"
| "show_client_error (CL_SenderKey e) = ''sender key error: '' @ show_sender_key_error e"
| "show_client_error (CL_InvalidFrame reason) = ''invalid frame: '' @ reason"
| "show_client_error (CL_InvalidState reason) = ''invalid state: '' @ reason"
| "show_client_error (CL_SyncRequired r target) =
     ''sync required: room '' @ show_hex r @ '' needs epoch '' @ show_word target"

fun client_is_fatal :: "client_error \<Rightarrow> bool" where
  "client_is_fatal (CL_InvalidFrame _) = True"
| "client_is_fatal (CL_InvalidState _) = True"
| "client_is_fatal (CL_Mls _) = True"
| "client_is_fatal (CL_SenderKey e) = sender_key_is_fatal e"
| "client_is_fatal (CL_RoomNotFound _) = False"
| "client_is_fatal (CL_RoomAlreadyExists _) = False"
| "client_is_fatal (CL_EpochMismatch _ _) = False"
| "client_is_fatal (CL_SyncRequired _ _) = False"

datatype client_event =
    CEv_FrameReceived frame
  | CEv_Tick instant
  | CEv_SendMessage room_id bytes
  | CEv_CreateRoom room_id
  | CEv_JoinRoom room_id bytes
  | CEv_LeaveRoom room_id
  | CEv_AddMembers room_id "bytes list"

record room_state_snapshot =
  snap_room_id :: room_id
  snap_epoch :: u64
  snap_mls_state :: bytes
  snap_my_leaf_index :: u32

datatype client_action =
    CA_Send frame
  | CA_DeliverMessage room_id u64 bytes u64 u64   \<comment> \<open>room, sender, plaintext, log index, timestamp\<close>
  | CA_RequestSync room_id u64 u64                \<comment> \<open>room, from epoch, to epoch\<close>
  | CA_PersistRoom room_state_snapshot
  | CA_RoomRemoved room_id string
  | CA_Log string

section \<open>The client\<close>

definition SENDER_KEY_EXPORT_LABEL :: string where "SENDER_KEY_EXPORT_LABEL = ''lockframe sender keys v1''"
definition SENDER_KEY_CONTEXT :: bytes where "SENDER_KEY_CONTEXT = []"
definition SENDER_KEY_SECRET_SIZE :: nat where "SENDER_KEY_SECRET_SIZE = 32"
definition COMMIT_TIMEOUT :: duration where "COMMIT_TIMEOUT = 30 * 10 ^ 9"

record 'x client_room =
  rs_mls_group :: "'x mls_group"
  rs_sender_keys :: sender_key_store
  my_leaf_index :: u32

record 'x client =
  cl_sender_id :: u64
  cl_rooms :: "room_id \<rightharpoonup> 'x client_room"
  cl_pending_joins :: "'x pending_join_state list"

text \<open>What the client calls and does not own, and what the environment yields during one call.\<close>

record 'x client_services =
  cs_cbor :: ciborium
  cs_openmls :: "'x openmls"
  cs_ed25519 :: ed25519
  cs_crypto :: crypto
  cs_order :: "room_id set \<Rightarrow> room_id list"

record 'x client_inputs =
  in_env :: 'x
  in_random :: bytes
  in_now :: instant

type_synonym 'x client_result = "('x client \<times> (client_error + client_action list)) exec"

definition client_new :: "u64 \<Rightarrow> 'x client" where
  "client_new sender_id = \<lparr>cl_sender_id = sender_id, cl_rooms = Map.empty, cl_pending_joins = []\<rparr>"

definition client_room_count :: "'x client \<Rightarrow> nat" where
  "client_room_count c = card (dom (cl_rooms c))"

definition client_is_member :: "'x client \<Rightarrow> room_id \<Rightarrow> bool" where
  "client_is_member c room_id \<longleftrightarrow> cl_rooms c room_id \<noteq> None"

definition client_epoch :: "'x client_services \<Rightarrow> 'x client \<Rightarrow> room_id \<Rightarrow> u64 option" where
  "client_epoch cs c room_id =
     map_option (\<lambda>room. grp_epoch (cs_openmls cs) (rs_mls_group room)) (cl_rooms c room_id)"

abbreviation mls_failure :: "mls_error \<Rightarrow> client_error" where
  "mls_failure e \<equiv> CL_Mls (show_mls_error e)"

definition client_generate_key_package ::
  "'x client_services \<Rightarrow> 'x client_inputs \<Rightarrow> 'x client \<Rightarrow> 'x client \<times> (client_error + bytes \<times> bytes)" where
  "client_generate_key_package cs inp c =
     (case generate_key_package (cs_openmls cs) (in_env inp) (cl_sender_id c) of
        Inl e \<Rightarrow> (c, Inl (mls_failure e))
      | Inr (kp_bytes, hash_ref, pending_state) \<Rightarrow>
          (c\<lparr>cl_pending_joins := cl_pending_joins c @ [pending_state]\<rparr>, Inr (kp_bytes, hash_ref)))"

fun convert_mls_action :: "room_id \<Rightarrow> mls_action \<Rightarrow> client_action" where
  "convert_mls_action r (SendCommit f) = CA_Send f"
| "convert_mls_action r (SendProposal f) = CA_Send f"
| "convert_mls_action r (SendMessage f) = CA_Send f"
| "convert_mls_action r (SendWelcome _ f) = CA_Send f"
| "convert_mls_action r (DeliverMessage sender plaintext) = CA_DeliverMessage r sender plaintext 0 0"
| "convert_mls_action r (RemoveGroup reason) = CA_RoomRemoved r reason"
| "convert_mls_action r (MA_Log message) = CA_Log message"

definition convert_mls_actions :: "room_id \<Rightarrow> mls_action list \<Rightarrow> client_action list" where
  "convert_mls_actions room_id mls_actions = map (convert_mls_action room_id) mls_actions"

definition initialize_sender_keys ::
  "'x client_services \<Rightarrow> 'x mls_group \<Rightarrow> (client_error + sender_key_store) exec" where
  "initialize_sender_keys cs g =
     (case grp_export_secret (cs_openmls cs) g SENDER_KEY_EXPORT_LABEL SENDER_KEY_CONTEXT SENDER_KEY_SECRET_SIZE of
        Inl e \<Rightarrow> Done (Inl (mls_failure e))
      | Inr epoch_secret \<Rightarrow>
          (case initialize_epoch (cs_crypto cs) epoch_secret (grp_epoch (cs_openmls cs) g)
              (member_leaf_indices (cs_openmls cs) g) of
             Panic \<Rightarrow> Panic
           | Done keys \<Rightarrow> Done (Inr keys)))"

definition handle_create_room :: "'x client_services \<Rightarrow> 'x client_inputs \<Rightarrow> room_id \<Rightarrow> 'x client \<Rightarrow> 'x client_result" where
  "handle_create_room cs inp room_id c =
     (if cl_rooms c room_id \<noteq> None then Done (c, Inl (CL_RoomAlreadyExists room_id))
      else case mls_group_new (cs_openmls cs) (in_env inp) room_id (cl_sender_id c) of
        Inl e \<Rightarrow> Done (c, Inl (mls_failure e))
      | Inr (g, mls_actions) \<Rightarrow>
          (case initialize_sender_keys cs g of
             Panic \<Rightarrow> Panic
           | Done (Inl e) \<Rightarrow> Done (c, Inl e)
           | Done (Inr keys) \<Rightarrow>
               let leaf = own_leaf_index (cs_openmls cs) g in
               (case export_state (cs_openmls cs) g of
                  Inl e \<Rightarrow> Done (c, Inl (mls_failure e))
                | Inr initial_state \<Rightarrow>
                    Done (c\<lparr>cl_rooms := (cl_rooms c)(room_id \<mapsto>
                              \<lparr>rs_mls_group = g, rs_sender_keys = keys, my_leaf_index = leaf\<rparr>)\<rparr>,
                          Inr (convert_mls_actions room_id mls_actions
                            @ [CA_PersistRoom \<lparr>snap_room_id = room_id, snap_epoch = 0,
                                 snap_mls_state = initial_state, snap_my_leaf_index = leaf\<rparr>,
                               CA_Log (''Created room '' @ show_hex room_id @ '' at epoch 0'')])))))"

definition crypto_to_proto_encrypted :: "sealed_message \<Rightarrow> encrypted_message" where
  "crypto_to_proto_encrypted m =
     \<lparr>msg_epoch = sealed_epoch m, msg_sender_index = sealed_sender_index m,
      msg_generation = sealed_generation m, msg_nonce = sealed_nonce m,
      msg_ciphertext = sealed_ciphertext m, push_keys = None\<rparr>"

definition proto_to_crypto_encrypted :: "encrypted_message \<Rightarrow> sealed_message" where
  "proto_to_crypto_encrypted m =
     \<lparr>sealed_epoch = msg_epoch m, sealed_sender_index = msg_sender_index m,
      sealed_generation = msg_generation m, sealed_nonce = msg_nonce m,
      sealed_ciphertext = msg_ciphertext m\<rparr>"

definition serialize_encrypted_message :: "ciborium \<Rightarrow> encrypted_message \<Rightarrow> bytes exec" where
  "serialize_encrypted_message cb m =
     (case ser_encrypted_message cb m of (data, None) \<Rightarrow> Done data | (_, Some _) \<Rightarrow> Panic)"

definition deserialize_encrypted_message :: "ciborium \<Rightarrow> bytes \<Rightarrow> string + encrypted_message" where
  "deserialize_encrypted_message cb data =
     (case de_encrypted_message cb data of
        Inl e \<Rightarrow> Inl (''CBOR decode failed: '' @ e)
      | Inr m \<Rightarrow> Inr m)"

definition handle_send_message ::
  "'x client_services \<Rightarrow> 'x client_inputs \<Rightarrow> room_id \<Rightarrow> bytes \<Rightarrow> 'x client \<Rightarrow> 'x client_result" where
  "handle_send_message cs inp room_id plaintext c =
     (case cl_rooms c room_id of
        None \<Rightarrow> Done (c, Inl (CL_RoomNotFound room_id))
      | Some room \<Rightarrow>
          (case store_encrypt (cs_crypto cs) (my_leaf_index room) plaintext (in_random inp) (rs_sender_keys room) of
             Panic \<Rightarrow> Panic
           | Done (keys, sealed) \<Rightarrow>
               let c1 = c\<lparr>cl_rooms := (cl_rooms c)(room_id \<mapsto> room\<lparr>rs_sender_keys := keys\<rparr>)\<rparr> in
               (case sealed of
                  Inl e \<Rightarrow> Done (c1, Inl (CL_SenderKey e))
                | Inr m \<Rightarrow>
                    (case serialize_encrypted_message (cs_cbor cs) (crypto_to_proto_encrypted m) of
                       Panic \<Rightarrow> Panic
                     | Done data \<Rightarrow>
                         let h = set_epoch (grp_epoch (cs_openmls cs) (rs_mls_group room))
                                   (set_sender_id (cl_sender_id c)
                                     (set_room_id room_id (header_new Op_AppMessage)))
                         in Done (c1, Inr [CA_Send (frame_new
                              (sign_frame_header (cs_openmls cs) (rs_mls_group room) h) data)])))))"

definition handle_app_message :: "'x client_services \<Rightarrow> room_id \<Rightarrow> frame \<Rightarrow> 'x client \<Rightarrow> 'x client_result" where
  "handle_app_message cs room_id f c =
     (case cl_rooms c room_id of
        None \<Rightarrow> Done (c, Inl (CL_RoomNotFound room_id))
      | Some room \<Rightarrow>
          let g = rs_mls_group room;
              frame_epoch = header_epoch (header f);
              room_epoch = grp_epoch (cs_openmls cs) g
          in if frame_epoch \<noteq> room_epoch then Done (c, Inl (CL_EpochMismatch room_epoch frame_epoch))
          else (case grp_validate_frame (cs_openmls cs) (cs_ed25519 cs) g f
                  (Some (export_validation_state (cs_openmls cs) g)) of
             Inl e \<Rightarrow> Done (c, Inl (CL_InvalidFrame (show_mls_error e)))
           | Inr _ \<Rightarrow>
               (case deserialize_encrypted_message (cs_cbor cs) (payload f) of
                  Inl e \<Rightarrow> Done (c, Inl (CL_InvalidFrame e))
                | Inr m \<Rightarrow>
                    let claimed = header_sender_id (header f) in
                    (case member_id_by_leaf_index (cs_openmls cs) g (msg_sender_index m) of
                       None \<Rightarrow> Done (c, Inl (CL_InvalidFrame (''unknown sender_index ''
                                 @ show_word (msg_sender_index m) @ '' in encrypted payload'')))
                     | Some verified \<Rightarrow>
                         if claimed \<noteq> verified then
                           Done (c, Inl (CL_InvalidFrame (''sender_id mismatch: header claims '' @ show_word claimed
                             @ '', but sender_index '' @ show_word (msg_sender_index m) @ '' belongs to ''
                             @ show_word verified)))
                         else
                           (case store_decrypt (cs_crypto cs) (proto_to_crypto_encrypted m) (rs_sender_keys room) of
                              (keys, res) \<Rightarrow>
                                Done (c\<lparr>cl_rooms := (cl_rooms c)(room_id \<mapsto> room\<lparr>rs_sender_keys := keys\<rparr>)\<rparr>,
                                  case res of
                                    Inl e \<Rightarrow> Inl (CL_SenderKey e)
                                  | Inr plaintext \<Rightarrow>
                                      Inr [CA_DeliverMessage room_id verified plaintext
                                        (header_log_index (header f)) (header_hlc_timestamp (header f))]))))))"

text \<open>A call of the group's message processing; the group may have changed even if it fails.\<close>

definition process_mls_message ::
  "'x client_services \<Rightarrow> room_id \<Rightarrow> frame \<Rightarrow> 'x client \<Rightarrow> 'x client \<times> (client_error + client_action list)" where
  "process_mls_message cs room_id f c =
     (case cl_rooms c room_id of
        None \<Rightarrow> (c, Inl (CL_RoomNotFound room_id))
      | Some room \<Rightarrow>
          (case grp_process_message (cs_openmls cs) f (rs_mls_group room) of
             (g, res) \<Rightarrow>
               (c\<lparr>cl_rooms := (cl_rooms c)(room_id \<mapsto> room\<lparr>rs_mls_group := g\<rparr>)\<rparr>,
                case res of
                  Inl e \<Rightarrow> Inl (mls_failure e)
                | Inr mls_actions \<Rightarrow> Inr (convert_mls_actions room_id mls_actions))))"

definition handle_commit :: "'x client_services \<Rightarrow> room_id \<Rightarrow> frame \<Rightarrow> 'x client \<Rightarrow> 'x client_result" where
  "handle_commit cs room_id f c =
     (case process_mls_message cs room_id f c of
        (c1, Inl e) \<Rightarrow> Done (c1, Inl e)
      | (c1, Inr actions) \<Rightarrow>
          (case cl_rooms c1 room_id of
             None \<Rightarrow> Done (c1, Inl (CL_RoomNotFound room_id))
           | Some room \<Rightarrow>
               (case initialize_sender_keys cs (rs_mls_group room) of
                  Panic \<Rightarrow> Panic
                | Done (Inl e) \<Rightarrow> Done (c1, Inl e)
                | Done (Inr keys) \<Rightarrow>
                    let leaf = own_leaf_index (cs_openmls cs) (rs_mls_group room);
                        epoch = grp_epoch (cs_openmls cs) (rs_mls_group room);
                        c2 = c1\<lparr>cl_rooms := (cl_rooms c1)(room_id \<mapsto>
                               room\<lparr>rs_sender_keys := keys, my_leaf_index := leaf\<rparr>)\<rparr>
                    in Done (c2,
                        case export_state (cs_openmls cs) (rs_mls_group room) of
                          Inl e \<Rightarrow> Inl (mls_failure e)
                        | Inr st \<Rightarrow>
                            Inr (actions @ [CA_PersistRoom \<lparr>snap_room_id = room_id, snap_epoch = epoch,
                                  snap_mls_state = st, snap_my_leaf_index = leaf\<rparr>])))))"

definition try_join_from_welcome ::
  "'x client_services \<Rightarrow> room_id \<Rightarrow> bytes \<Rightarrow> 'x client \<Rightarrow>
     'x client \<times> (client_error + 'x mls_group \<times> mls_action list)" where
  "try_join_from_welcome cs room_id welcome c =
     (if cl_pending_joins c = []
      then (c, Inl (CL_Mls ''No pending KeyPackage state - call generate_key_package first''))
      else
        (c\<lparr>cl_pending_joins := butlast (cl_pending_joins c)\<rparr>,
         case join_from_welcome (cs_openmls cs) room_id (cl_sender_id c) welcome (last (cl_pending_joins c)) of
           Inl e \<Rightarrow> Inl (mls_failure e)
         | Inr joined \<Rightarrow> Inr joined))"

text \<open>The common body of \<^verbatim>\<open>handle_welcome\<close> and \<^verbatim>\<open>handle_join_room\<close>, with the end of the log message.\<close>

definition join_with ::
  "string \<Rightarrow> 'x client_services \<Rightarrow> room_id \<Rightarrow> bytes \<Rightarrow> 'x client \<Rightarrow> 'x client_result" where
  "join_with via cs room_id welcome c =
     (if cl_rooms c room_id \<noteq> None then Done (c, Inl (CL_RoomAlreadyExists room_id))
      else case try_join_from_welcome cs room_id welcome c of
        (c1, Inl e) \<Rightarrow> Done (c1, Inl e)
      | (c1, Inr (g, mls_actions)) \<Rightarrow>
          (case initialize_sender_keys cs g of
             Panic \<Rightarrow> Panic
           | Done (Inl e) \<Rightarrow> Done (c1, Inl e)
           | Done (Inr keys) \<Rightarrow>
               Done (c1\<lparr>cl_rooms := (cl_rooms c1)(room_id \<mapsto>
                        \<lparr>rs_mls_group = g, rs_sender_keys = keys, my_leaf_index = own_leaf_index (cs_openmls cs) g\<rparr>)\<rparr>,
                     Inr (convert_mls_actions room_id mls_actions
                       @ [CA_Log (''Joined room '' @ show_hex room_id @ via)]))))"

definition handle_welcome :: "'x client_services \<Rightarrow> room_id \<Rightarrow> frame \<Rightarrow> 'x client \<Rightarrow> 'x client_result" where
  "handle_welcome cs room_id f c = join_with '' via Welcome'' cs room_id (payload f) c"

definition handle_join_room :: "'x client_services \<Rightarrow> room_id \<Rightarrow> bytes \<Rightarrow> 'x client \<Rightarrow> 'x client_result" where
  "handle_join_room cs room_id welcome c = join_with '' via JoinRoom event'' cs room_id welcome c"

text \<open>
  The loop over the frames of a sync response, with the handler of a single frame as an argument:
  an undecodable frame ends it, a frame that is handled with an error is logged.
\<close>

fun handle_sync_frames ::
  "(frame \<Rightarrow> 'x client \<Rightarrow> 'x client_result option) \<Rightarrow> nat \<Rightarrow> bytes list \<Rightarrow> 'x client \<Rightarrow>
     client_action list \<Rightarrow> 'x client_result option" where
  "handle_sync_frames handler i [] c actions = Some (Done (c, Inr actions))"
| "handle_sync_frames handler i (frame_bytes # rest) c actions =
     (case decode frame_bytes of
        Inl e \<Rightarrow> Some (Done (c, Inl (CL_InvalidFrame (''Failed to decode sync frame '' @ show_nat i @ '': ''
                   @ show_protocol_error e))))
      | Inr f \<Rightarrow>
          (case handler f c of
             None \<Rightarrow> None
           | Some Panic \<Rightarrow> Some Panic
           | Some (Done (c1, Inr acts)) \<Rightarrow> handle_sync_frames handler (Suc i) rest c1 (actions @ acts)
           | Some (Done (c1, Inl e)) \<Rightarrow>
               handle_sync_frames handler (Suc i) rest c1
                 (actions @ [CA_Log (''Sync frame '' @ show_nat i @ '' processing error (may be expected): ''
                    @ show_client_error e)])))"

definition handle_sync_response ::
  "(frame \<Rightarrow> 'x client \<Rightarrow> 'x client_result option) \<Rightarrow> 'x client_services \<Rightarrow> room_id \<Rightarrow> frame \<Rightarrow> 'x client \<Rightarrow>
     'x client_result option" where
  "handle_sync_response handler cs room_id f c =
     (case de_sync_response (cs_cbor cs) (payload f) of
        Inl e \<Rightarrow> Some (Done (c, Inl (CL_InvalidFrame (''Failed to decode SyncResponse: '' @ e))))
      | Inr resp \<Rightarrow>
          (case handle_sync_frames handler 0 (sync_frames resp) c
              [CA_Log (''Processing sync response for room '' @ show_hex room_id @ '': ''
                 @ show_nat (length (sync_frames resp)) @ '' frames, has_more=''
                 @ (if has_more resp then ''true'' else ''false'') @ '', server_epoch=''
                 @ show_word (server_epoch resp))] of
             None \<Rightarrow> None
           | Some Panic \<Rightarrow> Some Panic
           | Some (Done (c1, Inl e)) \<Rightarrow> Some (Done (c1, Inl e))
           | Some (Done (c1, Inr actions)) \<Rightarrow>
               let current_epoch = (case client_epoch cs c1 room_id of Some e \<Rightarrow> e | None \<Rightarrow> 0) in
               Some (Done (c1, Inr (actions @
                 (if has_more resp then
                    [CA_RequestSync room_id current_epoch (server_epoch resp),
                     CA_Log (''Sync incomplete, requesting more frames for room '' @ show_hex room_id
                       @ '' (current epoch: '' @ show_word current_epoch @ '', target: ''
                       @ show_word (server_epoch resp) @ '')'')]
                  else
                    [CA_Log (''Sync complete for room '' @ show_hex room_id @ '', now at epoch ''
                       @ show_word current_epoch)]))))))"

fun client_handle_frame ::
  "nat \<Rightarrow> 'x client_services \<Rightarrow> frame \<Rightarrow> 'x client \<Rightarrow> 'x client_result option" where
  "client_handle_frame 0 cs f c = None"
| "client_handle_frame (Suc depth) cs f c =
     (let room_id = header_room_id (header f) in
      case opcode_enum (header f) of
        None \<Rightarrow> Some (Done (c, Inl (CL_InvalidFrame (''Unknown opcode: '' @ show_word (header_opcode (header f))))))
      | Some op \<Rightarrow>
          if op = Op_AppMessage then Some (handle_app_message cs room_id f c)
          else if op = Op_Commit then Some (handle_commit cs room_id f c)
          else if op = Op_Welcome then Some (handle_welcome cs room_id f c)
          else if op = Op_SyncResponse
          then handle_sync_response (client_handle_frame depth cs) cs room_id f c
          else Some (Done (process_mls_message cs room_id f c)))"

definition handle_add_members ::
  "'x client_services \<Rightarrow> 'x client_inputs \<Rightarrow> room_id \<Rightarrow> bytes list \<Rightarrow> 'x client \<Rightarrow> 'x client_result" where
  "handle_add_members cs inp room_id key_packages c =
     (case cl_rooms c room_id of
        None \<Rightarrow> Done (c, Inl (CL_RoomNotFound room_id))
      | Some room \<Rightarrow>
          (case add_members_from_bytes (cs_openmls cs) (in_now inp) key_packages (rs_mls_group room) of
             (g, res) \<Rightarrow>
               Done (c\<lparr>cl_rooms := (cl_rooms c)(room_id \<mapsto> room\<lparr>rs_mls_group := g\<rparr>)\<rparr>,
                 case res of
                   Inl e \<Rightarrow> Inl (mls_failure e)
                 | Inr mls_actions \<Rightarrow> Inr (convert_mls_actions room_id mls_actions))))"

fun tick_rooms ::
  "'x client_services \<Rightarrow> instant \<Rightarrow> room_id list \<Rightarrow> 'x client \<Rightarrow> 'x client \<times> client_action list" where
  "tick_rooms cs now [] c = (c, [])"
| "tick_rooms cs now (room_id # rest) c =
     (case cl_rooms c room_id of
        None \<Rightarrow> tick_rooms cs now rest c
      | Some room \<Rightarrow>
          if is_commit_timeout (rs_mls_group room) now COMMIT_TIMEOUT then
            (let current_epoch = grp_epoch (cs_openmls cs) (rs_mls_group room);
                 c1 = c\<lparr>cl_rooms := (cl_rooms c)(room_id \<mapsto>
                        room\<lparr>rs_mls_group := clear_pending_commit (cs_openmls cs) (rs_mls_group room)\<rparr>)\<rparr>;
                 (c2, actions) = tick_rooms cs now rest c1
             in (c2, CA_RequestSync room_id current_epoch (saturating_add current_epoch 1)
                   # CA_Log (''Commit timeout in room '' @ show_hex room_id @ '', requesting sync from epoch ''
                       @ show_word current_epoch)
                   # actions))
          else tick_rooms cs now rest c)"

definition client_handle_tick :: "'x client_services \<Rightarrow> instant \<Rightarrow> 'x client \<Rightarrow> 'x client_result" where
  "client_handle_tick cs now c =
     (let (c1, actions) = tick_rooms cs now (cs_order cs (dom (cl_rooms c))) c in Done (c1, Inr actions))"

definition handle_leave_room :: "room_id \<Rightarrow> 'x client \<Rightarrow> 'x client_result" where
  "handle_leave_room room_id c =
     (if cl_rooms c room_id = None then Done (c, Inl (CL_RoomNotFound room_id))
      else Done (c\<lparr>cl_rooms := (cl_rooms c)(room_id := None)\<rparr>, Inr [CA_RoomRemoved room_id ''Left room'']))"

definition client_handle ::
  "nat \<Rightarrow> 'x client_services \<Rightarrow> 'x client_inputs \<Rightarrow> client_event \<Rightarrow> 'x client \<Rightarrow> 'x client_result option" where
  "client_handle depth cs inp event c =
     (case event of
        CEv_CreateRoom room_id \<Rightarrow> Some (handle_create_room cs inp room_id c)
      | CEv_SendMessage room_id plaintext \<Rightarrow> Some (handle_send_message cs inp room_id plaintext c)
      | CEv_FrameReceived f \<Rightarrow> client_handle_frame depth cs f c
      | CEv_Tick now \<Rightarrow> Some (client_handle_tick cs now c)
      | CEv_LeaveRoom room_id \<Rightarrow> Some (handle_leave_room room_id c)
      | CEv_JoinRoom room_id welcome \<Rightarrow> Some (handle_join_room cs room_id welcome c)
      | CEv_AddMembers room_id key_packages \<Rightarrow> Some (handle_add_members cs inp room_id key_packages c))"

section \<open>Nested sync responses\<close>

text \<open>
  A byte string decoded from CBOR is part of the input, so the frames of a sync response are no
  longer than its payload.
\<close>

definition cbor_contained :: "ciborium \<Rightarrow> bool" where
  "cbor_contained cb \<longleftrightarrow>
     (\<forall>bs resp b. de_sync_response cb bs = Inr resp \<longrightarrow> b \<in> set (sync_frames resp) \<longrightarrow> length b \<le> length bs)"

lemma decode_payload_shorter:
  assumes "decode bs = Inr f"
  shows "length (payload f) < length bs"
proof -
  obtain rest where "wf_frame f" "bs = wire f @ rest" using decode_InrD [OF assms] by blast
  then show ?thesis using length_wire [of f] by (simp add: HEADER_SIZE_def)
qed

lemma handle_sync_frames_cong:
  assumes "\<And>f b c. b \<in> set bs \<Longrightarrow> decode b = Inr f \<Longrightarrow> h f c = h' f c"
  shows "handle_sync_frames h i bs c acts = handle_sync_frames h' i bs c acts"
  using assms
proof (induction bs arbitrary: i c acts)
  case (Cons b bs)
  show ?case
  proof (cases "decode b")
    case (Inr f)
    moreover have "h f c = h' f c" using Cons.prems [OF _ Inr] by (meson list.set_intros(1))
    moreover have "handle_sync_frames h j bs c' acts' = handle_sync_frames h' j bs c' acts'" for j c' acts'
      using Cons.IH Cons.prems by (meson list.set_intros(2))
    ultimately show ?thesis by (simp split: option.split exec.split sum.split)
  qed simp
qed simp

lemma handle_sync_frames_total:
  assumes "\<And>f b c. b \<in> set bs \<Longrightarrow> decode b = Inr f \<Longrightarrow> h f c \<noteq> None"
  shows "handle_sync_frames h i bs c acts \<noteq> None"
  using assms
proof (induction bs arbitrary: i c acts)
  case (Cons b bs)
  have IH: "handle_sync_frames h j bs c' acts' \<noteq> None" for j c' acts'
    using Cons.IH Cons.prems by (meson list.set_intros(2))
  show ?case
  proof (cases "decode b")
    case (Inr f)
    moreover have "h f c \<noteq> None" using Cons.prems [OF _ Inr] by (meson list.set_intros(1))
    ultimately show ?thesis
      using IH by (auto split: option.split exec.split sum.split)
  qed simp
qed simp

lemma handle_sync_response_cong:
  assumes "\<And>resp i acts. de_sync_response (cs_cbor cs) (payload f) = Inr resp \<Longrightarrow>
    handle_sync_frames h i (sync_frames resp) c acts = handle_sync_frames h' i (sync_frames resp) c acts"
  shows "handle_sync_response h cs r f c = handle_sync_response h' cs r f c"
  using assms unfolding handle_sync_response_def by (cases "de_sync_response (cs_cbor cs) (payload f)") simp_all

lemma handle_sync_response_total:
  assumes "\<And>resp i acts. de_sync_response (cs_cbor cs) (payload f) = Inr resp \<Longrightarrow>
    handle_sync_frames h i (sync_frames resp) c acts \<noteq> None"
  shows "handle_sync_response h cs r f c \<noteq> None"
proof (cases "de_sync_response (cs_cbor cs) (payload f)")
  case (Inr resp)
  obtain res where "handle_sync_frames h 0 (sync_frames resp) c
      [CA_Log (''Processing sync response for room '' @ show_hex r @ '': ''
         @ show_nat (length (sync_frames resp)) @ '' frames, has_more=''
         @ (if has_more resp then ''true'' else ''false'') @ '', server_epoch=''
         @ show_word (server_epoch resp))] = Some res"
    using assms [OF Inr] by blast
  then show ?thesis
    unfolding handle_sync_response_def Inr by (cases res) (simp_all add: Let_def split: prod.split sum.split)
qed (simp add: handle_sync_response_def)

lemma handle_frame_depth:
  assumes "cbor_contained (cs_cbor cs)"
  shows "length (payload f) < n \<Longrightarrow> length (payload f) < m \<Longrightarrow>
    client_handle_frame n cs f c = client_handle_frame m cs f c \<and> client_handle_frame n cs f c \<noteq> None"
proof (induction n arbitrary: m f c)
  case (Suc n)
  then obtain m' where m: "m = Suc m'" by (cases m) auto
  have shorter: "length (payload g) < n \<and> length (payload g) < m'"
    if "de_sync_response (cs_cbor cs) (payload f) = Inr resp" "b \<in> set (sync_frames resp)" "decode b = Inr g" for resp b g
    using that assms decode_payload_shorter [OF that(3)] Suc.prems m unfolding cbor_contained_def by fastforce
  have same: "handle_sync_frames (client_handle_frame n cs) i (sync_frames resp) c acts =
      handle_sync_frames (client_handle_frame m' cs) i (sync_frames resp) c acts"
    and total: "handle_sync_frames (client_handle_frame n cs) i (sync_frames resp) c acts \<noteq> None"
    if "de_sync_response (cs_cbor cs) (payload f) = Inr resp" for resp i acts
    using Suc.IH shorter [OF that]
    by (intro handle_sync_frames_cong handle_sync_frames_total; meson)+
  have "handle_sync_response (client_handle_frame n cs) cs r f c =
      handle_sync_response (client_handle_frame m' cs) cs r f c"
    and "handle_sync_response (client_handle_frame n cs) cs r f c \<noteq> None" for r
    using handle_sync_response_cong [OF same] handle_sync_response_total [OF total] by blast+
  then show ?case
    unfolding m by (simp add: Let_def split: option.split)
qed simp

section \<open>Invariants of received frames\<close>

lemma handle_frame_cases:
  assumes "client_handle_frame depth cs f c = Some (Done (c', res))"
  obtains (Unknown) "c' = c"
    | (App) "handle_app_message cs (header_room_id (header f)) f c = Done (c', res)"
    | (Commit) "opcode_enum (header f) = Some Op_Commit"
        "handle_commit cs (header_room_id (header f)) f c = Done (c', res)"
    | (Welcome) "handle_welcome cs (header_room_id (header f)) f c = Done (c', res)"
    | (Sync) d where "depth = Suc d" "opcode_enum (header f) = Some Op_SyncResponse"
        "handle_sync_response (client_handle_frame d cs) cs (header_room_id (header f)) f c = Some (Done (c', res))"
    | (Other) "process_mls_message cs (header_room_id (header f)) f c = (c', res)"
  using assms by (cases depth) (auto simp: Let_def split: option.splits if_splits)

locale client_invariant =
  fixes cs :: "'x client_services" and inv :: "'x client \<Rightarrow> bool"
  assumes app: "inv c \<Longrightarrow> handle_app_message cs r f c = Done (c', res) \<Longrightarrow> inv c'"
    and commit: "inv c \<Longrightarrow> handle_commit cs r f c = Done (c', res) \<Longrightarrow> inv c'"
    and join: "inv c \<Longrightarrow> join_with via cs r bs c = Done (c', res) \<Longrightarrow> inv c'"
    and mls: "inv c \<Longrightarrow> process_mls_message cs r f c = (c', res) \<Longrightarrow> inv c'"
begin

lemma sync_frames_inv:
  assumes "\<forall>f c c' res. inv c \<longrightarrow> h f c = Some (Done (c', res)) \<longrightarrow> inv c'"
  shows "inv c \<Longrightarrow> handle_sync_frames h i bs c acts = Some (Done (c', res)) \<Longrightarrow> inv c'"
proof (induction bs arbitrary: i c acts)
  case (Cons b bs)
  obtain f where f: "c' = c \<or> decode b = Inr f" using Cons.prems(2) by (auto split: sum.splits)
  show ?case
  proof (cases "h f c")
    case (Some x)
    show ?thesis
    proof (cases x)
      case (Done p)
      obtain c1 res1 where p: "p = (c1, res1)" by (cases p)
      then have "inv c1" using assms Cons.prems(1) Some Done by blast
      with Cons f Some Done p show ?thesis by (cases res1) (auto split: sum.splits)
    qed (use f Some Cons.prems in \<open>auto split: sum.splits\<close>)
  qed (use f Cons.prems in \<open>auto split: sum.splits\<close>)
qed simp

lemma sync_response_inv:
  assumes "\<forall>f c c' res. inv c \<longrightarrow> h f c = Some (Done (c', res)) \<longrightarrow> inv c'" and "inv c"
    and "handle_sync_response h cs r f c = Some (Done (c', res))"
  shows "inv c'"
  using assms(2,3) sync_frames_inv [OF assms(1,2)] unfolding handle_sync_response_def Let_def
  by (fastforce split: sum.splits option.splits exec.splits prod.splits simp del: append.simps)

lemma handle_frame_inv:
  "inv c \<Longrightarrow> client_handle_frame depth cs f c = Some (Done (c', res)) \<Longrightarrow> inv c'"
proof (induction depth arbitrary: f c c' res)
  case (Suc depth)
  have sync: "handle_sync_response (client_handle_frame depth cs) cs r f c = Some (Done (c', res)) \<Longrightarrow> inv c'" for r
    using sync_response_inv [of "client_handle_frame depth cs"] Suc.IH Suc.prems(1) by blast
  from Suc.prems(2) show ?case
    by (cases rule: handle_frame_cases)
      (use app [OF Suc.prems(1)] commit [OF Suc.prems(1)] join [OF Suc.prems(1)] mls [OF Suc.prems(1)] sync
        Suc.prems(1) in \<open>auto simp: handle_welcome_def\<close>)
qed simp

end

text \<open>The groups of a client are its own, each under the room it was created or joined for.\<close>

definition rooms_of :: "u64 \<Rightarrow> 'x client \<Rightarrow> bool" where
  "rooms_of s c \<longleftrightarrow> cl_sender_id c = s \<and>
     (\<forall>r room. cl_rooms c r = Some room \<longrightarrow>
        grp_room_id (rs_mls_group room) = r \<and> grp_member_id (rs_mls_group room) = s)"

definition same_identity :: "'x mls_group \<Rightarrow> 'x mls_group \<Rightarrow> bool" where
  "same_identity g' g \<longleftrightarrow> grp_room_id g' = grp_room_id g \<and> grp_member_id g' = grp_member_id g"

lemma rooms_of_update:
  assumes "rooms_of s c" and "cl_rooms c r = Some room" and "same_identity (rs_mls_group room') (rs_mls_group room)"
  shows "rooms_of s (c\<lparr>cl_rooms := (cl_rooms c)(r \<mapsto> room')\<rparr>)"
  using assms by (auto simp: rooms_of_def same_identity_def)

lemma process_message_identity: "same_identity (fst (grp_process_message om f g)) g"
  by (simp add: grp_process_message_def same_identity_def Let_def
      split: sum.split prod.split processed_content.split)

lemma add_members_identity: "same_identity (fst (add_members_from_bytes om now kps g)) g"
  by (simp add: add_members_from_bytes_def grp_add_members_def same_identity_def Let_def split: sum.split prod.split)

lemma rooms_of_mls:
  "rooms_of s c \<Longrightarrow> process_mls_message cs r f c = (c', res) \<Longrightarrow> rooms_of s c'"
  using process_message_identity [of "cs_openmls cs" f]
  by (auto simp: process_mls_message_def split: option.splits prod.splits intro!: rooms_of_update)
    (metis fst_conv)

lemma rooms_of_commit:
  assumes "rooms_of s c" and "handle_commit cs r f c = Done (c', res)"
  shows "rooms_of s c'"
proof -
  obtain c1 res1 where p: "process_mls_message cs r f c = (c1, res1)" by fastforce
  with assms(1) have "rooms_of s c1" by (rule rooms_of_mls)
  with assms(2) p show ?thesis
    by (auto simp: handle_commit_def Let_def same_identity_def split: sum.splits option.splits exec.splits
        intro!: rooms_of_update)
qed

lemma rooms_of_app:
  "rooms_of s c \<Longrightarrow> handle_app_message cs r f c = Done (c', res) \<Longrightarrow> rooms_of s c'"
  by (auto simp: handle_app_message_def Let_def same_identity_def
      split: option.splits if_splits sum.splits prod.splits intro!: rooms_of_update)

lemma rooms_of_join:
  "rooms_of s c \<Longrightarrow> join_with via cs r bs c = Done (c', res) \<Longrightarrow> rooms_of s c'"
  by (auto simp: join_with_def try_join_from_welcome_def join_from_welcome_def rooms_of_def
      split: option.splits if_splits sum.splits prod.splits exec.splits)

interpretation own: client_invariant cs "rooms_of s" for cs s
  by unfold_locales (fact rooms_of_app rooms_of_commit rooms_of_join rooms_of_mls)+

lemma dom_update: "D \<subseteq> dom m \<Longrightarrow> D \<subseteq> dom (m(r \<mapsto> x))"
  by auto

interpretation keeps: client_invariant cs "\<lambda>c. D \<subseteq> dom (cl_rooms c)" for cs D
proof unfold_locales
  show mls: "D \<subseteq> dom (cl_rooms c')"
    if "D \<subseteq> dom (cl_rooms c)" "process_mls_message cs r f c = (c', res)" for c c' :: "'a client" and r f res
    using that by (auto simp: process_mls_message_def split: option.splits prod.splits)
  show "D \<subseteq> dom (cl_rooms c')"
    if "D \<subseteq> dom (cl_rooms c)" "handle_commit cs r f c = Done (c', res)" for c c' :: "'a client" and r f res
  proof -
    obtain c1 res1 where p: "process_mls_message cs r f c = (c1, res1)" by fastforce
    with that(1) have "D \<subseteq> dom (cl_rooms c1)" by (rule mls)
    with that(2) p show ?thesis
      by (auto simp: handle_commit_def Let_def split: sum.splits option.splits exec.splits)
  qed
  show "D \<subseteq> dom (cl_rooms c')"
    if "D \<subseteq> dom (cl_rooms c)" "handle_app_message cs r f c = Done (c', res)" for c c' :: "'a client" and r f res
    using that by (auto simp: handle_app_message_def Let_def split: option.splits if_splits sum.splits prod.splits)
  show "D \<subseteq> dom (cl_rooms c')"
    if "D \<subseteq> dom (cl_rooms c)" "join_with via cs r bs c = Done (c', res)" for via and c c' :: "'a client" and r bs res
    using that by (auto simp: join_with_def try_join_from_welcome_def
        split: option.splits if_splits sum.splits prod.splits exec.splits)
qed

section \<open>The client as a machine\<close>

text \<open>A call of \<^verbatim>\<open>Client::handle\<close> or \<^verbatim>\<open>generate_key_package\<close> by the application.\<close>

datatype 'x client_call =
    Handle_Event nat "'x client_inputs" client_event
  | Generate_Key_Package "'x client_inputs"

fun client_step ::
  "'x client_services \<Rightarrow> 'x client_call \<Rightarrow> 'x client \<Rightarrow>
     'x client \<times> (client_error + client_action list) exec option" where
  "client_step cs (Handle_Event depth inp event) c =
     (case client_handle depth cs inp event c of
        Some (Done (c', res)) \<Rightarrow> (c', Some (Done res))
      | Some Panic \<Rightarrow> (c, Some Panic)
      | None \<Rightarrow> (c, None))"
| "client_step cs (Generate_Key_Package inp) c =
     (fst (client_generate_key_package cs inp c), Some (Done (Inr [])))"

lemma tick_rooms_inv: "rooms_of s c \<Longrightarrow> rooms_of s (fst (tick_rooms cs now rs c))"
proof (induction rs arbitrary: c)
  case (Cons r rs)
  then show ?case
    using rooms_of_update [OF Cons.prems]
    by (auto simp: Let_def split_beta same_identity_def clear_pending_commit_def split: option.split)
qed simp

lemma rooms_of_handle:
  assumes "rooms_of s c" and "client_handle depth cs inp event c = Some (Done (c', res))"
  shows "rooms_of s c'"
proof (cases event)
  case (CEv_CreateRoom r)
  with assms show ?thesis
    by (auto simp: client_handle_def handle_create_room_def mls_group_new_def Let_def rooms_of_def
        split: if_splits sum.splits exec.splits prod.splits)
next
  case (CEv_SendMessage r p)
  with assms show ?thesis
    by (auto simp: client_handle_def handle_send_message_def Let_def same_identity_def
        split: option.splits sum.splits exec.splits prod.splits intro!: rooms_of_update)
next
  case (CEv_FrameReceived f)
  with assms own.handle_frame_inv show ?thesis by (auto simp: client_handle_def)
next
  case (CEv_Tick now)
  with assms tick_rooms_inv [OF assms(1), of cs now] show ?thesis
    by (auto simp: client_handle_def client_handle_tick_def split_beta Let_def)
next
  case (CEv_LeaveRoom r)
  with assms show ?thesis
    by (auto simp: client_handle_def handle_leave_room_def rooms_of_def split: if_splits)
next
  case (CEv_JoinRoom r bs)
  with assms rooms_of_join show ?thesis by (auto simp: client_handle_def handle_join_room_def)
next
  case (CEv_AddMembers r kps)
  with assms add_members_identity [of "cs_openmls cs" "in_now inp" kps] show ?thesis
    by (auto simp: client_handle_def handle_add_members_def split: option.splits prod.splits intro!: rooms_of_update)
      (metis fst_conv)
qed

interpretation identity: preserved_by "client_step cs" "rooms_of s" for cs s
proof unfold_locales
  show "rooms_of s (fst (client_step cs e c))" if "rooms_of s c" for e and c :: "'a client"
  proof (cases e)
    case (Handle_Event depth inp event)
    with rooms_of_handle [OF that] that show ?thesis by (auto split: option.split exec.split)
  next
    case (Generate_Key_Package inp)
    with that show ?thesis
      by (auto simp: client_generate_key_package_def rooms_of_def split: sum.split prod.split)
  qed
qed

section \<open>Spent message keys\<close>

text \<open>The key of generation \<open>n\<close> of the sender at leaf \<open>i\<close> is spent in a store, and in a room.\<close>

definition spent_in :: "u64 \<Rightarrow> u32 \<Rightarrow> u32 \<Rightarrow> sender_key_store \<Rightarrow> bool" where
  "spent_in e i n st \<longleftrightarrow>
     store_epoch st = e \<and> (\<exists>q. ratchets st i = Some q \<and> n < ratchet_generation q)"

definition spent :: "room_id \<Rightarrow> u64 \<Rightarrow> u32 \<Rightarrow> u32 \<Rightarrow> 'x client \<Rightarrow> bool" where
  "spent r e i n c \<longleftrightarrow> (\<exists>room. cl_rooms c r = Some room \<and> spent_in e i n (rs_sender_keys room))"

lemma spent_update:
  assumes "spent r e i n c" and "cl_rooms c r' = Some room"
    and "spent_in e i n (rs_sender_keys room) \<Longrightarrow> spent_in e i n (rs_sender_keys room')"
  shows "spent r e i n (c\<lparr>cl_rooms := (cl_rooms c)(r' \<mapsto> room')\<rparr>)"
  using assms by (auto simp: spent_def)

lemma spent_new_room:
  "spent r e i n c \<Longrightarrow> cl_rooms c r' = None \<Longrightarrow> spent r e i n (c\<lparr>cl_rooms := (cl_rooms c)(r' \<mapsto> room')\<rparr>)"
  by (auto simp: spent_def)

lemma spent_pending [simp]: "spent r e i n (c\<lparr>cl_pending_joins := ps\<rparr>) = spent r e i n c"
  by (simp add: spent_def)

lemma decrypt_keeps_spent:
  assumes "spent_in e i n st"
  shows "spent_in e i n (fst (store_decrypt cr m st))"
proof -
  obtain q where q: "store_epoch st = e" "ratchets st i = Some q" "n < ratchet_generation q"
    using assms by (auto simp: spent_in_def)
  have "n < ratchet_generation (fst (advance_to cr (sealed_generation m) q))"
    using ratchet_step_mono [of q cr "AdvanceTo (sealed_generation m)"] q(3) by simp
  then show ?thesis
    using q unfolding store_decrypt_def spent_in_def
    by (auto split: option.split prod.split sum.split)
qed

lemma encrypt_keeps_spent:
  assumes "spent_in e i n st" and "store_encrypt cr j p rnd st = Done (st', res)"
  shows "spent_in e i n st'"
proof (cases res)
  case (Inl x)
  with store_encrypt_Inl [OF assms(2) [unfolded Inl]] assms(1) show ?thesis by simp
next
  case (Inr m)
  from store_encrypt_Inr [OF assms(2) [unfolded Inr]] obtain q q' where
    "ratchets st j = Some q" "st' = st\<lparr>ratchets := (ratchets st)(j \<mapsto> q')\<rparr>"
    "ratchet_generation q < ratchet_generation q'" .
  with assms(1) show ?thesis by (auto simp: spent_in_def)
qed

lemma spent_refused:
  assumes "spent_in e (sealed_sender_index m) (sealed_generation m) st"
  shows "\<exists>x. store_decrypt cr m st = (st, Inl x)"
  using assms by (auto simp: spent_in_def store_decrypt_def advance_to_eq Let_def fun_upd_idem_iff)

lemma opened_spent:
  assumes "store_decrypt cr m st = (st', Inr p)"
  shows "spent_in (store_epoch st) (sealed_sender_index m) (sealed_generation m) st'"
proof -
  obtain q q' k where "ratchets st (sealed_sender_index m) = Some q"
      "advance_to cr (sealed_generation m) q = (q', Inr k)"
      "st' = st\<lparr>ratchets := (ratchets st)(sealed_sender_index m \<mapsto> q')\<rparr>"
    using assms by (auto simp: store_decrypt_def split: if_splits option.splits prod.splits sum.splits)
  moreover from this ratchet_step_key(2) [of cr "AdvanceTo (sealed_generation m)" q q' k]
  have "sealed_generation m < ratchet_generation q'"
    by (auto simp: advance_to_eq Let_def split: if_splits)
  ultimately show ?thesis by (simp add: spent_in_def)
qed

text \<open>What does not derive the keys of an existing room anew, and does not leave it.\<close>

fun keeps_keys :: "'x client_call \<Rightarrow> bool" where
  "keeps_keys (Handle_Event depth inp (CEv_FrameReceived f)) \<longleftrightarrow>
     opcode_enum (header f) \<noteq> Some Op_Commit \<and> opcode_enum (header f) \<noteq> Some Op_SyncResponse"
| "keeps_keys (Handle_Event depth inp (CEv_LeaveRoom r)) \<longleftrightarrow> False"
| "keeps_keys _ \<longleftrightarrow> True"

lemma app_message_state:
  assumes "handle_app_message cs r f c = Done (c', res)"
  shows "c' = c \<or> (\<exists>room m. cl_rooms c r = Some room \<and> c' = c\<lparr>cl_rooms := (cl_rooms c)(r \<mapsto>
    room\<lparr>rs_sender_keys := fst (store_decrypt (cs_crypto cs) m (rs_sender_keys room))\<rparr>)\<rparr>)"
  using assms unfolding handle_app_message_def Let_def split_beta
  by (fastforce split: option.splits if_splits sum.splits simp del: append.simps)

lemma spent_app:
  "spent r e i n c \<Longrightarrow> handle_app_message cs r' f c = Done (c', res) \<Longrightarrow> spent r e i n c'"
  using app_message_state [of cs r' f c c' res]
  by (auto intro!: spent_update decrypt_keeps_spent)

lemma spent_mls:
  "spent r e i n c \<Longrightarrow> process_mls_message cs r' f c = (c', res) \<Longrightarrow> spent r e i n c'"
  by (auto simp: process_mls_message_def split: option.splits prod.splits intro!: spent_update)

lemma spent_join:
  "spent r e i n c \<Longrightarrow> join_with via cs r' bs c = Done (c', res) \<Longrightarrow> spent r e i n c'"
  by (auto simp: join_with_def try_join_from_welcome_def spent_def
      split: option.splits if_splits sum.splits prod.splits exec.splits)

lemma spent_create:
  "spent r e i n c \<Longrightarrow> handle_create_room cs inp r' c = Done (c', res) \<Longrightarrow> spent r e i n c'"
  by (auto simp: handle_create_room_def Let_def split: if_splits sum.splits prod.splits exec.splits
      intro!: spent_new_room)

lemma spent_send:
  "spent r e i n c \<Longrightarrow> handle_send_message cs inp r' p c = Done (c', res) \<Longrightarrow> spent r e i n c'"
  by (auto simp: handle_send_message_def Let_def encrypt_keeps_spent intro!: spent_update
      split: option.splits sum.splits prod.splits exec.splits)

lemma spent_tick: "spent r e i n c \<Longrightarrow> spent r e i n (fst (tick_rooms cs now rs c))"
proof (induction rs arbitrary: c)
  case (Cons r' rs)
  then show ?case
    using spent_update [OF Cons.prems, of r']
    by (auto simp: Let_def split_beta split: option.split)
qed simp

lemma spent_handle_tick:
  "spent r e i n c \<Longrightarrow> client_handle_tick cs now c = Done (c', res) \<Longrightarrow> spent r e i n c'"
  using spent_tick [of r e i n c cs now "cs_order cs (dom (cl_rooms c))"]
  by (simp add: client_handle_tick_def split_beta Let_def)

lemma spent_add_members:
  "spent r e i n c \<Longrightarrow> handle_add_members cs inp r' kps c = Done (c', res) \<Longrightarrow> spent r e i n c'"
  by (auto simp: handle_add_members_def split: option.splits prod.splits intro!: spent_update)

lemma spent_frame:
  assumes "spent r e i n c" and "client_handle_frame depth cs f c = Some (Done (c', res))"
    and "opcode_enum (header f) \<noteq> Some Op_Commit" and "opcode_enum (header f) \<noteq> Some Op_SyncResponse"
  shows "spent r e i n c'"
  using assms(2)
  by (cases rule: handle_frame_cases)
    (use assms spent_app spent_mls spent_join in \<open>auto simp: handle_welcome_def\<close>)

lemma spent_step:
  assumes "spent r e i n c" and "keeps_keys call"
  shows "spent r e i n (fst (client_step cs call c))"
proof (cases call)
  case (Handle_Event depth inp event)
  have "spent r e i n c'" if "client_handle depth cs inp event c = Some (Done (c', res))" for c' res
    using that assms(2) Handle_Event spent_frame [OF assms(1)] spent_create [OF assms(1)] spent_send [OF assms(1)]
      spent_join [OF assms(1)] spent_handle_tick [OF assms(1)] spent_add_members [OF assms(1)]
    by (cases event) (simp_all add: client_handle_def handle_join_room_def)
  with assms(1) Handle_Event show ?thesis by (auto split: option.split exec.split)
next
  case (Generate_Key_Package inp)
  with assms(1) show ?thesis
    by (auto simp: client_generate_key_package_def split: sum.split prod.split)
qed

lemma spent_run:
  "spent r e i n c \<Longrightarrow> \<forall>call\<in>set calls. keeps_keys call \<Longrightarrow> spent r e i n (run_events (client_step cs) calls c)"
  by (induction calls arbitrary: c) (simp_all add: spent_step)

lemma app_message_delivered:
  assumes "handle_app_message cs r f c = Done (c', Inr acts)"
  obtains room m keys p where "cl_rooms c r = Some room"
    "header_epoch (header f) = grp_epoch (cs_openmls cs) (rs_mls_group room)"
    "grp_validate_frame (cs_openmls cs) (cs_ed25519 cs) (rs_mls_group room) f
       (Some (export_validation_state (cs_openmls cs) (rs_mls_group room))) = Inr ()"
    "de_encrypted_message (cs_cbor cs) (payload f) = Inr m"
    "member_id_by_leaf_index (cs_openmls cs) (rs_mls_group room) (msg_sender_index m) = Some (header_sender_id (header f))"
    "store_decrypt (cs_crypto cs) (proto_to_crypto_encrypted m) (rs_sender_keys room) = (keys, Inr p)"
    "c' = c\<lparr>cl_rooms := (cl_rooms c)(r \<mapsto> room\<lparr>rs_sender_keys := keys\<rparr>)\<rparr>"
    "acts = [CA_DeliverMessage r (header_sender_id (header f)) p
       (header_log_index (header f)) (header_hlc_timestamp (header f))]"
  using assms
  by (auto simp: handle_app_message_def Let_def deserialize_encrypted_message_def
      split: option.splits if_splits sum.splits prod.splits)

lemma spent_not_delivered:
  assumes "de_encrypted_message (cs_cbor cs) (payload f) = Inr m"
    and "spent r e (msg_sender_index m) (msg_generation m) c"
  shows "\<exists>x. handle_app_message cs r f c = Done (c, Inl x)"
proof -
  obtain room where room: "cl_rooms c r = Some room"
      "spent_in e (msg_sender_index m) (msg_generation m) (rs_sender_keys room)"
    using assms(2) by (auto simp: spent_def)
  then obtain x where
    "store_decrypt (cs_crypto cs) (proto_to_crypto_encrypted m) (rs_sender_keys room) = (rs_sender_keys room, Inl x)"
    using spent_refused [of e "proto_to_crypto_encrypted m"] by (auto simp: proto_to_crypto_encrypted_def)
  with room assms(1) show ?thesis
    by (auto simp: handle_app_message_def Let_def deserialize_encrypted_message_def fun_upd_idem_iff
        split: option.split sum.split)
qed

section \<open>Commit timeouts\<close>

lemma cleared_not_timeout [simp]: "\<not> is_commit_timeout (clear_pending_commit om g) now t"
  by (simp add: is_commit_timeout_def clear_pending_commit_def)

lemma tick_rooms_rooms:
  "cl_rooms (fst (tick_rooms cs now rs c)) r =
     map_option (\<lambda>room. if r \<in> set rs \<and> is_commit_timeout (rs_mls_group room) now COMMIT_TIMEOUT
       then room\<lparr>rs_mls_group := clear_pending_commit (cs_openmls cs) (rs_mls_group room)\<rparr> else room) (cl_rooms c r)"
proof (induction rs arbitrary: c)
  case (Cons r' rs)
  show ?case
    by (cases "cl_rooms c r'") (auto simp: Let_def split_beta Cons.IH option.map_comp comp_def intro!: option.map_cong)
qed (simp add: option.map_ident)

definition requests_sync :: "room_id \<Rightarrow> client_action list \<Rightarrow> bool" where
  "requests_sync r acts \<longleftrightarrow> (\<exists>e e'. CA_RequestSync r e e' \<in> set acts)"

lemma requests_sync_simps [simp]:
  "\<not> requests_sync r []"
  "requests_sync r (CA_RequestSync r' e e' # acts) \<longleftrightarrow> r = r' \<or> requests_sync r acts"
  "requests_sync r (CA_Log m # acts) \<longleftrightarrow> requests_sync r acts"
  by (auto simp: requests_sync_def)

lemma tick_rooms_requests:
  "requests_sync r (snd (tick_rooms cs now rs c)) \<longleftrightarrow>
     r \<in> set rs \<and> (\<exists>room. cl_rooms c r = Some room \<and> is_commit_timeout (rs_mls_group room) now COMMIT_TIMEOUT)"
proof (induction rs arbitrary: c)
  case (Cons r' rs)
  show ?case
    by (cases "cl_rooms c r'") (auto simp: Let_def split_beta Cons.IH split: if_splits)
qed simp

section \<open>Keys after a commit\<close>

lemma initialize_sender_keys_Inr:
  "initialize_sender_keys cs g = Done (Inr keys) \<longleftrightarrow>
     (\<exists>secret. grp_export_secret (cs_openmls cs) g SENDER_KEY_EXPORT_LABEL SENDER_KEY_CONTEXT SENDER_KEY_SECRET_SIZE
          = Inr secret \<and>
        initialize_epoch (cs_crypto cs) secret (grp_epoch (cs_openmls cs) g) (member_leaf_indices (cs_openmls cs) g)
          = Done keys)"
  by (auto simp: initialize_sender_keys_def split: sum.split exec.split)

lemma commit_rekeys:
  assumes "handle_commit cs r f c = Done (c', Inr acts)"
  obtains room where "cl_rooms c' r = Some room"
    "initialize_sender_keys cs (rs_mls_group room) = Done (Inr (rs_sender_keys room))"
    "my_leaf_index room = own_leaf_index (cs_openmls cs) (rs_mls_group room)"
  using assms by (auto simp: handle_commit_def Let_def split: prod.splits sum.splits option.splits exec.splits)

section \<open>Properties\<close>

text \<open>
  C10. Received frames are always handled: a sync response may carry sync responses, to any depth, but
  every level is at least a header shorter than the one around it. With a recursion depth above the
  length of the payload the handler returns, and the result does not depend on the depth.
\<close>

theorem frame_handling_terminates:
  assumes "cbor_contained (cs_cbor cs)"
  shows "\<exists>res. \<forall>depth > length (payload f). client_handle_frame depth cs f c = Some res"
proof -
  obtain res where "client_handle_frame (Suc (length (payload f))) cs f c = Some res"
    using handle_frame_depth [OF assms, of f "Suc (length (payload f))" "Suc (length (payload f))" c] by auto
  then show ?thesis
    using handle_frame_depth [OF assms, of f "Suc (length (payload f))" _ c] by (metis lessI)
qed

definition sample_client_services :: "nat client_services" where
  "sample_client_services =
     \<lparr>cs_cbor = sample_cbor\<lparr>de_sync_response := (\<lambda>bs. Inr \<lparr>sync_frames = [bs], has_more = False, server_epoch = 0\<rparr>)\<rparr>,
      cs_openmls = sample_openmls,
      cs_ed25519 = \<lparr>vk_from_bytes = Some, signature_from_slice = Some, vk_verify = (\<lambda>_ _ _. True)\<rparr>,
      cs_crypto = sample_crypto, cs_order = sorted_list_of_set\<rparr>"

lemma sample_services_sel [simp]:
  "cs_openmls sample_client_services = sample_openmls" "cs_crypto sample_client_services = sample_crypto"
  "cs_order sample_client_services = sorted_list_of_set"
  by (simp_all add: sample_client_services_def)

lemma sample_openmls_sel [simp]:
  "om_signer_new sample_openmls = (\<lambda>_. Inr 0)" "om_group_new sample_openmls = (\<lambda>_ _ _. Inr 0)"
  "om_export_secret sample_openmls = (\<lambda>_ _ _ n. Inr (replicate n 0))" "om_epoch sample_openmls = of_nat"
  "om_members sample_openmls = (\<lambda>_. sample_members)" "om_own_leaf_index sample_openmls = (\<lambda>_. 0)"
  "om_signer_sign sample_openmls = (\<lambda>_ m. Some m)" "om_deserialize_exact sample_openmls = (\<lambda>bs. Inr (length bs))"
  "om_protocol_message sample_openmls = Inr" "om_merge_staged_commit sample_openmls = (\<lambda>x _. (x + 1, Inr ()))"
  "om_process_message sample_openmls = (\<lambda>x m. (x, Inr (to_le_bytes (5 :: u64), StagedCommitMessage m)))"
  by (simp_all add: sample_openmls_def)

definition sample_inputs :: "nat client_inputs" where
  "sample_inputs = \<lparr>in_env = 0, in_random = [], in_now = 0\<rparr>"

theorem frame_handling_terminates_witness:
  "cbor_contained (cs_cbor sample_client_services) \<and>
   (\<exists>res. client_handle_frame 3 sample_client_services
       \<lparr>header = header_new Op_SyncResponse, payload = [1, 2]\<rparr> (client_new 5) = Some res)"
proof
  show contained: "cbor_contained (cs_cbor sample_client_services)"
    by (auto simp: cbor_contained_def sample_client_services_def)
  show "\<exists>res. client_handle_frame 3 sample_client_services
       \<lparr>header = header_new Op_SyncResponse, payload = [1, 2]\<rparr> (client_new 5) = Some res"
    using frame_handling_terminates [OF contained,
        of "\<lparr>header = header_new Op_SyncResponse, payload = [1, 2]\<rparr>" "client_new 5"] by auto
qed

text \<open>
  C20. A client's groups are its own: after any calls of the application on a new client, with any
  received frames among them, the group kept under a room identifier was created or joined for that
  room, in the client's own name.
\<close>

theorem client_groups_own:
  assumes "cl_rooms (run_events (client_step cs) calls (client_new s)) r = Some room"
  shows "grp_room_id (rs_mls_group room) = r \<and> grp_member_id (rs_mls_group room) = s"
proof -
  have "rooms_of s (client_new s :: 'a client)" by (simp add: rooms_of_def client_new_def)
  then have "rooms_of s (run_events (client_step cs) calls (client_new s))" by (rule identity.run_inv)
  with assms show ?thesis by (simp add: rooms_of_def)
qed

lemma sample_keys:
  "\<exists>keys. initialize_sender_keys sample_client_services g = Done (Inr keys)"
  by (simp add: initialize_sender_keys_def grp_export_secret_def initialize_epoch_eq sample_crypto_ok)

theorem client_groups_own_witness:
  "\<exists>room. cl_rooms (run_events (client_step sample_client_services)
       [Handle_Event 0 sample_inputs (CEv_CreateRoom 9)] (client_new 5)) 9 = Some room \<and>
     grp_room_id (rs_mls_group room) = 9 \<and> grp_member_id (rs_mls_group room) = 5"
proof -
  let ?g = "\<lparr>grp_room_id = 9, grp_member_id = 5, grp_mls_group = 0, grp_signer = 0, grp_pending_commit = None\<rparr>"
  obtain keys where "initialize_sender_keys sample_client_services ?g = Done (Inr keys)"
    using sample_keys by blast
  then have "\<exists>room. cl_rooms (run_events (client_step sample_client_services)
       [Handle_Event 0 sample_inputs (CEv_CreateRoom 9)] (client_new 5)) 9 = Some room"
    by (simp add: client_handle_def handle_create_room_def client_new_def mls_group_new_def Let_def export_state_def
        grp_export_secret_def)
  then show ?thesis using client_groups_own by blast
qed


definition sample_receiving :: "nat client_services" where
  "sample_receiving = sample_client_services\<lparr>cs_cbor := sample_cbor\<lparr>de_encrypted_message := (\<lambda>_. Inr
     \<lparr>msg_epoch = 2, msg_sender_index = 1, msg_generation = 0, msg_nonce = [], msg_ciphertext = [0, 7],
      push_keys = None\<rparr>)\<rparr>\<rparr>"

definition sample_receiver :: "nat client" where
  "sample_receiver = \<lparr>cl_sender_id = 5, cl_rooms = [9 \<mapsto> \<lparr>rs_mls_group = sample_group,
     rs_sender_keys = \<lparr>store_epoch = 2, ratchets = [1 \<mapsto> ratchet_new [1, 2]]\<rparr>, my_leaf_index = 0\<rparr>],
     cl_pending_joins = []\<rparr>"

definition sample_app_frame :: frame where
  "sample_app_frame = \<lparr>header = set_epoch 2 (set_sender_id 6 (set_room_id 9 (header_new Op_AppMessage))), payload = []\<rparr>"

lemma sample_app_opcode: "opcode_enum (header sample_app_frame) = Some Op_AppMessage"
  by (simp add: sample_app_frame_def)

lemma sample_leaf:
  "om_members sample_openmls x = sample_members"
  "member_id_by_leaf_index sample_openmls sample_group 1 = Some 6"
  by (simp_all add: member_id_by_leaf_index_def sample_members_def extract_member_id_from_credential_def)

lemma sample_valid:
  "grp_validate_frame sample_openmls (cs_ed25519 sample_client_services) sample_group sample_app_frame
     (Some (export_validation_state sample_openmls sample_group)) = Inr ()"
  by (simp add: grp_validate_frame_def validate_frame_def validate_signature_def Let_def export_validation_state_def
      sample_app_frame_def sample_members_def with_keys_def is_member_def member_key_def grp_epoch_def
      sample_group_def sample_client_services_def)

lemma sample_delivery:
  "\<exists>c'. client_handle_frame 1 sample_receiving sample_app_frame sample_receiver =
     Some (Done (c', Inr [CA_DeliverMessage 9 6 [7] 0 (header_hlc_timestamp (header sample_app_frame))]))"
proof -
  have "header_epoch (header sample_app_frame) = 2" "header_sender_id (header sample_app_frame) = 6"
    "opcode_enum (header sample_app_frame) = Some Op_AppMessage" "header_room_id (header sample_app_frame) = 9"
    "header_log_index (header sample_app_frame) = 0"
    by (simp_all add: sample_app_frame_def)
  moreover have "grp_epoch sample_openmls sample_group = 2" by (simp add: grp_epoch_def sample_group_def)
  moreover have "cs_openmls sample_receiving = sample_openmls" "cs_crypto sample_receiving = sample_crypto"
    "cs_ed25519 sample_receiving = cs_ed25519 sample_client_services"
    by (simp_all add: sample_receiving_def)
  ultimately show ?thesis
    using sample_valid sample_leaf
    by (simp add: handle_app_message_def sample_receiver_def deserialize_encrypted_message_def Let_def)
      (simp add: sample_receiving_def store_decrypt_def proto_to_crypto_encrypted_def ratchet_new_def advance_to_eq
        decrypt_message_def sample_crypto_def)
qed


text \<open>
  C11. No message is delivered twice: once an application frame has been delivered, handling it again
  is refused and changes nothing, whatever happens in between: other frames, messages sent, members
  added, timeouts, rooms created or joined. Only a commit, a sync response or leaving the room, which
  derive the room's keys anew or drop them, are excluded.
\<close>

theorem no_replayed_delivery:
  assumes "client_handle_frame depth cs f c = Some (Done (c1, Inr acts))"
    and "opcode_enum (header f) = Some Op_AppMessage" and "\<forall>call\<in>set calls. keeps_keys call"
  shows "\<exists>e. client_handle_frame (Suc d) cs f (run_events (client_step cs) calls c1) =
    Some (Done (run_events (client_step cs) calls c1, Inl e))"
proof -
  let ?r = "header_room_id (header f)"
  obtain n where "depth = Suc n" using assms(1) by (cases depth) auto
  then have "handle_app_message cs ?r f c = Done (c1, Inr acts)" using assms(1,2) by simp
  then obtain room m keys p where "cl_rooms c ?r = Some room" and
    m: "de_encrypted_message (cs_cbor cs) (payload f) = Inr m" and
    keys: "store_decrypt (cs_crypto cs) (proto_to_crypto_encrypted m) (rs_sender_keys room) = (keys, Inr p)" and
    c1: "c1 = c\<lparr>cl_rooms := (cl_rooms c)(?r \<mapsto> room\<lparr>rs_sender_keys := keys\<rparr>)\<rparr>"
    by (rule app_message_delivered)
  have "spent ?r (store_epoch (rs_sender_keys room)) (msg_sender_index m) (msg_generation m) c1"
    using opened_spent [OF keys] by (simp add: spent_def c1 proto_to_crypto_encrypted_def)
  from spent_not_delivered [OF m spent_run [OF this assms(3)]] assms(2) show ?thesis by auto
qed

theorem no_replayed_delivery_witness:
  "\<exists>c' e. client_handle_frame 1 sample_receiving sample_app_frame sample_receiver =
       Some (Done (c', Inr [CA_DeliverMessage 9 6 [7] 0 (header_hlc_timestamp (header sample_app_frame))])) \<and>
     client_handle_frame 1 sample_receiving sample_app_frame
       (run_events (client_step sample_receiving)
         [Handle_Event 1 sample_inputs (CEv_Tick 3), Handle_Event 1 sample_inputs (CEv_SendMessage 9 [4])] c') =
     Some (Done (run_events (client_step sample_receiving)
         [Handle_Event 1 sample_inputs (CEv_Tick 3), Handle_Event 1 sample_inputs (CEv_SendMessage 9 [4])] c', Inl e))"
proof -
  obtain c' where run: "client_handle_frame 1 sample_receiving sample_app_frame sample_receiver =
      Some (Done (c', Inr [CA_DeliverMessage 9 6 [7] 0 (header_hlc_timestamp (header sample_app_frame))]))"
    using sample_delivery by auto
  from no_replayed_delivery [OF this, where d = 0 and calls =
      "[Handle_Event 1 sample_inputs (CEv_Tick 3), Handle_Event 1 sample_inputs (CEv_SendMessage 9 [4])]"]
  show ?thesis using run by (auto simp: sample_app_opcode simp del: client_step.simps client_handle_frame.simps)
qed

text \<open>
  C29. A client that is removed from a group keeps the room: no received frame takes a room out of the
  client's state, not even the commit for which it reports the room as removed, so the client stays
  a member until the application leaves the room itself.
\<close>

theorem removed_member_keeps_room:
  assumes "client_handle_frame depth cs f c = Some (Done (c', res))" and "client_is_member c r"
  shows "client_is_member c' r"
  using keeps.handle_frame_inv [OF _ assms(1), of "{r}"] assms(2) by (auto simp: client_is_member_def)

definition sample_removing :: "nat client_services" where
  "sample_removing = sample_client_services\<lparr>cs_openmls := sample_openmls\<lparr>om_is_active := (\<lambda>_. False)\<rparr>\<rparr>"

lemma sample_removal:
  "\<exists>c' acts. client_handle_frame 1 sample_removing (sample_app_frame\<lparr>header :=
      set_room_id 9 (header_new Op_Commit)\<rparr>) sample_receiver = Some (Done (c', Inr acts)) \<and>
    CA_RoomRemoved 9 ''Removed from group by commit'' \<in> set acts"
proof -
  have cs: "cs_crypto sample_removing = sample_crypto"
    "cs_openmls sample_removing = sample_openmls\<lparr>om_is_active := (\<lambda>_. False)\<rparr>"
    by (simp_all add: sample_removing_def)
  have "\<exists>keys. initialize_sender_keys sample_removing g = Done (Inr keys)" for g
    by (simp add: initialize_sender_keys_def grp_export_secret_def initialize_epoch_eq sample_crypto_ok cs)
  then obtain keys where
    "initialize_sender_keys sample_removing (sample_group\<lparr>grp_mls_group := Suc (grp_mls_group sample_group)\<rparr>) = Done (Inr keys)"
    by blast
  then show ?thesis
    by (simp add: handle_commit_def process_mls_message_def sample_receiver_def grp_process_message_def cs
        extract_member_id_from_credential_def convert_mls_actions_def export_state_def grp_export_secret_def Let_def)
qed

theorem removed_member_keeps_room_witness:
  "\<exists>c' acts. client_handle_frame 1 sample_removing (sample_app_frame\<lparr>header :=
      set_room_id 9 (header_new Op_Commit)\<rparr>) sample_receiver = Some (Done (c', Inr acts)) \<and>
    CA_RoomRemoved 9 ''Removed from group by commit'' \<in> set acts \<and> client_is_member c' 9"
proof -
  have "client_is_member sample_receiver 9" by (simp add: client_is_member_def sample_receiver_def)
  with sample_removal removed_member_keeps_room show ?thesis by blast
qed

text \<open>
  C21. A commit puts the members' sender keys back in step: two members that process a commit, and
  whose groups then agree on the epoch and on the exported secret, hold for every leaf in both
  groups ratchets on the same chain with nothing sent and nothing lagging behind, whatever keys they
  had before.
\<close>

theorem commit_resyncs_members:
  assumes "hkdf_total (cs_crypto cs)"
    and "handle_commit cs r f a = Done (a', Inr acts)" and "handle_commit cs r f' b = Done (b', Inr acts')"
    and "cl_rooms a' r = Some ra" and "cl_rooms b' r = Some rb"
    and "grp_epoch (cs_openmls cs) (rs_mls_group ra) = grp_epoch (cs_openmls cs) (rs_mls_group rb)"
    and "grp_export_secret (cs_openmls cs) (rs_mls_group ra) SENDER_KEY_EXPORT_LABEL SENDER_KEY_CONTEXT SENDER_KEY_SECRET_SIZE
       = grp_export_secret (cs_openmls cs) (rs_mls_group rb) SENDER_KEY_EXPORT_LABEL SENDER_KEY_CONTEXT SENDER_KEY_SECRET_SIZE"
    and "i \<in> set (member_leaf_indices (cs_openmls cs) (rs_mls_group ra))"
    and "i \<in> set (member_leaf_indices (cs_openmls cs) (rs_mls_group rb))"
  shows "\<exists>seed. synced (cs_crypto cs) seed i (rs_sender_keys ra) (rs_sender_keys rb) \<and>
    lag i (rs_sender_keys ra) (rs_sender_keys rb) = 0 \<and> sent_count i (rs_sender_keys ra) = 0"
proof -
  have ka: "initialize_sender_keys cs (rs_mls_group ra) = Done (Inr (rs_sender_keys ra))"
    by (rule commit_rekeys [OF assms(2)]) (use assms(4) in simp)
  have kb: "initialize_sender_keys cs (rs_mls_group rb) = Done (Inr (rs_sender_keys rb))"
    by (rule commit_rekeys [OF assms(3)]) (use assms(5) in simp)
  from ka kb assms(6,7) obtain secret where
    "initialize_epoch (cs_crypto cs) secret (grp_epoch (cs_openmls cs) (rs_mls_group rb))
       (member_leaf_indices (cs_openmls cs) (rs_mls_group ra)) = Done (rs_sender_keys ra)"
    "initialize_epoch (cs_crypto cs) secret (grp_epoch (cs_openmls cs) (rs_mls_group rb))
       (member_leaf_indices (cs_openmls cs) (rs_mls_group rb)) = Done (rs_sender_keys rb)"
    by (auto simp: initialize_sender_keys_Inr)
  from synced_initial [OF assms(1) this assms(8,9)] show ?thesis by blast
qed

definition sample_commit :: frame where
  "sample_commit = \<lparr>header = header_new Op_Commit, payload = []\<rparr>"

lemma sample_commit_handled:
  "\<exists>c' acts room. handle_commit sample_client_services 9 sample_commit sample_receiver = Done (c', Inr acts) \<and>
     cl_rooms c' 9 = Some room \<and> rs_mls_group room = sample_group\<lparr>grp_mls_group := Suc (grp_mls_group sample_group)\<rparr>"
proof -
  obtain keys where "initialize_sender_keys sample_client_services
      (sample_group\<lparr>grp_mls_group := Suc (grp_mls_group sample_group)\<rparr>) = Done (Inr keys)"
    using sample_keys by blast
  then show ?thesis
    by (simp add: handle_commit_def process_mls_message_def sample_receiver_def grp_process_message_def
        extract_member_id_from_credential_def export_state_def grp_export_secret_def Let_def)
qed

theorem commit_resyncs_members_witness:
  "\<exists>a' acts ra seed. handle_commit sample_client_services 9 sample_commit sample_receiver = Done (a', Inr acts) \<and>
     cl_rooms a' 9 = Some ra \<and>
     synced sample_crypto seed 1 (rs_sender_keys ra) (rs_sender_keys ra) \<and> sent_count 1 (rs_sender_keys ra) = 0"
proof -
  obtain a' acts ra where run: "handle_commit sample_client_services 9 sample_commit sample_receiver = Done (a', Inr acts)"
      and ra: "cl_rooms a' 9 = Some ra"
    using sample_commit_handled by blast
  have "hkdf_total (cs_crypto sample_client_services)" by (simp add: sample_crypto_ok)
  moreover have "1 \<in> set (member_leaf_indices (cs_openmls sample_client_services) (rs_mls_group ra))"
    by (simp add: member_leaf_indices_def sample_members_def)
  ultimately show ?thesis
    using commit_resyncs_members [OF _ run run ra ra refl refl, of 1] run ra by auto
qed

text \<open>
  A tick asks for a sync in exactly the rooms whose own commit has been pending for the timeout,
  and afterwards none is: a second tick at the same time asks for nothing.
\<close>

lemma tick_requests_sync:
  assumes "set (cs_order cs (dom (cl_rooms c))) = dom (cl_rooms c)"
  shows "\<exists>c' acts. client_handle_tick cs now c = Done (c', Inr acts) \<and>
    (\<forall>r. requests_sync r acts \<longleftrightarrow>
       (\<exists>room. cl_rooms c r = Some room \<and> is_commit_timeout (rs_mls_group room) now COMMIT_TIMEOUT)) \<and>
    (\<forall>c'' acts' r. client_handle_tick cs now c' = Done (c'', Inr acts') \<longrightarrow> \<not> requests_sync r acts')"
proof -
  let ?t = "tick_rooms cs now (cs_order cs (dom (cl_rooms c))) c"
  have "requests_sync r (snd ?t) \<longleftrightarrow>
      (\<exists>room. cl_rooms c r = Some room \<and> is_commit_timeout (rs_mls_group room) now COMMIT_TIMEOUT)" for r
    using assms by (auto simp: tick_rooms_requests)
  moreover have "\<not> requests_sync r (snd (tick_rooms cs now rs (fst ?t)))" for r rs
    using assms by (auto simp: tick_rooms_requests tick_rooms_rooms)
  moreover have "client_handle_tick cs now c = Done (fst ?t, Inr (snd ?t))"
    by (simp add: client_handle_tick_def split_beta Let_def)
  ultimately show ?thesis
    by (auto simp: client_handle_tick_def split_beta Let_def)
qed

definition sample_committer :: "nat client" where
  "sample_committer = \<lparr>cl_sender_id = 5, cl_rooms = [9 \<mapsto> \<lparr>rs_mls_group =
     sample_group\<lparr>grp_pending_commit := Some \<lparr>target_epoch = 3, sent_at = 4\<rparr>\<rparr>,
     rs_sender_keys = \<lparr>store_epoch = 2, ratchets = Map.empty\<rparr>, my_leaf_index = 0\<rparr>],
     cl_pending_joins = []\<rparr>"

end
