(* ===== verification/Real_World.thy ===== *)
theory Real_World
  imports Reference_Model Client_Machine
begin

text \<open>
  The real clients next to the reference model (\<^verbatim>\<open>lockframe-harness/tests/model_based_test.rs\<close>): the
  wrapper that applies the same operations to clients of \<^verbatim>\<open>lockframe-client\<close>. What the environment
  yields during an operation comes with the operation. The lemmas relate the two worlds: they give
  equal results as long as members do not add or remove each other, and different ones afterwards.
\<close>

record 'x real_world =
  rw_clients :: "'x client list"
  rw_membership :: "client_id \<times> model_room_id \<Rightarrow> bool"

text \<open>An absent entry of the membership map reads as false, so the map is a predicate.\<close>

definition rw_new :: "nat \<Rightarrow> 'x real_world" where
  "rw_new n = \<lparr>rw_clients = map (\<lambda>i. client_new (of_nat i + 1)) [0..<n], rw_membership = (\<lambda>_. False)\<rparr>"

definition real_room_id :: "model_room_id \<Rightarrow> room_id" where
  "real_room_id r = ucast r + 1"

text \<open>A call of \<^verbatim>\<open>Client::handle\<close> on one of the clients, with whether it succeeded.\<close>

definition call_client ::
  "'x client_services \<Rightarrow> 'x client_inputs \<Rightarrow> client_id \<Rightarrow> client_event \<Rightarrow> 'x real_world \<Rightarrow> ('x real_world \<times> bool) exec" where
  "call_client cs inp i event w =
     (case client_handle 0 cs inp event (rw_clients w ! unat i) of
        Some (Done (c, res)) \<Rightarrow>
          Done (w\<lparr>rw_clients := (rw_clients w)[unat i := c]\<rparr>, case res of Inr _ \<Rightarrow> True | Inl _ \<Rightarrow> False)
      | _ \<Rightarrow> Panic)"

definition set_member :: "client_id \<Rightarrow> model_room_id \<Rightarrow> bool \<Rightarrow> 'x real_world \<Rightarrow> 'x real_world" where
  "set_member i r b w = w\<lparr>rw_membership := (rw_membership w)((i, r) := b)\<rparr>"

definition rw_add_member ::
  "client_id \<Rightarrow> client_id \<Rightarrow> model_room_id \<Rightarrow> 'x real_world \<Rightarrow> 'x real_world \<times> operation_result" where
  "rw_add_member inviter invitee r w =
     (if length (rw_clients w) \<le> unat inviter then (w, OR_Error OE_InvalidClient)
      else if length (rw_clients w) \<le> unat invitee then (w, OR_Error OE_InvalidClient)
      else if \<not> rw_membership w (inviter, r) then (w, OR_Error OE_NotMember)
      else if rw_membership w (invitee, r) then (w, OR_Error OE_AlreadyMember)
      else (set_member invitee r True w, OR_Ok))"

definition rw_remove_member ::
  "client_id \<Rightarrow> client_id \<Rightarrow> model_room_id \<Rightarrow> 'x real_world \<Rightarrow> 'x real_world \<times> operation_result" where
  "rw_remove_member remover target r w =
     (if length (rw_clients w) \<le> unat remover then (w, OR_Error OE_InvalidClient)
      else if length (rw_clients w) \<le> unat target then (w, OR_Error OE_InvalidClient)
      else if remover = target then (w, OR_Error OE_CannotRemoveSelf)
      else if \<not> rw_membership w (remover, r) then (w, OR_Error OE_NotMember)
      else if \<not> rw_membership w (target, r) then (w, OR_Error OE_NotMember)
      else (set_member target r False w, OR_Ok))"

definition rw_create_room ::
  "'x client_services \<Rightarrow> 'x client_inputs \<Rightarrow> client_id \<Rightarrow> model_room_id \<Rightarrow> 'x real_world \<Rightarrow>
     ('x real_world \<times> operation_result) exec" where
  "rw_create_room cs inp i r w =
     (if length (rw_clients w) \<le> unat i then Done (w, OR_Error OE_InvalidClient)
      else if rw_membership w (i, r) then Done (w, OR_Error OE_RoomAlreadyExists)
      else (case call_client cs inp i (CEv_CreateRoom (real_room_id r)) w of
          Panic \<Rightarrow> Panic
        | Done (w1, ok) \<Rightarrow>
            Done (if ok then (set_member i r True w1, OR_Ok) else (w1, OR_Error OE_RoomAlreadyExists))))"

definition rw_send_message ::
  "'x client_services \<Rightarrow> 'x client_inputs \<Rightarrow> client_id \<Rightarrow> model_room_id \<Rightarrow> small_message \<Rightarrow> 'x real_world \<Rightarrow>
     ('x real_world \<times> operation_result) exec" where
  "rw_send_message cs inp i r content w =
     (if length (rw_clients w) \<le> unat i then Done (w, OR_Error OE_InvalidClient)
      else if \<not> rw_membership w (i, r) then Done (w, OR_Error OE_NotMember)
      else (case call_client cs inp i (CEv_SendMessage (real_room_id r) (small_message_bytes content)) w of
          Panic \<Rightarrow> Panic
        | Done (w1, ok) \<Rightarrow> Done (w1, if ok then OR_Ok else OR_Error OE_NotMember)))"

definition rw_leave_room ::
  "'x client_services \<Rightarrow> 'x client_inputs \<Rightarrow> client_id \<Rightarrow> model_room_id \<Rightarrow> 'x real_world \<Rightarrow>
     ('x real_world \<times> operation_result) exec" where
  "rw_leave_room cs inp i r w =
     (if length (rw_clients w) \<le> unat i then Done (w, OR_Error OE_InvalidClient)
      else if \<not> rw_membership w (i, r) then Done (w, OR_Error OE_NotMember)
      else (case call_client cs inp i (CEv_LeaveRoom (real_room_id r)) w of
          Panic \<Rightarrow> Panic
        | Done (w1, ok) \<Rightarrow> Done (if ok then (set_member i r False w1, OR_Ok) else (w1, OR_Error OE_NotMember))))"

fun rw_apply ::
  "'x client_services \<Rightarrow> 'x client_inputs \<Rightarrow> operation \<Rightarrow> 'x real_world \<Rightarrow> ('x real_world \<times> operation_result) exec" where
  "rw_apply cs inp (MO_CreateRoom i r) w = rw_create_room cs inp i r w"
| "rw_apply cs inp (MO_SendMessage i r m) w = rw_send_message cs inp i r m w"
| "rw_apply cs inp (MO_LeaveRoom i r) w = rw_leave_room cs inp i r w"
| "rw_apply cs inp (MO_AddMember i j r) w = Done (rw_add_member i j r w)"
| "rw_apply cs inp (MO_RemoveMember i j r) w = Done (rw_remove_member i j r w)"
| "rw_apply cs inp (MO_AdvanceTime t) w = Done (w, OR_Ok)"
| "rw_apply cs inp MO_DeliverPending w = Done (w, OR_Ok)"

text \<open>The results of a sequence of operations in the two worlds.\<close>

fun real_results ::
  "'x client_services \<Rightarrow> ('x client_inputs \<times> operation) list \<Rightarrow> 'x real_world \<Rightarrow> operation_result list exec" where
  "real_results cs [] w = Done []"
| "real_results cs ((inp, op) # rest) w =
     (case rw_apply cs inp op w of
        Panic \<Rightarrow> Panic
      | Done (w', res) \<Rightarrow>
          (case real_results cs rest w' of Panic \<Rightarrow> Panic | Done results \<Rightarrow> Done (res # results)))"

fun model_results ::
  "(client_id set \<Rightarrow> client_id list) \<Rightarrow> operation list \<Rightarrow> model_world \<Rightarrow> operation_result list" where
  "model_results order [] w = []"
| "model_results order (op # rest) w =
     (let (w', res) = mw_apply order op w in res # model_results order rest w')"

section \<open>Local operations\<close>

text \<open>Operations that involve no second client.\<close>

fun local_op :: "operation \<Rightarrow> bool" where
  "local_op (MO_AddMember _ _ _) = False"
| "local_op (MO_RemoveMember _ _ _) = False"
| "local_op _ = True"

text \<open>
  What the clients rely on when they create a room and send: groups can be created, the creator has
  a leaf, secrets can be exported, sealing and serialising succeed.
\<close>

definition able :: "'x client_services \<Rightarrow> bool" where
  "able cs \<longleftrightarrow>
     (\<forall>env. \<exists>s. om_signer_new (cs_openmls cs) env = Inr s) \<and>
     (\<forall>p s i. \<exists>g. om_group_new (cs_openmls cs) p s i = Inr g \<and>
        om_own_leaf_index (cs_openmls cs) g \<in> om_index ` set (om_members (cs_openmls cs) g)) \<and>
     (\<forall>g l ctx n. \<exists>secret. om_export_secret (cs_openmls cs) g l ctx n = Inr secret) \<and>
     hkdf_total (cs_crypto cs) \<and> aead_correct (cs_crypto cs) \<and>
     (\<forall>m. snd (ser_encrypted_message (cs_cbor cs) m) = None)"

text \<open>A client's room in which it can still send, after at most \<open>k\<close> messages.\<close>

definition can_send :: "nat \<Rightarrow> 'x client_room \<Rightarrow> bool" where
  "can_send k room \<longleftrightarrow>
     (\<exists>q. ratchets (rs_sender_keys room) (my_leaf_index room) = Some q \<and> unat (ratchet_generation q) \<le> k)"

lemma initial_ratchet:
  assumes "hkdf_total (cs_crypto cs)" and "initialize_sender_keys cs g = Done (Inr keys)"
    and "i \<in> set (member_leaf_indices (cs_openmls cs) g)"
  shows "\<exists>q. ratchets keys i = Some q \<and> ratchet_generation q = 0"
  using assms(2,3) by (auto simp: initialize_sender_keys_Inr initialize_epoch_eq [OF assms(1)] ratchet_new_def)

lemma created_room:
  assumes "able cs" and "cl_rooms c r = None"
  shows "\<exists>room acts. client_handle d cs inp (CEv_CreateRoom r) c =
      Some (Done (c\<lparr>cl_rooms := (cl_rooms c)(r \<mapsto> room)\<rparr>, Inr acts)) \<and> can_send 0 room"
proof -
  obtain s where s: "om_signer_new (cs_openmls cs) (in_env inp) = Inr s"
    using assms(1) unfolding able_def by blast
  obtain g where g: "om_group_new (cs_openmls cs) (om_provider_new (cs_openmls cs) (in_env inp)) s
        (to_le_bytes (cl_sender_id c)) = Inr g"
      "om_own_leaf_index (cs_openmls cs) g \<in> om_index ` set (om_members (cs_openmls cs) g)"
    using assms(1) unfolding able_def by blast
  have secrets: "\<And>l ctx n. \<exists>secret. om_export_secret (cs_openmls cs) g l ctx n = Inr secret"
    and hkdf: "hkdf_total (cs_crypto cs)"
    using assms(1) unfolding able_def by blast+
  let ?g = "\<lparr>grp_room_id = r, grp_member_id = cl_sender_id c, grp_mls_group = g, grp_signer = s,
    grp_pending_commit = None\<rparr>"
  have new: "\<exists>acts. mls_group_new (cs_openmls cs) (in_env inp) r (cl_sender_id c) = Inr (?g, acts)"
    using s g(1) by (simp add: mls_group_new_def Let_def)
  have exports: "\<exists>secret. grp_export_secret (cs_openmls cs) ?g l ctx n = Inr secret" for l ctx n
    using secrets [of l ctx n] by (auto simp: grp_export_secret_def)
  obtain st where st: "export_state (cs_openmls cs) ?g = Inr st"
    using exports [of "''group_state''" "[]" 64] by (auto simp: export_state_def)
  obtain keys where keys: "initialize_sender_keys cs ?g = Done (Inr keys)"
    using exports [of SENDER_KEY_EXPORT_LABEL SENDER_KEY_CONTEXT SENDER_KEY_SECRET_SIZE]
    by (auto simp: initialize_sender_keys_Inr initialize_epoch_eq [OF hkdf])
  have "can_send 0 \<lparr>rs_mls_group = ?g, rs_sender_keys = keys, my_leaf_index = own_leaf_index (cs_openmls cs) ?g\<rparr>"
    using initial_ratchet [OF hkdf keys, of "own_leaf_index (cs_openmls cs) ?g"] g(2)
    by (auto simp: can_send_def member_leaf_indices_def own_leaf_index_def)
  with new st keys assms(2) show ?thesis
    by (auto simp: client_handle_def handle_create_room_def Let_def)
qed

lemma can_send_mono: "can_send k room \<Longrightarrow> k \<le> k' \<Longrightarrow> can_send k' room"
  by (auto simp: can_send_def)

lemma sent_in_room:
  assumes "able cs" and "cl_rooms c r = Some room" and "can_send k room" and "k < 4294967295"
  shows "\<exists>room' acts. client_handle d cs inp (CEv_SendMessage r p) c =
      Some (Done (c\<lparr>cl_rooms := (cl_rooms c)(r \<mapsto> room')\<rparr>, Inr acts)) \<and> can_send (Suc k) room'"
proof -
  obtain q where q: "ratchets (rs_sender_keys room) (my_leaf_index room) = Some q" "unat (ratchet_generation q) \<le> k"
    using assms(3) by (auto simp: can_send_def)
  have aead: "aead_correct (cs_crypto cs)" and ser: "\<And>m. snd (ser_encrypted_message (cs_cbor cs) m) = None"
    using assms(1) by (simp_all add: able_def)
  have "ratchet_generation q \<noteq> - 1" using q(2) assms(4) by (auto simp: unat_u32_max)
  then obtain q' key where adv: "advance (cs_crypto cs) q = (q', Inr key)" by (simp add: advance_eq)
  have gen: "unat (ratchet_generation q') \<le> Suc k" using advance_InrD [OF adv] q(2) by simp
  obtain m where "encrypt_message (cs_crypto cs) p key (store_epoch (rs_sender_keys room)) (my_leaf_index room) (in_random inp)
      = Done m"
    using aead unfolding aead_correct_def encrypt_message_def Let_def by (metis option.simps(5))
  with q(1) adv have enc: "store_encrypt (cs_crypto cs) (my_leaf_index room) p (in_random inp) (rs_sender_keys room)
      = Done ((rs_sender_keys room)\<lparr>ratchets := (ratchets (rs_sender_keys room))(my_leaf_index room \<mapsto> q')\<rparr>, Inr m)"
    by (simp add: store_encrypt_def)
  have data: "serialize_encrypted_message (cs_cbor cs) (crypto_to_proto_encrypted m) =
      Done (fst (ser_encrypted_message (cs_cbor cs) (crypto_to_proto_encrypted m)))"
    using ser [of "crypto_to_proto_encrypted m"] by (auto simp: serialize_encrypted_message_def split: prod.split option.split)
  show ?thesis
    using assms(2) enc data gen
    by (auto simp: client_handle_def handle_send_message_def Let_def can_send_def)
qed

lemma left_room:
  "cl_rooms c r \<noteq> None \<Longrightarrow> \<exists>acts. client_handle d cs inp (CEv_LeaveRoom r) c =
      Some (Done (c\<lparr>cl_rooms := (cl_rooms c)(r := None)\<rparr>, Inr acts))"
  by (simp add: client_handle_def handle_leave_room_def)

section \<open>The two worlds in step\<close>

text \<open>
  The worlds have the same clients, the real client is in exactly the rooms of the model client, as
  the wrapper has noted, and can still send in each of them.
\<close>

definition in_step :: "nat \<Rightarrow> nat \<Rightarrow> model_world \<Rightarrow> 'x real_world \<Rightarrow> bool" where
  "in_step n k mw rw \<longleftrightarrow> mw_inv n mw \<and> length (rw_clients rw) = n \<and>
     (\<forall>i r. unat i < n \<longrightarrow>
        rw_membership rw (i, r) = in_room mw i r \<and>
        (cl_rooms (rw_clients rw ! unat i) (real_room_id r) \<noteq> None \<longleftrightarrow> in_room mw i r) \<and>
        (\<forall>room. cl_rooms (rw_clients rw ! unat i) (real_room_id r) = Some room \<longrightarrow> can_send k room))"

lemma real_room_id_inject: "real_room_id r = real_room_id r' \<longleftrightarrow> r = r'"
proof -
  have "unat (ucast r :: room_id) = unat r" for r :: model_room_id
    using unsigned_less [of r, where ?'a = nat] by (simp add: unsigned_ucast_eq take_bit_nat_eq_self)
  then show ?thesis by (simp add: real_room_id_def) (metis unat_inject)
qed

lemma in_step_mono: "in_step n k mw rw \<Longrightarrow> mw_inv n mw' \<Longrightarrow> in_room mw' = in_room mw \<Longrightarrow> k \<le> k' \<Longrightarrow> in_step n k' mw' rw"
  by (auto simp: in_step_def intro: can_send_mono)

lemma in_step_update:
  assumes "in_step n k mw rw" and "mw_inv n mw'" and "unat i < n" and "k \<le> k'"
    and "in_room mw' = (in_room mw)(i := (in_room mw i)(r := b))"
    and "b \<longleftrightarrow> x \<noteq> None" and "\<And>room. x = Some room \<Longrightarrow> can_send k' room"
  shows "in_step n k' mw' (set_member i r b (rw\<lparr>rw_clients := (rw_clients rw)[unat i :=
    (rw_clients rw ! unat i)\<lparr>cl_rooms := (cl_rooms (rw_clients rw ! unat i))(real_room_id r := x)\<rparr>]\<rparr>))"
proof -
  have "rw_membership rw (j, r') = in_room mw j r'"
    "cl_rooms (rw_clients rw ! unat j) (real_room_id r') \<noteq> None \<longleftrightarrow> in_room mw j r'"
    "cl_rooms (rw_clients rw ! unat j) (real_room_id r') = Some room \<Longrightarrow> can_send k' room"
    if "unat j < n" for j r' room
    using assms(1,4) that can_send_mono unfolding in_step_def by blast+
  with assms(1-3,5-7) show ?thesis
    by (auto simp: in_step_def set_member_def nth_list_update unat_inject real_room_id_inject)
qed

lemma set_member_same: "rw_membership w (i, r) = b \<Longrightarrow> set_member i r b w = w"
  by (simp add: set_member_def fun_upd_idem)

lemma in_room_valid: "in_room w i r \<Longrightarrow> unat i < length (mw_clients w)"
  by (auto simp: in_room_def mw_client_def split: if_splits)

lemma create_results:
  "snd (apply_create_room i r w) = (if length (mw_clients w) \<le> unat i then OR_Error OE_InvalidClient
     else if in_room w i r then OR_Error OE_RoomAlreadyExists else OR_Ok)"
  "in_room (fst (apply_create_room i r w)) =
     (if length (mw_clients w) \<le> unat i then in_room w else (in_room w)(i := (in_room w i)(r := True)))"
  by (auto simp: apply_create_room_def mc_create_room_def in_room_def mw_client_def mc_is_member_def update_client_def
      nth_list_update unat_inject Let_def fun_eq_iff)

lemma leave_results:
  "snd (apply_leave_room i r w) = (if length (mw_clients w) \<le> unat i then OR_Error OE_InvalidClient
     else if \<not> in_room w i r then OR_Error OE_NotMember else OR_Ok)"
  "in_room (fst (apply_leave_room i r w)) =
     (if length (mw_clients w) \<le> unat i then in_room w else (in_room w)(i := (in_room w i)(r := False)))"
proof -
  show "snd (apply_leave_room i r w) = (if length (mw_clients w) \<le> unat i then OR_Error OE_InvalidClient
     else if \<not> in_room w i r then OR_Error OE_NotMember else OR_Ok)"
    by (auto simp: apply_leave_room_def mc_leave_room_def in_room_def mw_client_def mc_is_member_def Let_def)
  show "in_room (fst (apply_leave_room i r w)) =
     (if length (mw_clients w) \<le> unat i then in_room w else (in_room w)(i := (in_room w i)(r := False)))"
    by (auto simp: apply_leave_room_def mc_leave_room_def mw_client_def Let_def membership fun_eq_iff)
      (auto simp: in_room_def mw_client_def mc_is_member_def)
qed

lemma send_results:
  assumes "mw_inv n w"
  shows "snd (apply_send_message order i r content w) = (if n \<le> unat i then OR_Error OE_InvalidClient
     else if \<not> in_room w i r then OR_Error OE_NotMember else OR_Ok)"
    "in_room (fst (apply_send_message order i r content w)) = in_room w"
proof -
  have "\<exists>room. ms_rooms (mw_server w) r = Some room \<and> i \<in> sr_members room" if "in_room w i r"
  proof -
    have "ms_is_member (mw_server w) r i" using that assms by (simp add: mw_inv_def)
    then show ?thesis by (auto simp: ms_is_member_def split: option.splits)
  qed
  then show "snd (apply_send_message order i r content w) = (if n \<le> unat i then OR_Error OE_InvalidClient
     else if \<not> in_room w i r then OR_Error OE_NotMember else OR_Ok)"
    using assms by (auto simp: apply_send_message_def ms_process_message_def mw_client_def in_room_def mw_inv_def Let_def)
  show "in_room (fst (apply_send_message order i r content w)) = in_room w"
    by (auto simp: apply_send_message_def membership fun_eq_iff split: option.split prod.split sum.split)
qed

lemma in_stepD:
  assumes "in_step n k mw rw"
  shows "mw_inv n mw" "length (rw_clients rw) = n" "length (mw_clients mw) = n"
    "unat i < n \<Longrightarrow> rw_membership rw (i, r) = in_room mw i r"
    "unat i < n \<Longrightarrow> cl_rooms (rw_clients rw ! unat i) (real_room_id r) \<noteq> None \<longleftrightarrow> in_room mw i r"
    "unat i < n \<Longrightarrow> cl_rooms (rw_clients rw ! unat i) (real_room_id r) = Some room \<Longrightarrow> can_send k room"
  using assms unfolding in_step_def mw_inv_def by blast+

lemma create_in_step:
  assumes "able cs" and "in_step n k mw rw"
  shows "\<exists>rw'. rw_create_room cs inp i r rw = Done (rw', snd (apply_create_room i r mw)) \<and>
    in_step n k (fst (apply_create_room i r mw)) rw'"
proof (cases "unat i < n \<and> \<not> in_room mw i r")
  case True
  note st = in_stepD [OF assms(2)]
  let ?c = "rw_clients rw ! unat i"
  have "cl_rooms ?c (real_room_id r) = None" using st(5) True by blast
  from created_room [OF assms(1) this] obtain room acts where run:
    "client_handle 0 cs inp (CEv_CreateRoom (real_room_id r)) ?c =
      Some (Done (?c\<lparr>cl_rooms := (cl_rooms ?c)(real_room_id r \<mapsto> room)\<rparr>, Inr acts))" "can_send 0 room" by blast
  have "in_step n k (fst (apply_create_room i r mw)) (set_member i r True (rw\<lparr>rw_clients := (rw_clients rw)[unat i :=
      ?c\<lparr>cl_rooms := (cl_rooms ?c)(real_room_id r \<mapsto> room)\<rparr>]\<rparr>))"
    using run(2) True st(3)
    by (intro in_step_update [OF assms(2) create_inv [OF st(1)]]) (auto simp: create_results elim: can_send_mono)
  with run(1) st True show ?thesis
    by (auto simp: rw_create_room_def call_client_def create_results)
next
  case False
  note st = in_stepD [OF assms(2)]
  have "in_step n k (fst (apply_create_room i r mw)) rw"
    using False st(3) by (intro in_step_mono [OF assms(2) create_inv [OF st(1)]]) (auto simp: create_results fun_eq_iff)
  with False st show ?thesis by (auto simp: rw_create_room_def create_results)
qed

lemma leave_in_step:
  assumes "in_step n k mw rw"
  shows "\<exists>rw'. rw_leave_room cs inp i r rw = Done (rw', snd (apply_leave_room i r mw)) \<and>
    in_step n k (fst (apply_leave_room i r mw)) rw'"
proof (cases "unat i < n \<and> in_room mw i r")
  case True
  note st = in_stepD [OF assms]
  let ?c = "rw_clients rw ! unat i"
  have "cl_rooms ?c (real_room_id r) \<noteq> None" using st(5) True by blast
  from left_room [OF this] obtain acts where run:
    "client_handle 0 cs inp (CEv_LeaveRoom (real_room_id r)) ?c =
      Some (Done (?c\<lparr>cl_rooms := (cl_rooms ?c)(real_room_id r := None)\<rparr>, Inr acts))" by blast
  have "in_step n k (fst (apply_leave_room i r mw)) (set_member i r False (rw\<lparr>rw_clients := (rw_clients rw)[unat i :=
      ?c\<lparr>cl_rooms := (cl_rooms ?c)(real_room_id r := None)\<rparr>]\<rparr>))"
    using True st(3) by (intro in_step_update [OF assms leave_inv [OF st(1)]]) (auto simp: leave_results)
  with run st True show ?thesis
    by (auto simp: rw_leave_room_def call_client_def leave_results)
next
  case False
  note st = in_stepD [OF assms]
  have "in_step n k (fst (apply_leave_room i r mw)) rw"
    using False st(3) by (intro in_step_mono [OF assms leave_inv [OF st(1)]]) (auto simp: leave_results fun_eq_iff)
  with False st show ?thesis by (auto simp: rw_leave_room_def leave_results)
qed

lemma send_in_step:
  assumes "able cs" and "in_step n k mw rw" and "k < 4294967295"
  shows "\<exists>rw'. rw_send_message cs inp i r m rw = Done (rw', snd (apply_send_message order i r (small_message_bytes m) mw)) \<and>
    in_step n (Suc k) (fst (apply_send_message order i r (small_message_bytes m) mw)) rw'"
proof (cases "unat i < n \<and> in_room mw i r")
  case True
  note st = in_stepD [OF assms(2)]
  let ?c = "rw_clients rw ! unat i"
  obtain room where room: "cl_rooms ?c (real_room_id r) = Some room" using st(5) True by blast
  from sent_in_room [OF assms(1) room st(6) assms(3)] room True obtain room' acts where run:
    "client_handle 0 cs inp (CEv_SendMessage (real_room_id r) (small_message_bytes m)) ?c =
      Some (Done (?c\<lparr>cl_rooms := (cl_rooms ?c)(real_room_id r \<mapsto> room')\<rparr>, Inr acts))" "can_send (Suc k) room'" by blast
  let ?rw = "rw\<lparr>rw_clients := (rw_clients rw)[unat i := ?c\<lparr>cl_rooms := (cl_rooms ?c)(real_room_id r \<mapsto> room')\<rparr>]\<rparr>"
  have "in_step n (Suc k) (fst (apply_send_message order i r (small_message_bytes m) mw)) (set_member i r True ?rw)"
    using run(2) True
    by (intro in_step_update [OF assms(2) send_inv [OF st(1)]]) (auto simp: send_results [OF st(1)] fun_eq_iff)
  moreover have "set_member i r True ?rw = ?rw" using st(4) True by (intro set_member_same) simp
  ultimately show ?thesis
    using run(1) st True by (auto simp: rw_send_message_def call_client_def send_results [OF st(1)])
next
  case False
  note st = in_stepD [OF assms(2)]
  have "in_step n (Suc k) (fst (apply_send_message order i r (small_message_bytes m) mw)) rw"
    by (intro in_step_mono [OF assms(2) send_inv [OF st(1)]]) (simp_all add: send_results [OF st(1)])
  with False st show ?thesis by (auto simp: rw_send_message_def send_results [OF st(1)])
qed

lemma local_step:
  fixes cs :: "'x client_services"
  assumes "able cs" and "in_step n k mw rw" and "k < 4294967295" and "local_op op"
  shows "\<exists>rw'. rw_apply cs inp op rw = Done (rw', snd (mw_apply order op mw)) \<and>
    in_step n (Suc k) (fst (mw_apply order op mw)) rw'"
proof -
  have later: "in_step n (Suc k) mw' rw'" if "in_step n k mw' rw'" for mw' and rw' :: "'x real_world"
    using in_step_mono [OF that in_stepD(1) [OF that] refl] by simp
  show ?thesis
  proof (cases op)
    case (MO_CreateRoom i r)
    with create_in_step [OF assms(1,2), of inp i r] later show ?thesis by auto
  next
    case (MO_SendMessage i r m)
    with send_in_step [OF assms(1-3), of inp i r m order] show ?thesis by simp
  next
    case (MO_LeaveRoom i r)
    with leave_in_step [OF assms(2), of cs inp i r] later show ?thesis by auto
  next
    case MO_DeliverPending
    have "in_room (apply_deliver_pending mw) = in_room mw"
      by (simp add: apply_deliver_pending_def ms_take_pending_def membership fun_eq_iff)
    with in_step_mono [OF assms(2) deliver_inv [OF in_stepD(1) [OF assms(2)]]] MO_DeliverPending show ?thesis by simp
  qed (use assms(2,4) later in simp_all)
qed

lemma local_run:
  assumes "able cs"
  shows "in_step n k mw rw \<Longrightarrow> k + length ops \<le> 4294967295 \<Longrightarrow> \<forall>(inp, op)\<in>set ops. local_op op \<Longrightarrow>
    real_results cs ops rw = Done (model_results order (map snd ops) mw)"
proof (induction ops arbitrary: k mw rw)
  case (Cons iop ops)
  obtain inp op where iop: "iop = (inp, op)" by fastforce
  from local_step [OF assms Cons.prems(1), of op inp order] Cons.prems iop obtain rw' where
    "rw_apply cs inp op rw = Done (rw', snd (mw_apply order op mw))" "in_step n (Suc k) (fst (mw_apply order op mw)) rw'"
    by auto
  with Cons.IH [of "Suc k" "fst (mw_apply order op mw)" rw'] Cons.prems(2,3) iop show ?case
    by (simp add: split_beta)
qed simp

lemma in_step_new: "in_step n 0 (mw_new n) (rw_new n)"
proof -
  have "\<not> in_room (mw_new n) i r" for i r
    by (auto simp: in_room_def mw_client_def mw_new_def mc_new_def mc_is_member_def split: if_splits)
  then show ?thesis
    by (auto simp: in_step_def mw_inv_new rw_new_def client_new_def)
qed

section \<open>Membership changes\<close>

lemma create_room_ok:
  "client_handle d cs inp (CEv_CreateRoom r) c = Some (Done (c', Inr acts)) \<Longrightarrow>
     cl_rooms c r = None \<and> cl_rooms c' r \<noteq> None"
  by (auto simp: client_handle_def handle_create_room_def Let_def
      split: if_splits exec.splits sum.splits prod.splits)

lemma create_ok:
  assumes "rw_create_room cs inp i r w = Done (w', OR_Ok)"
  obtains c where "unat i < length (rw_clients w)" "cl_rooms (rw_clients w ! unat i) (real_room_id r) = None"
    "cl_rooms c (real_room_id r) \<noteq> None" "rw_clients w' = (rw_clients w)[unat i := c]"
proof -
  let ?call = "client_handle 0 cs inp (CEv_CreateRoom (real_room_id r)) (rw_clients w ! unat i)"
  have "unat i < length (rw_clients w) \<and>
      (\<exists>c acts. ?call = Some (Done (c, Inr acts)) \<and> rw_clients w' = (rw_clients w)[unat i := c])"
    using assms
    by (auto simp: rw_create_room_def call_client_def set_member_def
        split: if_splits exec.splits option.splits sum.splits prod.splits)
  then show thesis using that create_room_ok by blast
qed

lemma rw_new_2: "rw_clients (rw_new 2) = [client_new 1, client_new 2]" "rw_membership (rw_new 2) = (\<lambda>_. False)"
  by (simp_all add: rw_new_def numeral_2_eq_2)

lemma mw_new_2: "mw_new 2 = \<lparr>mw_clients = [mc_new 0, mc_new 1], mw_server = ms_new\<rparr>"
  by (simp add: mw_new_def numeral_2_eq_2)

lemma real_results_ConsD:
  assumes "real_results cs ((inp, op) # rest) w = Done (x # xs)"
  obtains w' where "rw_apply cs inp op w = Done (w', x)" "real_results cs rest w' = Done xs"
  using assms by (auto split: exec.splits prod.splits)

lemma added_member_cannot_send:
  "real_results cs [(a, MO_CreateRoom 0 r), (b, MO_AddMember 0 1 r), (c, MO_SendMessage 1 r m)] (rw_new 2)
     \<noteq> Done [OR_Ok, OR_Ok, OR_Ok]"
proof
  assume "real_results cs [(a, MO_CreateRoom 0 r), (b, MO_AddMember 0 1 r), (c, MO_SendMessage 1 r m)] (rw_new 2)
     = Done [OR_Ok, OR_Ok, OR_Ok]"
  then obtain w1 w2 w3 where run: "rw_create_room cs a 0 r (rw_new 2) = Done (w1, OR_Ok)"
      "rw_add_member 0 1 r w1 = (w2, OR_Ok)" "rw_send_message cs c 1 r m w2 = Done (w3, OR_Ok)"
    by (elim real_results_ConsD) simp
  have "rw_clients w1 ! 1 = client_new 2"
    by (rule create_ok [OF run(1)]) (simp add: rw_new_2)
  moreover have "rw_clients w2 = rw_clients w1"
    using run(2) by (auto simp: rw_add_member_def set_member_def split: if_splits)
  ultimately show False
    using run(3) by (auto simp: rw_send_message_def call_client_def client_handle_def handle_send_message_def
        client_new_def split: if_splits)
qed

lemma removed_member_cannot_create:
  "real_results cs [(a, MO_CreateRoom 0 r), (b, MO_CreateRoom 1 r), (c, MO_RemoveMember 0 1 r), (d, MO_CreateRoom 1 r)]
     (rw_new 2) \<noteq> Done [OR_Ok, OR_Ok, OR_Ok, OR_Ok]"
proof
  assume "real_results cs [(a, MO_CreateRoom 0 r), (b, MO_CreateRoom 1 r), (c, MO_RemoveMember 0 1 r),
     (d, MO_CreateRoom 1 r)] (rw_new 2) = Done [OR_Ok, OR_Ok, OR_Ok, OR_Ok]"
  then obtain w1 w2 w3 w4 where run: "rw_create_room cs a 0 r (rw_new 2) = Done (w1, OR_Ok)"
      "rw_create_room cs b 1 r w1 = Done (w2, OR_Ok)" "rw_remove_member 0 1 r w2 = (w3, OR_Ok)"
      "rw_create_room cs d 1 r w3 = Done (w4, OR_Ok)"
    by (elim real_results_ConsD) simp
  have "cl_rooms (rw_clients w2 ! 1) (real_room_id r) \<noteq> None"
    by (rule create_ok [OF run(2)]) simp
  moreover have "rw_clients w3 = rw_clients w2"
    using run(3) by (auto simp: rw_remove_member_def set_member_def split: if_splits)
  moreover have "cl_rooms (rw_clients w3 ! 1) (real_room_id r) = None"
    by (rule create_ok [OF run(4)]) simp
  ultimately show False by simp
qed

lemmas model_world_simps = mw_new_2 mc_new_def ms_new_def apply_create_room_def mc_create_room_def mw_client_def
  ms_create_room_def ms_add_member_def server_room_new_def update_client_def model_room_new_def apply_send_message_def
  mc_is_member_def ms_process_message_def mc_leave_room_def ms_remove_member_def ms_advance_epoch_def
  advance_members_def mc_advance_epoch_def apply_add_member_def apply_remove_member_def mc_join_room_at_epoch_def Let_def

section \<open>Properties\<close>

text \<open>
  C13. The real clients behave like the reference model as long as each acts for itself: for every
  sequence of rooms created and left, messages sent and delivered and time passing, the wrapper of
  the real clients returns exactly the results of the model, errors included, and never panics.
\<close>

theorem model_matches_real:
  assumes "able cs" and "\<forall>(inp, op)\<in>set ops. local_op op" and "length ops \<le> 4294967295"
  shows "real_results cs ops (rw_new n) = Done (model_results order (map snd ops) (mw_new n))"
  using local_run [OF assms(1) in_step_new _ assms(2)] assms(3) by simp

lemma sample_able: "able sample_client_services"
  by (auto simp: able_def sample_crypto_ok sample_members_def sample_client_services_def sample_cbor_def)

theorem model_matches_real_witness:
  "real_results sample_client_services
     (map (Pair sample_inputs) [MO_CreateRoom 0 7, MO_SendMessage 0 7 \<lparr>sm_seed = 1, sm_size_class = 0\<rparr>,
        MO_LeaveRoom 0 7, MO_SendMessage 0 7 \<lparr>sm_seed = 1, sm_size_class = 0\<rparr>]) (rw_new 1) =
   Done [OR_Ok, OR_Ok, OR_Ok, OR_Error OE_NotMember]"
proof -
  let ?ops = "[MO_CreateRoom 0 7, MO_SendMessage 0 7 \<lparr>sm_seed = 1, sm_size_class = 0\<rparr>,
        MO_LeaveRoom 0 7, MO_SendMessage 0 7 \<lparr>sm_seed = 1, sm_size_class = 0\<rparr>]"
  have "model_results sorted_list_of_set ?ops (mw_new 1) = [OR_Ok, OR_Ok, OR_Ok, OR_Error OE_NotMember]"
    by (simp add: mw_new_def mc_new_def ms_new_def apply_create_room_def mc_create_room_def mw_client_def
      ms_create_room_def ms_add_member_def server_room_new_def update_client_def model_room_new_def
      apply_send_message_def mc_is_member_def ms_process_message_def apply_leave_room_def mc_leave_room_def
      ms_remove_member_def ms_advance_epoch_def advance_members_def Let_def)
  with model_matches_real [OF sample_able, of "map (Pair sample_inputs) ?ops" 1 sorted_list_of_set] show ?thesis
    by (simp del: real_results.simps model_results.simps)
qed


end
