(* ===== verification/Assertions.thy ===== *)
theory Assertions
  imports Lockframe_Prelude
begin

text \<open>
  Programs that check themselves: the fuzz targets (\<^verbatim>\<open>fuzz/fuzz_targets\<close>) and the scenario
  harness drive a component and panic when an assertion fails. \<open>assert_that\<close> is
  \<^verbatim>\<open>assert!\<close>, \<open>exec_bind\<close> runs one statement after another, \<open>exec_fold\<close> is a \<^verbatim>\<open>for\<close> loop whose body may panic,
  and \<open>returns m P\<close> is total correctness: \<open>m\<close> does not panic and its value satisfies \<open>P\<close>.
\<close>

section \<open>Statements that may panic\<close>

definition exec_bind :: "'a exec \<Rightarrow> ('a \<Rightarrow> 'b exec) \<Rightarrow> 'b exec" where
  "exec_bind m k = (case m of Panic \<Rightarrow> Panic | Done x \<Rightarrow> k x)"

definition assert_that :: "bool \<Rightarrow> 'a exec \<Rightarrow> 'a exec" where
  "assert_that b m = (if b then m else Panic)"

fun exec_fold :: "('i \<Rightarrow> 's \<Rightarrow> 's exec) \<Rightarrow> 'i list \<Rightarrow> 's \<Rightarrow> 's exec" where
  "exec_fold body [] s = Done s"
| "exec_fold body (x # xs) s = exec_bind (body x s) (exec_fold body xs)"

text \<open>\<^verbatim>\<open>for (i, x) in xs.iter().enumerate()\<close> with a body that only asserts.\<close>

fun assert_indexed :: "(nat \<Rightarrow> 'a \<Rightarrow> bool) \<Rightarrow> nat \<Rightarrow> 'a list \<Rightarrow> unit exec" where
  "assert_indexed P i [] = Done ()"
| "assert_indexed P i (x # xs) = assert_that (P i x) (assert_indexed P (Suc i) xs)"

section \<open>Total correctness\<close>

definition returns :: "'a exec \<Rightarrow> ('a \<Rightarrow> bool) \<Rightarrow> bool" where
  "returns m P = (case m of Panic \<Rightarrow> False | Done x \<Rightarrow> P x)"

named_theorems returns_intros \<open>rules for statements that do not panic\<close>

lemma exec_bind_simps [simp]:
  "exec_bind Panic k = Panic"
  "exec_bind (Done x) k = k x"
  by (simp_all add: exec_bind_def)

lemma assert_that_simps [simp]:
  "assert_that True m = m"
  "assert_that False m = Panic"
  by (simp_all add: assert_that_def)

lemma returns_simps [simp]:
  "returns (Done x) P \<longleftrightarrow> P x"
  "returns Panic P \<longleftrightarrow> False"
  by (simp_all add: returns_def)

lemma returnsE:
  assumes "returns m P"
  obtains x where "m = Done x" and "P x"
  using assms by (cases m) simp_all

lemma returns_unit: "returns m (\<lambda>_. True) \<longleftrightarrow> m = Done ()"
  by (cases m) simp_all

lemma returns_assert [simp]: "returns (assert_that b m) P \<longleftrightarrow> b \<and> returns m P"
  by (simp add: assert_that_def)

lemma returns_conseq: "returns m P \<Longrightarrow> (\<And>x. P x \<Longrightarrow> Q x) \<Longrightarrow> returns m Q"
  by (cases m) simp_all

lemma returns_bind [returns_intros]:
  "returns m P \<Longrightarrow> (\<And>x. P x \<Longrightarrow> returns (k x) Q) \<Longrightarrow> returns (exec_bind m k) Q"
  by (cases m) simp_all

lemma returns_bind_iff: "returns (exec_bind m k) Q \<longleftrightarrow> returns m (\<lambda>x. returns (k x) Q)"
  by (cases m) simp_all

lemma assert_indexed_Done:
  "assert_indexed P i xs = Done () \<longleftrightarrow> (\<forall>j < length xs. P (i + j) (xs ! j))"
proof (induction xs arbitrary: i)
  case (Cons x xs)
  show ?case
    by (cases "P i x") (auto simp: Cons.IH less_Suc_eq_0_disj)
qed simp

lemma exec_fold_checks:
  "(\<And>x. x \<in> set xs \<Longrightarrow> check x = Done ()) \<Longrightarrow> exec_fold (\<lambda>x _. check x) xs u = Done u"
  by (induction xs arbitrary: u) simp_all

text \<open>
  The contract of a loop body: an invariant that may depend on how many iterations are left, so
  that a bound on the input's length can pay for every iteration.
\<close>

locale asserting_loop =
  fixes body :: "'i \<Rightarrow> 's \<Rightarrow> 's exec" and inv :: "nat \<Rightarrow> 's \<Rightarrow> bool"
  assumes body_returns: "inv (Suc n) s \<Longrightarrow> returns (body x s) (inv n)"
begin

lemma loop_returns: "inv (length xs + n) s \<Longrightarrow> returns (exec_fold body xs s) (inv n)"
proof (induction xs arbitrary: s)
  case (Cons x xs)
  then have "returns (body x s) (inv (length xs + n))" by (intro body_returns) simp
  then show ?case by (auto intro: returns_bind Cons.IH)
qed simp

lemma loop_returns_0: "inv (length xs) s \<Longrightarrow> returns (exec_fold body xs s) (inv 0)"
  using loop_returns [of xs 0] by simp

end

section \<open>Durations\<close>

text \<open>\<^verbatim>\<open>Duration + Duration\<close> panics when the seconds exceed 64 bits.\<close>

definition duration_from_secs :: "nat \<Rightarrow> duration" where
  "duration_from_secs s = s * 1000000000"

definition duration_add :: "duration \<Rightarrow> duration \<Rightarrow> duration exec" where
  "duration_add a b = (if a + b < 2 ^ 64 * 1000000000 then Done (a + b) else Panic)"

end
