(* ===== verification/Scenario_Harness.thy ===== *)
theory Scenario_Harness
  imports Assertions Session_Connection
begin

text \<open>
  The scenario framework of the tests (\<^verbatim>\<open>lockframe-harness/src/scenario\<close>): the world of one client
  and one server connection (\<^verbatim>\<open>world.rs\<close>), the runner that takes them through a handshake and,
  if asked, lets time pass (\<^verbatim>\<open>builder.rs\<close>), the oracles that judge the final world (\<^verbatim>\<open>oracle.rs\<close>)
  and the actors for driving the two ends by hand (\<^verbatim>\<open>actor.rs\<close>). The clock reading of the environment is
  an argument of the runner.
\<close>

section \<open>The world\<close>

text \<open>The rate of a packet loss is a floating-point number that nothing computes with: its type is open.\<close>

datatype 'f network_event =
    Partition
  | PartitionHealed
  | PacketLoss 'f
  | Latency u64 u64

record 'f scenario_world =
  sw_client :: "connection option"
  sw_server :: "connection option"
  client_frames_sent :: u64
  client_frames_received :: u64
  server_frames_sent :: u64
  server_frames_received :: u64
  network_events :: "'f network_event list"

definition scenario_world_new :: "'f scenario_world" where
  "scenario_world_new =
     \<lparr>sw_client = None, sw_server = None, client_frames_sent = 0, client_frames_received = 0,
      server_frames_sent = 0, server_frames_received = 0, network_events = []\<rparr>"

definition set_client :: "connection \<Rightarrow> 'f scenario_world \<Rightarrow> 'f scenario_world exec" where
  "set_client c w = assert_that (sw_client w = None) (Done (w\<lparr>sw_client := Some c\<rparr>))"

definition set_server :: "connection \<Rightarrow> 'f scenario_world \<Rightarrow> 'f scenario_world exec" where
  "set_server c w = assert_that (sw_server w = None) (Done (w\<lparr>sw_server := Some c\<rparr>))"

definition world_client :: "'f scenario_world \<Rightarrow> connection exec" where
  "world_client w = (case sw_client w of Some c \<Rightarrow> Done c | None \<Rightarrow> Panic)"

definition world_server :: "'f scenario_world \<Rightarrow> connection exec" where
  "world_server w = (case sw_server w of Some c \<Rightarrow> Done c | None \<Rightarrow> Panic)"

definition record_client_frame_sent :: "'f scenario_world \<Rightarrow> 'f scenario_world" where
  "record_client_frame_sent w = w\<lparr>client_frames_sent := client_frames_sent w + 1\<rparr>"

definition record_client_frame_received :: "'f scenario_world \<Rightarrow> 'f scenario_world" where
  "record_client_frame_received w = w\<lparr>client_frames_received := client_frames_received w + 1\<rparr>"

definition record_server_frame_sent :: "'f scenario_world \<Rightarrow> 'f scenario_world" where
  "record_server_frame_sent w = w\<lparr>server_frames_sent := server_frames_sent w + 1\<rparr>"

definition record_server_frame_received :: "'f scenario_world \<Rightarrow> 'f scenario_world" where
  "record_server_frame_received w = w\<lparr>server_frames_received := server_frames_received w + 1\<rparr>"

definition record_network_event :: "'f network_event \<Rightarrow> 'f scenario_world \<Rightarrow> 'f scenario_world" where
  "record_network_event ev w = w\<lparr>network_events := network_events w @ [ev]\<rparr>"

text \<open>\<^verbatim>\<open>&&\<close> does not look at the server when the client is not authenticated; the pair reads both.\<close>

definition world_all_authenticated :: "'f scenario_world \<Rightarrow> bool exec" where
  "world_all_authenticated w =
     exec_bind (world_client w) (\<lambda>c.
       if conn_state c = Authenticated
       then exec_bind (world_server w) (\<lambda>s. Done (conn_state s = Authenticated))
       else Done False)"

definition world_session_ids_match :: "'f scenario_world \<Rightarrow> bool exec" where
  "world_session_ids_match w =
     exec_bind (world_client w) (\<lambda>c. exec_bind (world_server w) (\<lambda>s.
       Done (case (conn_session_id c, conn_session_id s) of
               (Some client_id, Some server_id) \<Rightarrow> client_id = server_id
             | _ \<Rightarrow> False)))"

section \<open>Oracles\<close>

type_synonym 'f oracle_fn = "'f scenario_world \<Rightarrow> (string + unit) exec"

definition all_authenticated :: "'f oracle_fn" where
  "all_authenticated w =
     exec_bind (world_all_authenticated w) (\<lambda>b.
       Done (if b then Inr () else Inl ''Not all actors are authenticated''))"

definition session_ids_match :: "'f oracle_fn" where
  "session_ids_match w =
     exec_bind (world_session_ids_match w) (\<lambda>b.
       Done (if b then Inr () else Inl ''Session IDs do not match across actors''))"

fun all_of :: "'f oracle_fn list \<Rightarrow> 'f oracle_fn" where
  "all_of [] w = Done (Inr ())"
| "all_of (oracle # oracles) w =
     exec_bind (oracle w) (\<lambda>res. case res of Inl e \<Rightarrow> Done (Inl e) | Inr _ \<Rightarrow> all_of oracles w)"

section \<open>The runner\<close>

record scenario =
  sc_client_config :: connection_config
  sc_server_config :: connection_config
  time_advance :: "duration option"

definition scenario_new :: scenario where
  "scenario_new =
     \<lparr>sc_client_config = connection_config_default, sc_server_config = connection_config_default, time_advance = None\<rparr>"

definition with_client_config :: "connection_config \<Rightarrow> scenario \<Rightarrow> scenario" where
  "with_client_config cfg sc = sc\<lparr>sc_client_config := cfg\<rparr>"

definition with_server_config :: "connection_config \<Rightarrow> scenario \<Rightarrow> scenario" where
  "with_server_config cfg sc = sc\<lparr>sc_server_config := cfg\<rparr>"

definition with_time_advance :: "duration \<Rightarrow> scenario \<Rightarrow> scenario" where
  "with_time_advance d sc = sc\<lparr>time_advance := Some d\<rparr>"

record 'f runnable_scenario =
  rs_scenario :: scenario
  rs_oracle :: "'f oracle_fn"

definition scenario_oracle :: "'f oracle_fn \<Rightarrow> scenario \<Rightarrow> 'f runnable_scenario" where
  "scenario_oracle oracle sc = \<lparr>rs_scenario = sc, rs_oracle = oracle\<rparr>"

datatype actor = Client | Server

text \<open>
  The pattern \<^verbatim>\<open>[ConnectionAction::SendFrame(frame)]\<close>, on which the runner and the actors both insist.
\<close>

definition single_send :: "connection_action list \<Rightarrow> frame option" where
  "single_send actions = (case actions of [SendFrame f] \<Rightarrow> Some f | _ \<Rightarrow> None)"

text \<open>
  The runner drops its world when a step fails, so a step returns the error alone or the new world.
\<close>

definition execute_handshake ::
    "ciborium \<Rightarrow> instant \<Rightarrow> 'f scenario_world \<Rightarrow> (string + 'f scenario_world) exec" where
  "execute_handshake cb now w =
     exec_bind (world_client w) (\<lambda>client.
     case send_hello cb now client of
       (_, Inl e) \<Rightarrow> Done (Inl (''client send_hello failed: '' @ show_connection_error e))
     | (client1, Inr actions) \<Rightarrow>
         (case single_send actions of
            None \<Rightarrow> Done (Inl ''client send_hello returned unexpected actions'')
          | Some hello_frame \<Rightarrow>
              let w1 = record_server_frame_received (record_client_frame_sent (w\<lparr>sw_client := Some client1\<rparr>)) in
              exec_bind (world_server w1) (\<lambda>server.
              case handle_frame cb hello_frame now server of
                (_, Inl e) \<Rightarrow> Done (Inl (''server handle_frame(Hello) failed: '' @ show_connection_error e))
              | (server1, Inr actions) \<Rightarrow>
                  (case single_send actions of
                     None \<Rightarrow> Done (Inl ''server handle_frame(Hello) returned unexpected actions'')
                   | Some hello_reply_frame \<Rightarrow>
                       let w2 = record_client_frame_received
                                  (record_server_frame_sent (w1\<lparr>sw_server := Some server1\<rparr>)) in
                       exec_bind (world_client w2) (\<lambda>client.
                       case handle_frame cb hello_reply_frame now client of
                         (_, Inl e) \<Rightarrow>
                           Done (Inl (''client handle_frame(HelloReply) failed: '' @ show_connection_error e))
                       | (client2, Inr actions) \<Rightarrow>
                           if actions \<noteq> []
                           then Done (Inl ''client handle_frame(HelloReply) returned unexpected actions'')
                           else Done (Inr (w2\<lparr>sw_client := Some client2\<rparr>)))))))"

fun process_actions :: "actor \<Rightarrow> connection_action list \<Rightarrow> 'f scenario_world \<Rightarrow> 'f scenario_world" where
  "process_actions actor [] w = w"
| "process_actions actor (Close _ # actions) w = process_actions actor actions w"
| "process_actions actor (SendFrame _ # actions) w =
     process_actions actor actions
       (case actor of Client \<Rightarrow> record_client_frame_sent w | Server \<Rightarrow> record_server_frame_sent w)"

definition tick_connections :: "instant \<Rightarrow> 'f scenario_world \<Rightarrow> 'f scenario_world exec" where
  "tick_connections now w =
     exec_bind (world_client w) (\<lambda>client.
       let (client1, client_actions) = tick now client;
           w1 = process_actions Client client_actions (w\<lparr>sw_client := Some client1\<rparr>)
       in exec_bind (world_server w1) (\<lambda>server.
            let (server1, server_actions) = tick now server
            in Done (process_actions Server server_actions (w1\<lparr>sw_server := Some server1\<rparr>))))"

text \<open>\<^verbatim>\<open>Instant + Duration\<close> panics when the seconds leave the signed 64-bit range.\<close>

definition instant_add :: "instant \<Rightarrow> duration \<Rightarrow> instant exec" where
  "instant_add now d = (if now + d < 2 ^ 63 * 1000000000 then Done (now + d) else Panic)"

definition scenario_run :: "ciborium \<Rightarrow> instant \<Rightarrow> 'f runnable_scenario \<Rightarrow> (string + unit) exec" where
  "scenario_run cb now rs =
     (let sc = rs_scenario rs;
          client = connection_new now (sc_client_config sc);
          server = set_session_id 0x1000000000000000 (connection_new now (sc_server_config sc))
      in exec_bind (set_client client scenario_world_new) (\<lambda>w.
         exec_bind (set_server server w) (\<lambda>w.
         exec_bind (execute_handshake cb now w) (\<lambda>res.
           case res of
             Inl e \<Rightarrow> Done (Inl e)
           | Inr w \<Rightarrow>
               exec_bind
                 (case time_advance sc of
                    None \<Rightarrow> Done w
                  | Some advance \<Rightarrow> exec_bind (instant_add now advance) (\<lambda>future. tick_connections future w))
                 (rs_oracle rs)))))"

section \<open>Actors\<close>

record scenario_actor =
  actor_name :: string
  actor_connection :: connection
  actor_now :: instant

definition actor_new :: "string \<Rightarrow> connection \<Rightarrow> instant \<Rightarrow> scenario_actor" where
  "actor_new name c now = \<lparr>actor_name = name, actor_connection = c, actor_now = now\<rparr>"

text \<open>
  \<^verbatim>\<open>if actions.len() != 1\<close> and the match on the first action that follows, with the name of the
  method in the messages.
\<close>

definition extract_send :: "string \<Rightarrow> connection_action list \<Rightarrow> string + frame" where
  "extract_send what actions =
     (case actions of
        [action] \<Rightarrow> (case action of SendFrame f \<Rightarrow> Inr f | _ \<Rightarrow> Inl (''Expected SendFrame action from '' @ what))
      | _ \<Rightarrow> Inl (''Expected 1 action from '' @ what @ '', got '' @ show_nat (length actions)))"

definition client_actor_send_hello ::
    "ciborium \<Rightarrow> scenario_actor \<Rightarrow> scenario_actor \<times> (string + frame)" where
  "client_actor_send_hello cb a =
     (case send_hello cb (actor_now a) (actor_connection a) of
        (c, res) \<Rightarrow>
          (a\<lparr>actor_connection := c\<rparr>,
           case res of
             Inl e \<Rightarrow> Inl (''Client '' @ actor_name a @ '' failed to send_hello: '' @ show_connection_error e)
           | Inr actions \<Rightarrow> extract_send ''send_hello'' actions))"

definition client_actor_handle_hello_reply ::
    "ciborium \<Rightarrow> frame \<Rightarrow> scenario_actor \<Rightarrow> scenario_actor \<times> (string + unit)" where
  "client_actor_handle_hello_reply cb f a =
     (case handle_frame cb f (actor_now a) (actor_connection a) of
        (c, res) \<Rightarrow>
          (a\<lparr>actor_connection := c\<rparr>,
           case res of
             Inl e \<Rightarrow> Inl (''Client '' @ actor_name a @ '' failed to handle HelloReply: '' @ show_connection_error e)
           | Inr actions \<Rightarrow>
               if actions \<noteq> []
               then Inl (''Unexpected actions from HelloReply: '' @ show_nat (length actions) @ '' actions'')
               else Inr ()))"

definition server_actor_handle_hello ::
    "ciborium \<Rightarrow> frame \<Rightarrow> scenario_actor \<Rightarrow> scenario_actor \<times> (string + frame)" where
  "server_actor_handle_hello cb f a =
     (case handle_frame cb f (actor_now a) (actor_connection a) of
        (c, res) \<Rightarrow>
          (a\<lparr>actor_connection := c\<rparr>,
           case res of
             Inl e \<Rightarrow> Inl (''Server '' @ actor_name a @ '' failed to handle Hello: '' @ show_connection_error e)
           | Inr actions \<Rightarrow> extract_send ''handle_hello'' actions))"

definition client_expect_authenticated :: "scenario_actor \<Rightarrow> string + unit" where
  "client_expect_authenticated a =
     (if conn_state (actor_connection a) \<noteq> Authenticated
      then Inl (''Client '' @ actor_name a @ '' expected Authenticated, got ''
             @ show_connection_state (conn_state (actor_connection a)))
      else Inr ())"

definition server_expect_authenticated :: "scenario_actor \<Rightarrow> string + unit" where
  "server_expect_authenticated a =
     (if conn_state (actor_connection a) \<noteq> Authenticated
      then Inl (''Server '' @ actor_name a @ '' expected Authenticated, got ''
             @ show_connection_state (conn_state (actor_connection a)))
      else Inr ())"

section \<open>The handshake\<close>

abbreviation hello_payload :: payload where
  "hello_payload \<equiv> Payload_Hello \<lparr>hello_version = 1, hello_capabilities = [], auth_token = None\<rparr>"

abbreviation reply_payload :: "u64 \<Rightarrow> payload" where
  "reply_payload sid \<equiv> Payload_HelloReply \<lparr>reply_session_id = sid, reply_capabilities = [], challenge = None\<rparr>"

text \<open>The CBOR library reads back the two payloads of a handshake, and they fit a frame.\<close>

definition handshake_readable :: "ciborium \<Rightarrow> u64 \<Rightarrow> bool" where
  "handshake_readable cb sid \<longleftrightarrow>
     (\<forall>p \<in> {hello_payload, reply_payload sid}.
        cbor_inverse cb p \<and> length (fst (payload_ser cb p)) \<le> 16777216)"

definition established :: "instant \<Rightarrow> connection_config \<Rightarrow> u64 \<Rightarrow> connection" where
  "established now cfg sid =
     \<lparr>conn_state = Authenticated, conn_config = cfg, last_activity = now, last_heartbeat = None,
      conn_session_id = Some sid\<rparr>"

lemma single_send_simps [simp]: "single_send [SendFrame f] = Some f" "single_send [] = None"
  by (simp_all add: single_send_def)

lemmas record_frame_defs =
  record_client_frame_sent_def record_client_frame_received_def
  record_server_frame_sent_def record_server_frame_received_def

lemma execute_handshake_established:
  assumes "handshake_readable cb sid" and "sw_client w = Some (connection_new now cc)"
    and "sw_server w = Some (set_session_id sid (connection_new now cs))"
  shows "execute_handshake cb now w = Done (Inr (w\<lparr>
     sw_client := Some (established now cc sid), sw_server := Some (established now cs sid),
     client_frames_sent := client_frames_sent w + 1, client_frames_received := client_frames_received w + 1,
     server_frames_sent := server_frames_sent w + 1, server_frames_received := server_frames_received w + 1\<rparr>))"
proof -
  have "cbor_inverse cb p" "length (fst (payload_ser cb p)) \<le> 16777216"
    if "p \<in> {hello_payload, reply_payload sid}" for p
    using assms(1) that by (auto simp: handshake_readable_def)
  note sends = send_payload_inverse [OF this]
  obtain f where f: "send_payload cb hello_payload = Inr [SendFrame f]"
      "opcode_enum (header f) = Some Op_Hello" "from_frame cb f = Inr hello_payload"
    using sends [of hello_payload] by auto
  obtain g where g: "send_payload cb (reply_payload sid) = Inr [SendFrame g]"
      "opcode_enum (header g) = Some Op_HelloReply" "from_frame cb g = Inr (reply_payload sid)"
    using sends [of "reply_payload sid"] by auto
  show ?thesis
    using assms(2,3) f g
    by (simp add: execute_handshake_def world_client_def world_server_def send_hello_def handle_frame_def
        connection_new_def set_session_id_def as_hello_def as_hello_reply_def record_frame_defs
        established_def Let_def)
qed

section \<open>Letting time pass\<close>

text \<open>What one tick makes of an established connection and of the frames it has sent.\<close>

definition aged :: "instant \<Rightarrow> duration \<Rightarrow> connection \<Rightarrow> connection" where
  "aged now d c =
     (if idle_timeout (conn_config c) < d then conn_close c
      else c\<lparr>last_heartbeat := Some (now + d), last_activity := now + d\<rparr>)"

definition beats :: "duration \<Rightarrow> connection_config \<Rightarrow> u64" where
  "beats d cfg = (if idle_timeout cfg < d then 0 else 1)"

lemma tick_established:
  "tick (now + d) (established now cfg sid) =
     (aged now d (established now cfg sid),
      if idle_timeout cfg < d then [Close (''idle timeout after '' @ show_duration d)] else [SendFrame ping_frame])"
  by (simp add: tick_def check_timeout_def established_def aged_def)

lemma tick_connections_established:
  assumes "sw_client w = Some (established now cc sid)" and "sw_server w = Some (established now cs sid)"
  shows "tick_connections (now + d) w = Done (w\<lparr>
     sw_client := Some (aged now d (established now cc sid)),
     sw_server := Some (aged now d (established now cs sid)),
     client_frames_sent := client_frames_sent w + beats d cc,
     server_frames_sent := server_frames_sent w + beats d cs\<rparr>)"
  using assms
  by (simp add: tick_connections_def world_client_def world_server_def tick_established record_frame_defs beats_def)

text \<open>The world an oracle is given.\<close>

definition final_world :: "instant \<Rightarrow> scenario \<Rightarrow> 'f scenario_world" where
  "final_world now sc =
     (let client = established now (sc_client_config sc) 0x1000000000000000;
          server = established now (sc_server_config sc) 0x1000000000000000 in
      case time_advance sc of
        None \<Rightarrow>
          \<lparr>sw_client = Some client, sw_server = Some server, client_frames_sent = 1,
           client_frames_received = 1, server_frames_sent = 1, server_frames_received = 1, network_events = []\<rparr>
      | Some d \<Rightarrow>
          \<lparr>sw_client = Some (aged now d client), sw_server = Some (aged now d server),
           client_frames_sent = 1 + beats d (sc_client_config sc), client_frames_received = 1,
           server_frames_sent = 1 + beats d (sc_server_config sc), server_frames_received = 1,
           network_events = []\<rparr>)"

definition clock_in_range :: "instant \<Rightarrow> scenario \<Rightarrow> bool" where
  "clock_in_range now sc \<longleftrightarrow>
     (case time_advance sc of None \<Rightarrow> True | Some d \<Rightarrow> now + d < 2 ^ 63 * 1000000000)"

lemma scenario_run_final:
  assumes "handshake_readable cb 0x1000000000000000" and "clock_in_range now sc"
  shows "scenario_run cb now (scenario_oracle oracle sc) = oracle (final_world now sc)"
proof -
  let ?cc = "sc_client_config sc" and ?cs = "sc_server_config sc" and ?sid = "0x1000000000000000 :: u64"
  let ?w = "scenario_world_new\<lparr>sw_client := Some (connection_new now ?cc),
    sw_server := Some (set_session_id ?sid (connection_new now ?cs))\<rparr> :: 'a scenario_world"
  have handshake: "execute_handshake cb now ?w = Done (Inr
    \<lparr>sw_client = Some (established now ?cc ?sid), sw_server = Some (established now ?cs ?sid),
     client_frames_sent = 1, client_frames_received = 1, server_frames_sent = 1, server_frames_received = 1,
     network_events = []\<rparr>)"
    by (subst execute_handshake_established [OF assms(1)]) (simp_all add: scenario_world_new_def)
  show ?thesis
  proof (cases "time_advance sc")
    case None
    with handshake show ?thesis
      by (simp add: scenario_run_def scenario_oracle_def set_client_def set_server_def scenario_world_new_def
          final_world_def)
  next
    case (Some d)
    with handshake assms(2) show ?thesis
      by (simp add: scenario_run_def scenario_oracle_def set_client_def set_server_def scenario_world_new_def
          final_world_def clock_in_range_def instant_add_def tick_connections_established)
  qed
qed

text \<open>What the final world shows to an oracle.\<close>

definition expired :: "scenario \<Rightarrow> connection_config \<Rightarrow> bool" where
  "expired sc cfg \<longleftrightarrow> (case time_advance sc of None \<Rightarrow> False | Some d \<Rightarrow> idle_timeout cfg < d)"

definition heartbeats :: "scenario \<Rightarrow> connection_config \<Rightarrow> u64" where
  "heartbeats sc cfg = (if time_advance sc = None \<or> expired sc cfg then 0 else 1)"

lemma final_world_connections:
  "\<exists>c s. sw_client (final_world now sc) = Some c \<and> sw_server (final_world now sc) = Some s \<and>
     conn_session_id c = Some 0x1000000000000000 \<and> conn_session_id s = Some 0x1000000000000000 \<and>
     conn_state c = (if expired sc (sc_client_config sc) then Closed else Authenticated) \<and>
     conn_state s = (if expired sc (sc_server_config sc) then Closed else Authenticated)"
  by (simp add: final_world_def expired_def aged_def established_def conn_close_def Let_def split: option.split)

lemma final_world_counts:
  "client_frames_sent (final_world now sc) = 1 + heartbeats sc (sc_client_config sc)"
  "server_frames_sent (final_world now sc) = 1 + heartbeats sc (sc_server_config sc)"
  "client_frames_received (final_world now sc) = 1" "server_frames_received (final_world now sc) = 1"
  by (simp_all add: final_world_def heartbeats_def expired_def beats_def Let_def split: option.split)

section \<open>The library's oracles\<close>

text \<open>
  The two oracles together accept exactly the scenarios in which nothing expired; the second one
  never fails by itself, because a closed connection keeps its session.
\<close>

lemma oracle_verdicts:
  assumes "sw_client w = Some c" and "sw_server w = Some s"
  shows "all_authenticated w =
      Done (if conn_state c = Authenticated \<and> conn_state s = Authenticated then Inr ()
            else Inl ''Not all actors are authenticated'')"
    and "session_ids_match w =
      Done (if conn_session_id c = conn_session_id s \<and> conn_session_id c \<noteq> None then Inr ()
            else Inl ''Session IDs do not match across actors'')"
  using assms
  by (simp_all add: all_authenticated_def session_ids_match_def world_all_authenticated_def
      world_session_ids_match_def world_client_def world_server_def split: option.split)

lemma oracles_on_final_world:
  "all_authenticated (final_world now sc :: 'f scenario_world) =
     Done (if expired sc (sc_client_config sc) \<or> expired sc (sc_server_config sc)
           then Inl ''Not all actors are authenticated'' else Inr ())"
  "session_ids_match (final_world now sc :: 'f scenario_world) = Done (Inr ())"
proof -
  obtain c s where w: "sw_client (final_world now sc :: 'f scenario_world) = Some c"
      "sw_server (final_world now sc :: 'f scenario_world) = Some s"
      "conn_session_id c = Some 0x1000000000000000" "conn_session_id s = Some 0x1000000000000000"
      "conn_state c = (if expired sc (sc_client_config sc) then Closed else Authenticated)"
      "conn_state s = (if expired sc (sc_server_config sc) then Closed else Authenticated)"
    using final_world_connections by blast
  show "all_authenticated (final_world now sc :: 'f scenario_world) =
     Done (if expired sc (sc_client_config sc) \<or> expired sc (sc_server_config sc)
           then Inl ''Not all actors are authenticated'' else Inr ())"
    "session_ids_match (final_world now sc :: 'f scenario_world) = Done (Inr ())"
    by (simp_all add: oracle_verdicts [OF w(1,2)] w(3-6))
qed

lemma standard_oracles_verdict:
  assumes "handshake_readable cb 0x1000000000000000" and "clock_in_range now sc"
  shows "scenario_run cb now (scenario_oracle (all_of [all_authenticated, session_ids_match]) sc) =
     Done (if expired sc (sc_client_config sc) \<or> expired sc (sc_server_config sc)
           then Inl ''Not all actors are authenticated'' else Inr ())"
  by (simp add: scenario_run_final [OF assms] oracles_on_final_world)

section \<open>Actors and runner\<close>

text \<open>The three calls by which a test drives a client and a server actor through a handshake.\<close>

definition actor_handshake ::
    "ciborium \<Rightarrow> scenario_actor \<Rightarrow> scenario_actor \<Rightarrow> string + scenario_actor \<times> scenario_actor" where
  "actor_handshake cb client server =
     (case client_actor_send_hello cb client of
        (_, Inl e) \<Rightarrow> Inl e
      | (client1, Inr hello) \<Rightarrow>
          (case server_actor_handle_hello cb hello server of
             (_, Inl e) \<Rightarrow> Inl e
           | (server1, Inr reply) \<Rightarrow>
               (case client_actor_handle_hello_reply cb reply client1 of
                  (_, Inl e) \<Rightarrow> Inl e
                | (client2, Inr _) \<Rightarrow> Inr (client2, server1))))"

lemma extract_send_Inr: "extract_send what actions = Inr f \<longleftrightarrow> single_send actions = Some f"
  by (auto simp: extract_send_def single_send_def split: list.splits connection_action.splits)

lemma extract_send_cases:
  obtains (send) f where "single_send actions = Some f" and "\<And>what. extract_send what actions = Inr f"
    | (none) "single_send actions = None" and "\<And>what. \<exists>e. extract_send what actions = Inl e"
proof (cases "single_send actions")
  case None
  moreover have "\<exists>e. extract_send what actions = Inl e" for what
    using None extract_send_Inr [of what actions] by (cases "extract_send what actions") auto
  ultimately show thesis by (rule none)
next
  case (Some f)
  then show thesis using extract_send_Inr by (intro send [of f]) simp_all
qed

definition outcome :: "'e + 'a \<Rightarrow> 'a option" where
  "outcome r = (case r of Inl _ \<Rightarrow> None | Inr x \<Rightarrow> Some x)"

lemma outcome_simps [simp]: "outcome (Inl e) = None" "outcome (Inr x) = Some x"
  by (simp_all add: outcome_def)

text \<open>Both ways of driving a handshake agree: they succeed on the same connections, with the same result.\<close>

definition world_pair :: "'f scenario_world \<Rightarrow> connection option \<times> connection option" where
  "world_pair w = (sw_client w, sw_server w)"

definition actor_pair :: "scenario_actor \<times> scenario_actor \<Rightarrow> connection option \<times> connection option" where
  "actor_pair p = (Some (actor_connection (fst p)), Some (actor_connection (snd p)))"

lemma actors_match_runner:
  assumes "sw_client w = Some c" and "sw_server w = Some s"
  shows "returns (execute_handshake cb now w)
     (\<lambda>res. map_option world_pair (outcome res) =
        map_option actor_pair (outcome (actor_handshake cb (actor_new n c now) (actor_new m s now))))"
proof -
  obtain c1 res1 where hello: "send_hello cb now c = (c1, res1)" by fastforce
  show ?thesis
  proof (cases res1)
    case (Inl e)
    with hello assms show ?thesis
      by (simp add: execute_handshake_def world_client_def actor_handshake_def client_actor_send_hello_def actor_new_def)
  next
    case sent: (Inr acts1)
    show ?thesis
    proof (cases acts1 rule: extract_send_cases)
      case none
      then obtain e where "extract_send ''send_hello'' acts1 = Inl e" by blast
      with none(1) hello sent assms show ?thesis
        by (simp add: execute_handshake_def world_client_def actor_handshake_def client_actor_send_hello_def actor_new_def)
    next
      case (send f)
      obtain s1 res2 where reply: "handle_frame cb f now s = (s1, res2)" by fastforce
      note opened = hello sent send assms execute_handshake_def world_client_def world_server_def actor_handshake_def
        client_actor_send_hello_def server_actor_handle_hello_def actor_new_def record_frame_defs Let_def
      show ?thesis
      proof (cases res2)
        case (Inl e)
        with reply show ?thesis by (simp add: opened)
      next
        case replied: (Inr acts2)
        show ?thesis
        proof (cases acts2 rule: extract_send_cases)
          case none
          then obtain e where "extract_send ''handle_hello'' acts2 = Inl e" by blast
          with none(1) reply replied show ?thesis by (simp add: opened)
        next
          case send2: (send g)
          with reply replied show ?thesis
            by (simp add: opened client_actor_handle_hello_reply_def world_pair_def actor_pair_def
                split: prod.split sum.split)
        qed
      qed
    qed
  qed
qed

section \<open>Properties\<close>

text \<open>
  C18. What every scenario tests: whatever the two configurations, the handshake succeeds and the
  oracle alone decides the result, on a world in which both ends hold the session of the server and
  exactly one frame went each way. If time passes, each end is closed when its own idle timeout is
  exceeded, and otherwise is still authenticated and has sent one heartbeat more.
\<close>

theorem scenario_outcome:
  assumes "handshake_readable cb 0x1000000000000000" and "clock_in_range now sc"
  shows "\<exists>w :: 'f scenario_world. \<exists>c s.
     (\<forall>oracle. scenario_run cb now (scenario_oracle oracle sc) = oracle w) \<and>
     sw_client w = Some c \<and> sw_server w = Some s \<and>
     conn_session_id c = Some 0x1000000000000000 \<and> conn_session_id s = Some 0x1000000000000000 \<and>
     conn_state c = (if expired sc (sc_client_config sc) then Closed else Authenticated) \<and>
     conn_state s = (if expired sc (sc_server_config sc) then Closed else Authenticated) \<and>
     client_frames_sent w = 1 + heartbeats sc (sc_client_config sc) \<and> client_frames_received w = 1 \<and>
     server_frames_sent w = 1 + heartbeats sc (sc_server_config sc) \<and> server_frames_received w = 1"
  using scenario_run_final [OF assms] final_world_connections [of now sc] final_world_counts [of now sc] by blast

lemma sample_cbor_handshake: "handshake_readable sample_cbor 0x1000000000000000"
  by (simp add: handshake_readable_def reads_back_def sample_cbor_def)

theorem scenario_outcome_witness:
  "scenario_run sample_cbor 5
     (scenario_oracle (all_authenticated :: unit oracle_fn) (with_time_advance 61000000000 scenario_new)) =
     Done (Inl ''Not all actors are authenticated'')"
proof -
  let ?sc = "with_time_advance 61000000000 scenario_new"
  have sc: "clock_in_range 5 ?sc" "expired ?sc (sc_client_config ?sc)"
    by (simp_all add: clock_in_range_def expired_def with_time_advance_def scenario_new_def
        connection_config_default_def DEFAULT_IDLE_TIMEOUT_def)
  obtain w :: "unit scenario_world" and c s where
    w: "\<forall>oracle. scenario_run sample_cbor 5 (scenario_oracle oracle ?sc) = oracle w"
      "sw_client w = Some c" "sw_server w = Some s" "conn_state c = Closed"
    using scenario_outcome [OF sample_cbor_handshake sc(1), where 'f = unit] sc(2) by auto
  then show ?thesis by (simp add: oracle_verdicts)
qed

end
