(* ===== verification/Sim_Server.thy ===== *)
theory Sim_Server
  imports Server_Runtime
begin

text \<open>
  The server of the simulation tests (\<^verbatim>\<open>lockframe-harness/src/sim_server.rs\<close>): the production driver
  behind a simulated network. Each operation calls the driver and executes the actions at once; a
  connection the driver wants closed is also reported back to it. The listener and the sockets belong
  to the network library: what accepting a connection and writing a buffer give is an argument of the
  operation, and a write may depend on all writes of the operation before it.
\<close>

section \<open>The server\<close>

datatype sim_error =
    SIE_Accept string
  | SIE_Other string
  | SIE_InvalidData protocol_error
  | SIE_Write string

type_synonym network = "deliveries \<Rightarrow> u64 \<Rightarrow> bytes \<Rightarrow> string option"

record ('x, 's) sim_server =
  ss_driver :: "('x, 's) server_driver"
  ss_connections :: "u64 set"
  ss_next_session_id :: u64

definition sim_bind_with_config :: "string + unit \<Rightarrow> server_config \<Rightarrow> sim_error + ('x, memory_storage) sim_server" where
  "sim_bind_with_config listener config =
     (case listener of
        Inl e \<Rightarrow> Inl (SIE_Accept e)
      | Inr _ \<Rightarrow> Inr \<lparr>ss_driver = driver_new memory_new config, ss_connections = {}, ss_next_session_id = 1\<rparr>)"

definition sim_bind :: "string + unit \<Rightarrow> sim_error + ('x, memory_storage) sim_server" where
  "sim_bind listener = sim_bind_with_config listener server_config_default"

definition sim_send_frame ::
    "network \<Rightarrow> ('x, 's) sim_server \<Rightarrow> u64 \<Rightarrow> frame \<Rightarrow> deliveries \<Rightarrow> deliveries \<times> (sim_error + unit)" where
  "sim_send_frame net srv session_id f sent =
     (if session_id \<in> ss_connections srv then
        (case encode f [] of
           Inl e \<Rightarrow> (sent, Inl (SIE_InvalidData e))
         | Inr buf \<Rightarrow>
             (case net sent session_id buf of
                Some e \<Rightarrow> (sent, Inl (SIE_Write e))
              | None \<Rightarrow> (sent @ [(session_id, buf)], Inr ())))
      else (sent, Inr ()))"

text \<open>The loop over the sessions of a room.\<close>

fun sim_send_all ::
    "network \<Rightarrow> ('x, 's) sim_server \<Rightarrow> u64 option \<Rightarrow> frame \<Rightarrow> u64 list \<Rightarrow> deliveries \<Rightarrow>
       deliveries \<times> (sim_error + unit)" where
  "sim_send_all net srv exclude_session f [] sent = (sent, Inr ())"
| "sim_send_all net srv exclude_session f (session_id # session_ids) sent =
     (if Some session_id \<noteq> exclude_session then
        (case sim_send_frame net srv session_id f sent of
           (sent1, Inl e) \<Rightarrow> (sent1, Inl e)
         | (sent1, Inr _) \<Rightarrow> sim_send_all net srv exclude_session f session_ids sent1)
      else sim_send_all net srv exclude_session f session_ids sent)"

definition sim_close_connection ::
    "('x, 's) services \<Rightarrow> readings \<Rightarrow> u64 \<Rightarrow> string \<Rightarrow> ('x, 's) sim_server \<Rightarrow> ('x, 's) sim_server" where
  "sim_close_connection sv rd session_id reason srv =
     srv\<lparr>ss_connections := ss_connections srv - {session_id},
         ss_driver := fst (driver_step sv (rd, DC_Event (ConnectionClosed session_id reason)) (ss_driver srv))\<rparr>"

fun sim_execute_action ::
    "('x, 's) services \<Rightarrow> network \<Rightarrow> readings \<Rightarrow> server_action \<Rightarrow> ('x, 's) sim_server \<Rightarrow> deliveries \<Rightarrow>
       ('x, 's) sim_server \<times> deliveries \<times> (sim_error + unit)" where
  "sim_execute_action sv net rd (SendToSession session_id f) srv sent =
     (srv, sim_send_frame net srv session_id f sent)"
| "sim_execute_action sv net rd (BroadcastToRoom room_id f exclude_session) srv sent =
     (srv, sim_send_all net srv exclude_session f
        (hash_order sv (driver_sessions_in_room (ss_driver srv) room_id)) sent)"
| "sim_execute_action sv net rd (CloseConnection session_id reason) srv sent =
     (sim_close_connection sv rd session_id reason srv, sent, Inr ())"
| "sim_execute_action sv net rd (SV_PersistFrame room_id log_index f) srv sent =
     (srv\<lparr>ss_driver := (ss_driver srv)\<lparr>d_storage :=
        fst (so_store_frame (sv_storage sv) room_id log_index f (d_storage (ss_driver srv)))\<rparr>\<rparr>, sent, Inr ())"
| "sim_execute_action sv net rd (SV_PersistMlsState room_id st) srv sent =
     (srv\<lparr>ss_driver := (ss_driver srv)\<lparr>d_storage :=
        fst (so_store_mls_state (sv_storage sv) room_id st (d_storage (ss_driver srv)))\<rparr>\<rparr>, sent, Inr ())"
| "sim_execute_action sv net rd (Log level message timestamp) srv sent = (srv, sent, Inr ())"

fun sim_execute_actions ::
    "('x, 's) services \<Rightarrow> network \<Rightarrow> readings \<Rightarrow> server_action list \<Rightarrow> ('x, 's) sim_server \<Rightarrow> deliveries \<Rightarrow>
       ('x, 's) sim_server \<times> deliveries \<times> (sim_error + unit)" where
  "sim_execute_actions sv net rd [] srv sent = (srv, sent, Inr ())"
| "sim_execute_actions sv net rd (action # actions) srv sent =
     (case sim_execute_action sv net rd action srv sent of
        (srv1, sent1, Inl e) \<Rightarrow> (srv1, sent1, Inl e)
      | (srv1, sent1, Inr _) \<Rightarrow> sim_execute_actions sv net rd actions srv1 sent1)"

text \<open>
  Every operation returns the server, the buffers written and its result, which a panic of the driver
  may take the place of. The common end of the operations: an error of the driver becomes an I/O
  error, actions are executed.
\<close>

type_synonym ('x, 's, 'a) sim_result = "('x, 's) sim_server \<times> deliveries \<times> (sim_error + 'a) exec"

definition sim_finish ::
    "('x, 's) services \<Rightarrow> network \<Rightarrow> readings \<Rightarrow> (server_error + server_action list) exec \<Rightarrow>
       ('x, 's) sim_server \<Rightarrow> ('x, 's, unit) sim_result" where
  "sim_finish sv net rd res srv =
     (case res of
        Panic \<Rightarrow> (srv, [], Panic)
      | Done (Inl e) \<Rightarrow> (srv, [], Done (Inl (SIE_Other (show_server_error e))))
      | Done (Inr actions) \<Rightarrow>
          (case sim_execute_actions sv net rd actions srv [] of
             (srv', sent, r) \<Rightarrow> (srv', sent, Done r)))"

definition sim_accept_connection ::
    "('x, 's) services \<Rightarrow> network \<Rightarrow> readings \<Rightarrow> string + unit \<Rightarrow> ('x, 's) sim_server \<Rightarrow> ('x, 's, u64) sim_result" where
  "sim_accept_connection sv net rd incoming srv =
     (case incoming of
        Inl e \<Rightarrow> (srv, [], Done (Inl (SIE_Accept e)))
      | Inr _ \<Rightarrow>
          let session_id = ss_next_session_id srv;
              (d, res) = driver_step sv (rd, DC_Event (ConnectionAccepted session_id)) (ss_driver srv);
              srv1 = srv\<lparr>ss_next_session_id := session_id + 1, ss_driver := d\<rparr>
          in case res of
               Done (Inr actions) \<Rightarrow>
                 (case sim_finish sv net rd res
                     (srv1\<lparr>ss_connections := insert session_id (ss_connections srv1)\<rparr>) of
                    (srv2, sent, Done (Inr _)) \<Rightarrow> (srv2, sent, Done (Inr session_id))
                  | (srv2, sent, Done (Inl e)) \<Rightarrow> (srv2, sent, Done (Inl e))
                  | (srv2, sent, Panic) \<Rightarrow> (srv2, sent, Panic))
             | Done (Inl e) \<Rightarrow> (srv1, [], Done (Inl (SIE_Other (show_server_error e))))
             | Panic \<Rightarrow> (srv1, [], Panic))"

definition sim_tick :: "('x, 's) services \<Rightarrow> network \<Rightarrow> readings \<Rightarrow> ('x, 's) sim_server \<Rightarrow> ('x, 's, unit) sim_result" where
  "sim_tick sv net rd srv =
     (let (d, res) = driver_step sv (rd, DC_Event Tick) (ss_driver srv)
      in sim_finish sv net rd res (srv\<lparr>ss_driver := d\<rparr>))"

definition sim_process_frame ::
    "('x, 's) services \<Rightarrow> network \<Rightarrow> readings \<Rightarrow> u64 \<Rightarrow> frame \<Rightarrow> ('x, 's) sim_server \<Rightarrow> ('x, 's, unit) sim_result" where
  "sim_process_frame sv net rd session_id f srv =
     (let (d, res) = driver_step sv (rd, DC_Event (FrameReceived session_id f)) (ss_driver srv)
      in sim_finish sv net rd res (srv\<lparr>ss_driver := d\<rparr>))"

text \<open>Of the actions of a new room only the log lines are looked at.\<close>

definition sim_create_room ::
    "('x, 's) services \<Rightarrow> readings \<Rightarrow> u128 \<Rightarrow> u64 \<Rightarrow> ('x, 's) sim_server \<Rightarrow> ('x, 's, unit) sim_result" where
  "sim_create_room sv rd room_id creator_session_id srv =
     (case driver_create_room sv rd room_id creator_session_id (ss_driver srv) of
        (d, Inl e) \<Rightarrow> (srv\<lparr>ss_driver := d\<rparr>, [], Done (Inl (SIE_Other (show_server_error e))))
      | (d, Inr actions) \<Rightarrow> (srv\<lparr>ss_driver := d\<rparr>, [], Done (Inr ())))"

definition sim_subscribe_to_room ::
    "u64 \<Rightarrow> u128 \<Rightarrow> ('x, 's) sim_server \<Rightarrow> ('x, 's) sim_server \<times> bool" where
  "sim_subscribe_to_room session_id room_id srv =
     (let (d, b) = subscribe_to_room session_id room_id (ss_driver srv) in (srv\<lparr>ss_driver := d\<rparr>, b))"

definition sim_has_room :: "('x, 's) sim_server \<Rightarrow> u128 \<Rightarrow> bool" where
  "sim_has_room srv room_id = driver_has_room (ss_driver srv) room_id"

definition sim_connection_count :: "('x, 's) sim_server \<Rightarrow> nat" where
  "sim_connection_count srv = connection_count (ss_driver srv)"

definition sim_room_epoch :: "('x, 's) services \<Rightarrow> ('x, 's) sim_server \<Rightarrow> u128 \<Rightarrow> u64 option" where
  "sim_room_epoch sv srv room_id = room_epoch sv (ss_driver srv) room_id"

section \<open>Runs\<close>

text \<open>Every operation that changes the server, each with its own clock readings and network.\<close>

datatype sim_op =
    SO_Accept "string + unit"
  | SO_Tick
  | SO_Frame u64 frame
  | SO_CreateRoom u128 u64
  | SO_Subscribe u64 u128

fun sim_step ::
    "('x, 's) services \<Rightarrow> readings \<times> network \<times> sim_op \<Rightarrow> ('x, 's) sim_server \<Rightarrow>
       ('x, 's) sim_server \<times> deliveries \<times> (sim_error + unit) exec" where
  "sim_step sv (rd, net, SO_Accept incoming) srv =
     apsnd (apsnd (map_exec (map_sum id (\<lambda>_. ())))) (sim_accept_connection sv net rd incoming srv)"
| "sim_step sv (rd, net, SO_Tick) srv = sim_tick sv net rd srv"
| "sim_step sv (rd, net, SO_Frame session_id f) srv = sim_process_frame sv net rd session_id f srv"
| "sim_step sv (rd, net, SO_CreateRoom room_id session_id) srv = sim_create_room sv rd room_id session_id srv"
| "sim_step sv (rd, net, SO_Subscribe session_id room_id) srv =
     (fst (sim_subscribe_to_room session_id room_id srv), [], Done (Inr ()))"

section \<open>Writers and sessions\<close>

abbreviation known_sessions :: "('x, 's) server_driver \<Rightarrow> u64 set" where
  "known_sessions d \<equiv> dom (d_connections d)"

lemma tick_all_connected: "dom (fst (tick_all now sids conns)) = dom conns"
proof (induction sids arbitrary: conns)
  case (Cons sid sids)
  then show ?case by (cases "conns sid") (auto simp: split_beta Let_def split: if_splits)
qed simp

lemma session_frame_connected:
  "d_connections d sid = Some c \<Longrightarrow> known_sessions (fst (handle_session_frame sv rd sid f c d)) = known_sessions d"
  by (auto simp: handle_session_frame_def Let_def split: prod.split sum.split)

lemma room_frame_connected [simp]:
  "d_connections (fst (process_room_frame sv rd sid f acts d)) = d_connections d"
  by (simp add: process_room_frame_def split: prod.split)

lemma sync_request_connected:
  "handle_sync_request sv rd sid f d = Done (d', acts) \<Longrightarrow> d_connections d' = d_connections d"
  by (auto simp: handle_sync_request_def Let_def split: sum.splits option.splits exec.splits)

lemma frame_received_connected:
  assumes "handle_frame_received sv rd sid f d = Done (d', res)"
  shows "known_sessions d' = known_sessions d"
proof (cases "d_connections d sid")
  case None
  with assms show ?thesis by (simp add: handle_frame_received_def)
next
  case (Some c)
  consider (session) "opcode_enum (header f) \<in> {Some Op_Hello, Some Op_Ping, Some Op_Pong, Some Op_Goodbye}"
    | (sync) "opcode_enum (header f) = Some Op_SyncRequest"
    | (room) "opcode_enum (header f) \<notin> {Some Op_Hello, Some Op_Ping, Some Op_Pong, Some Op_Goodbye,
        Some Op_SyncRequest}" by blast
  then show ?thesis
  proof cases
    case session
    then have "d' = fst (handle_session_frame sv rd sid f c d)"
      using assms Some by (auto simp: handle_frame_received_def Let_def)
    with session_frame_connected [of d sid c sv rd f] Some show ?thesis by simp
  next
    case sync
    then show ?thesis
      using assms Some sync_request_connected [of sv rd sid f d d']
      by (auto simp: handle_frame_received_def Let_def split: exec.splits)
  next
    case room
    have "d_connections d' = (d_connections d)(sid \<mapsto> update_activity (at_event rd) c)"
    proof (cases "opcode_enum (header f) = Some Op_Welcome")
      case True
      have "d_connections d' = d_connections (fst (d', res))" by simp
      also have "(d', res) = process_room_frame sv rd sid f [Log LL_Debug (''session '' @ show_word sid
          @ '' subscribed to room '' @ show_hex32 (header_room_id (header f)) @ '' via Welcome'') (at_event rd)]
          (d\<lparr>d_connections := (d_connections d)(sid \<mapsto> update_activity (at_event rd) c),
             d_registry := fst (subscribe sid (header_room_id (header f)) (d_registry d))\<rparr>)"
        using assms Some True by (simp add: handle_frame_received_def Let_def)
      finally show ?thesis by (simp add: fun_upd_def)
    next
      case False
      have "d_connections d' = d_connections (fst (d', res))" by simp
      also have "(d', res) = process_room_frame sv rd sid f []
          (d\<lparr>d_connections := (d_connections d)(sid \<mapsto> update_activity (at_event rd) c)\<rparr>)"
        using assms Some False room by (simp add: handle_frame_received_def Let_def)
      finally show ?thesis by (simp add: fun_upd_def)
    qed
    with Some show ?thesis by auto
  qed
qed

lemma driver_step_connected:
  "known_sessions (fst (driver_step sv (rd, call) d)) =
     (case call of
        DC_Event (ConnectionAccepted sid) \<Rightarrow>
          if max_connections (d_config d) \<le> card (known_sessions d) then known_sessions d else insert sid (known_sessions d)
      | DC_Event (ConnectionClosed sid _) \<Rightarrow> known_sessions d - {sid}
      | _ \<Rightarrow> known_sessions d)"
proof (cases call)
  case (DC_Event ev)
  then show ?thesis
  proof (cases ev)
    case (FrameReceived sid f)
    show ?thesis
    proof (cases "handle_frame_received sv rd sid f d")
      case (Done p)
      then have "known_sessions (fst p) = known_sessions d"
        using frame_received_connected [of sv rd sid f d "fst p" "snd p"] by simp
      with Done FrameReceived DC_Event show ?thesis by (simp add: process_event_def split_beta)
    qed (use FrameReceived DC_Event in \<open>simp add: process_event_def\<close>)
  qed (auto simp: process_event_def handle_connection_accepted_def handle_connection_closed_def handle_tick_def
      tick_all_connected split_beta Let_def)
next
  case (DC_CreateRoom r sid)
  then show ?thesis
    by (auto simp: driver_create_room_def Let_def split: option.split prod.split sum.split)
qed (simp_all add: subscribe_to_room_def unsubscribe_from_room_def split_beta Let_def)

text \<open>The sessions the server can write to are those the driver knows.\<close>

definition aligned :: "('x, 's) sim_server \<Rightarrow> bool" where
  "aligned srv \<longleftrightarrow> ss_connections srv = known_sessions (ss_driver srv)"

lemma execute_action_aligned:
  "aligned srv \<Longrightarrow> aligned (fst (sim_execute_action sv net rd a srv sent))"
  by (cases a) (simp_all add: aligned_def sim_close_connection_def driver_step_connected del: driver_step.simps)

lemma execute_actions_aligned:
  "aligned srv \<Longrightarrow> aligned (fst (sim_execute_actions sv net rd acts srv sent))"
proof (induction acts arbitrary: srv sent)
  case (Cons a acts)
  obtain srv1 sent1 res where act: "sim_execute_action sv net rd a srv sent = (srv1, sent1, res)"
    by (metis prod.collapse)
  then have "aligned srv1" using execute_action_aligned [OF Cons.prems, of sv net rd a sent] by simp
  with act Cons.IH show ?case by (simp split: sum.split)
qed simp

lemma finish_aligned: "aligned srv \<Longrightarrow> aligned (fst (sim_finish sv net rd res srv))"
  using execute_actions_aligned [of srv sv net rd _ "[]"]
  by (auto simp: sim_finish_def split: exec.split sum.split prod.split) (metis fst_conv)

text \<open>At the limit the driver refuses a session by closing it, after the server has taken its writer.\<close>

lemma accept_aligned:
  assumes "aligned srv"
  shows "aligned (fst (sim_accept_connection sv net rd incoming srv))"
proof (cases incoming)
  case (Inl e)
  with assms show ?thesis by (simp add: sim_accept_connection_def)
next
  case (Inr u)
  let ?sid = "ss_next_session_id srv" and ?d = "ss_driver srv"
  show ?thesis
  proof (cases "max_connections (d_config ?d) \<le> card (known_sessions ?d)")
    case True
    with Inr assms show ?thesis
      by (auto simp: sim_accept_connection_def sim_finish_def process_event_def handle_connection_accepted_def
          sim_close_connection_def handle_connection_closed_def aligned_def split_beta Let_def)
  next
    case False
    with Inr assms show ?thesis
      by (auto simp: sim_accept_connection_def sim_finish_def process_event_def handle_connection_accepted_def
          aligned_def split_beta Let_def)
  qed
qed

lemma sim_step_aligned:
  assumes "aligned srv"
  shows "aligned (fst (sim_step sv e srv))"
proof (cases "(sv, e, srv)" rule: sim_step.cases)
  case (1 sv rd net incoming srv)
  then show ?thesis using assms accept_aligned [of srv sv net rd incoming] by (simp add: apsnd_def map_prod_def split_beta)
next
  case (2 sv rd net srv)
  have "aligned (srv\<lparr>ss_driver := fst (driver_step sv (rd, DC_Event Tick) (ss_driver srv))\<rparr>)"
    using 2 assms driver_step_connected [of sv rd "DC_Event Tick" "ss_driver srv"] by (simp add: aligned_def)
  then show ?thesis using 2 finish_aligned by (simp add: sim_tick_def split_beta Let_def)
next
  case (3 sv rd net sid f srv)
  have "aligned (srv\<lparr>ss_driver := fst (driver_step sv (rd, DC_Event (FrameReceived sid f)) (ss_driver srv))\<rparr>)"
    using 3 assms driver_step_connected [of sv rd "DC_Event (FrameReceived sid f)" "ss_driver srv"]
    by (simp add: aligned_def)
  then show ?thesis using 3 finish_aligned by (simp add: sim_process_frame_def split_beta Let_def)
next
  case (4 sv rd net r sid srv)
  then show ?thesis
    using assms driver_step_connected [of sv rd "DC_CreateRoom r sid" "ss_driver srv"]
    by (simp add: sim_create_room_def aligned_def split_beta split: sum.split)
next
  case (5 sv rd net sid r srv)
  then show ?thesis
    using assms driver_step_connected [of sv rd "DC_Subscribe sid r" "ss_driver srv"]
    by (simp add: sim_subscribe_to_room_def aligned_def split_beta Let_def)
qed

interpretation writers: preserved_by "sim_step sv" aligned for sv
  by unfold_locales (rule sim_step_aligned)

text \<open>
  The simulated server keeps what the tasks of the runtime keep: it makes the same calls and executes
  the same actions.
\<close>

context task_invariant
begin

lemma sim_execute_action_good:
  assumes "good (ss_driver srv)" and "ok a"
  shows "good (ss_driver (fst (sim_execute_action sv net rd a srv sent)))"
proof (cases a)
  case (CloseConnection sid reason)
  then show ?thesis
    using call_good [OF assms(1)] by (simp add: sim_close_connection_def del: driver_step.simps) (metis prod.collapse)
qed (use assms exec_good [OF assms, of "{}"] in simp_all)

lemma sim_execute_good:
  "good (ss_driver srv) \<Longrightarrow> \<forall>a\<in>set acts. ok a \<Longrightarrow>
     good (ss_driver (fst (sim_execute_actions sv net rd acts srv sent)))"
proof (induction acts arbitrary: srv sent)
  case (Cons a acts)
  obtain srv1 sent1 res where act: "sim_execute_action sv net rd a srv sent = (srv1, sent1, res)"
    by (metis prod.collapse)
  then have "good (ss_driver srv1)"
    using sim_execute_action_good [OF Cons.prems(1), of a net rd sent] Cons.prems(2) by simp
  with act Cons.IH Cons.prems(2) show ?case by (simp split: sum.split)
qed simp

lemma sim_call_good:
  assumes "good d" and "driver_step sv (rd', call) d = (d', res)" and "ss_driver srv = d'"
  shows "good (ss_driver (fst (sim_finish sv net rd res srv)))"
proof -
  have d': "good d'" using call_good [OF assms(1,2)] .
  have "good (ss_driver (fst (sim_execute_actions sv net rd acts srv [])))" if "res = Done (Inr acts)" for acts
    using sim_execute_good [of srv acts] d' call_ok [OF assms(1)] assms(2,3) that by blast
  then show ?thesis
    using d' assms(3) by (simp add: sim_finish_def split_beta split: exec.split sum.split)
qed

lemma sim_accept_good:
  assumes "good (ss_driver srv)"
  shows "good (ss_driver (fst (sim_accept_connection sv net rd incoming srv)))"
proof -
  let ?call = "DC_Event (ConnectionAccepted (ss_next_session_id srv))"
  obtain d res where call: "driver_step sv (rd, ?call) (ss_driver srv) = (d, res)" by fastforce
  note finish = sim_call_good [OF assms call]
  show ?thesis
  proof (cases "\<exists>u acts. incoming = Inr u \<and> res = Done (Inr acts)")
    case True
    let ?srv = "srv\<lparr>ss_next_session_id := ss_next_session_id srv + 1, ss_driver := d,
      ss_connections := insert (ss_next_session_id srv) (ss_connections srv)\<rparr>"
    have "fst (sim_accept_connection sv net rd incoming srv) = fst (sim_finish sv net rd res ?srv)"
      using True call
      by (auto simp: sim_accept_connection_def Let_def simp del: driver_step.simps split: prod.split exec.split sum.split)
    with finish [of ?srv] show ?thesis by simp
  next
    case False
    then show ?thesis
      using assms call_good [OF assms call] call
      by (auto simp: sim_accept_connection_def Let_def simp del: driver_step.simps split: sum.split exec.split)
  qed
qed

lemma sim_step_good:
  assumes "good (ss_driver srv)"
  shows "good (ss_driver (fst (sim_step sv e srv)))"
proof -
  obtain rd net op where e: "e = (rd, net, op)" by (metis prod.collapse)
  have call: "good (fst (driver_step sv (rd, call) (ss_driver srv)))" for call
    using call_good [OF assms] by (metis prod.collapse)
  show ?thesis
  proof (cases op)
    case (SO_Accept incoming)
    then show ?thesis using e sim_accept_good [OF assms] by (simp add: apsnd_def map_prod_def split_beta)
  next
    case SO_Tick
    then show ?thesis
      using e sim_call_good [OF assms surjective_pairing]
      by (simp add: sim_tick_def split_beta Let_def del: driver_step.simps)
  next
    case (SO_Frame sid f)
    then show ?thesis
      using e sim_call_good [OF assms surjective_pairing]
      by (simp add: sim_process_frame_def split_beta Let_def del: driver_step.simps)
  next
    case (SO_CreateRoom r sid)
    then show ?thesis
      using e call [of "DC_CreateRoom r sid"] by (simp add: sim_create_room_def split_beta split: sum.split)
  next
    case (SO_Subscribe sid r)
    then show ?thesis
      using e call [of "DC_Subscribe sid r"] by (simp add: sim_subscribe_to_room_def split_beta Let_def)
  qed
qed

sublocale simulated: preserved_by "sim_step sv" "\<lambda>srv. good (ss_driver srv)"
  by unfold_locales (rule sim_step_good)

end

lemma execute_action_books:
  "d_connections (fst (execute_action sv a d conns)) = d_connections d"
  "d_registry (fst (execute_action sv a d conns)) = d_registry d"
  "d_config (fst (execute_action sv a d conns)) = d_config d"
  by (cases a; auto simp: Let_def split: sum.split)+

interpretation ledger: task_invariant sv driver_inv "\<lambda>_. True" for sv :: "('x, 's) services"
proof
  show "driver_inv d'" if "driver_inv d" "driver_step sv e d = (d', res)"
    for d d' :: "('x, 's) server_driver" and e res
    using driver_step_inv [OF that(1), of sv e] that(2) by simp
qed (simp_all add: execute_action_books)

section \<open>The simulated server and the runtime\<close>

text \<open>
  What the driver asks for is either on the level of rooms, without closing a connection and with
  broadcasts that fit a frame, or on the level of sessions.
\<close>

definition room_level :: "server_action \<Rightarrow> bool" where
  "room_level a \<longleftrightarrow>
     (case a of
        CloseConnection _ _ \<Rightarrow> False
      | BroadcastToRoom _ f _ \<Rightarrow> length (payload f) \<le> unat MAX_PAYLOAD_SIZE
      | _ \<Rightarrow> True)"

definition session_level :: "server_action \<Rightarrow> bool" where
  "session_level a \<longleftrightarrow>
     (case a of SendToSession _ _ \<Rightarrow> True | CloseConnection _ _ \<Rightarrow> True | Log _ _ _ \<Rightarrow> True | _ \<Rightarrow> False)"

definition one_level :: "server_action list \<Rightarrow> bool" where
  "one_level acts \<longleftrightarrow> list_all room_level acts \<or> list_all session_level acts"

lemma room_level_simps [simp]:
  "room_level (SendToSession s f)" "\<not> room_level (CloseConnection s m)" "room_level (SV_PersistFrame r i f)"
  "room_level (SV_PersistMlsState r st)" "room_level (Log l m t)"
  "room_level (BroadcastToRoom r f x) \<longleftrightarrow> length (payload f) \<le> unat MAX_PAYLOAD_SIZE"
  by (simp_all add: room_level_def)

lemma session_level_simps [simp]:
  "session_level (SendToSession s f)" "session_level (CloseConnection s m)" "\<not> session_level (SV_PersistFrame r i f)"
  "\<not> session_level (SV_PersistMlsState r st)" "session_level (Log l m t)" "\<not> session_level (BroadcastToRoom r f x)"
  "session_level (server_action_of s c)"
  by (simp_all add: session_level_def server_action_of_def split: connection_action.split)

lemma tick_all_session_level: "list_all session_level (snd (tick_all now sids conns))"
  by (induction sids arbitrary: conns) (auto simp: list_all_iff split_beta Let_def split: option.split)

lemma error_response_room_level: "list_all room_level (make_error_response cb rd s r e)"
  by (simp add: make_error_response_def Let_def split: sum.split)

text \<open>A broadcast carries the payload of the frame that caused it.\<close>

definition repeats :: "frame \<Rightarrow> room_action \<Rightarrow> bool" where
  "repeats f ra \<longleftrightarrow> (case ra of Broadcast _ g _ _ \<Rightarrow> payload g = payload f | _ \<Rightarrow> True)"

lemma convert_room_level:
  "repeats f ra \<Longrightarrow> length (payload f) \<le> unat MAX_PAYLOAD_SIZE \<Longrightarrow>
     list_all room_level (convert_room_action cb rd s ra)"
  by (cases ra) (simp_all add: repeats_def Let_def split: sum.split)

lemma seq_process_repeats:
  assumes "seq_process_frame ops f sq s = (sq', s', Inr acts)" and "a \<in> set acts"
  shows "repeats f (room_action_of now a)"
  using assms
  by (auto simp: seq_process_frame_def Let_def repeats_def split: sum.splits if_splits prod.splits option.splits)

lemma rm_process_repeats:
  assumes "rm_process_frame om ed ops now f rm s = (rm', s', Inr acts)" and "a \<in> set acts"
  shows "repeats f a"
  using assms(1)
proof (cases rule: rm_process_stages)
  case (sequenced s1 y sres)
  obtain sqacts rest where "sres = Inr sqacts" "acts = map (room_action_of now) sqacts @ rest"
      "\<forall>a\<in>set rest. \<exists>r st t. a = PersistMlsState r st t"
    using sequenced(3) [OF refl] by blast
  with seq_process_repeats [of ops f "rm_sequencer rm" s1 "rm_sequencer rm'" s' sqacts] sequenced(2) assms(2)
  show ?thesis by (auto simp: repeats_def)
qed simp

lemma process_room_frame_level:
  assumes "process_room_frame sv rd sid f acts0 d = (d', Inr acts)" and "list_all room_level acts0"
    and "length (payload f) \<le> unat MAX_PAYLOAD_SIZE"
  shows "list_all room_level acts"
proof -
  obtain rm s ras where run: "rm_process_frame (sv_openmls sv) (sv_ed25519 sv) (sv_storage sv) (at_room rd) f
      (d_room_manager d) (d_storage d) = (rm, s, Inr ras)"
    and acts: "acts = acts0 @ concat (map (convert_room_action (sv_cbor sv) rd sid) ras)"
    using assms(1) by (auto simp: process_room_frame_def split: prod.splits sum.splits)
  have "list_all room_level (convert_room_action (sv_cbor sv) rd sid ra)" if "ra \<in> set ras" for ra
    by (rule convert_room_level [OF rm_process_repeats [OF run that] assms(3)])
  with assms(2) show ?thesis by (auto simp: acts list_all_iff)
qed

lemma sync_request_level:
  assumes "handle_sync_request sv rd sid f d = Done (d', acts)"
  shows "list_all room_level acts"
proof -
  have "list_all room_level (convert_room_action cb rd sid ra)"
    if "rm_handle_sync_request om ops now r s i limit rm st = Done (st', Inr ra)"
    for cb om ops now r s i limit rm st st' ra
    using that
    by (auto simp: rm_handle_sync_request_def Let_def split: option.splits exec.splits sum.splits prod.splits)
  then show ?thesis
    using assms error_response_room_level
    by (auto simp: handle_sync_request_def Let_def split: sum.splits option.splits exec.splits)
qed

lemma frame_received_level:
  assumes "handle_frame_received sv rd sid f d = Done (d', Inr acts)"
    and "length (payload f) \<le> unat MAX_PAYLOAD_SIZE"
  shows "one_level acts"
proof (cases "d_connections d sid")
  case None
  with assms show ?thesis by (simp add: handle_frame_received_def)
next
  case (Some c)
  let ?session = "opcode_enum (header f) \<in> {Some Op_Hello, Some Op_Ping, Some Op_Pong, Some Op_Goodbye}"
  consider (session) "?session" | (sync) "\<not> ?session" and "opcode_enum (header f) = Some Op_SyncRequest"
    | (joining) "\<not> ?session" and "opcode_enum (header f) = Some Op_Welcome"
    | (room) "\<not> ?session" and "opcode_enum (header f) \<notin> {Some Op_SyncRequest, Some Op_Welcome}" by blast
  then show ?thesis
  proof cases
    case session
    then have "handle_session_frame sv rd sid f c d = (d', Inr acts)"
      using assms(1) Some by (auto simp: handle_frame_received_def Let_def)
    then have "list_all session_level acts"
      by (auto simp: handle_session_frame_def Let_def list_all_iff split: prod.splits sum.splits)
    then show ?thesis by (simp add: one_level_def)
  next
    case sync
    then have "handle_sync_request sv rd sid f d = Done (d', acts)"
      using assms(1) Some by (auto simp: handle_frame_received_def Let_def split: exec.splits)
    then show ?thesis using sync_request_level by (auto simp: one_level_def)
  next
    case joining
    with assms(1) Some show ?thesis
      by (auto simp: handle_frame_received_def Let_def one_level_def dest!: process_room_frame_level [OF _ _ assms(2)])
  next
    case room
    with assms(1) Some show ?thesis
      by (auto simp: handle_frame_received_def Let_def one_level_def dest!: process_room_frame_level [OF _ _ assms(2)])
  qed
qed

text \<open>A frame read from a stream fits, since the decoder admits no larger one.\<close>

fun fits :: "driver_call \<Rightarrow> bool" where
  "fits (DC_Event (FrameReceived _ f)) \<longleftrightarrow> length (payload f) \<le> unat MAX_PAYLOAD_SIZE"
| "fits _ \<longleftrightarrow> True"

lemma driver_step_level:
  assumes "driver_step sv (rd, call) d = (d', Done (Inr acts))" and "fits call"
  shows "one_level acts"
proof (cases call)
  case (DC_Event ev)
  then show ?thesis
  proof (cases ev)
    case (FrameReceived sid f)
    then have "handle_frame_received sv rd sid f d = Done (d', Inr acts)"
      using assms(1) DC_Event by (simp add: process_event_def split: exec.splits prod.splits)
    then show ?thesis using frame_received_level assms(2) DC_Event FrameReceived by simp
  next
    case Tick
    then show ?thesis
      using assms(1) DC_Event tick_all_session_level
      by (auto simp: process_event_def handle_tick_def split_beta Let_def one_level_def)
  qed (use assms(1) DC_Event in \<open>auto simp: process_event_def handle_connection_accepted_def
      handle_connection_closed_def split_beta Let_def one_level_def split: if_splits option.splits\<close>)
next
  case (DC_CreateRoom r sid)
  then show ?thesis
    using assms(1) by (auto simp: driver_create_room_def Let_def one_level_def split: option.splits prod.splits sum.splits)
qed (use assms(1) in \<open>auto simp: one_level_def\<close>)

text \<open>Reporting a closed connection to the driver, whatever the reason.\<close>

definition forget :: "u64 \<Rightarrow> ('x, 's) server_driver \<Rightarrow> ('x, 's) server_driver" where
  "forget sid d =
     d\<lparr>d_connections := (d_connections d)(sid := None), d_registry := fst (unregister_session sid (d_registry d))\<rparr>"

abbreviation forget_all :: "u64 list \<Rightarrow> ('x, 's) server_driver \<Rightarrow> ('x, 's) server_driver" where
  "forget_all \<equiv> fold forget"

fun closes :: "server_action list \<Rightarrow> u64 list" where
  "closes [] = []"
| "closes (CloseConnection sid _ # acts) = sid # closes acts"
| "closes (_ # acts) = closes acts"

lemma driver_closed:
  "\<exists>acts. driver_step sv (rd, DC_Event (ConnectionClosed sid reason)) d = (forget sid d, Done (Inr acts)) \<and>
     list_all (\<lambda>a. \<exists>l m t. a = Log l m t) acts"
  by (auto simp: process_event_def handle_connection_closed_def forget_def split_beta Let_def split: option.split)

lemma close_connection_forgets:
  "sim_close_connection sv rd sid reason srv =
     srv\<lparr>ss_connections := ss_connections srv - {sid}, ss_driver := forget sid (ss_driver srv)\<rparr>"
  using driver_closed [of sv rd sid reason "ss_driver srv"]
  by (auto simp: sim_close_connection_def simp del: driver_step.simps)

lemma execute_logs:
  "list_all (\<lambda>a. \<exists>l m t. a = Log l m t) acts \<Longrightarrow> execute_actions sv acts d conns = (d, conns, [], Inr ())"
  by (induction acts) auto

lemma send_frame_matches:
  assumes "sim_send_frame net srv sid f sent = (sent', Inr u)"
  shows "\<exists>new. sent' = sent @ new \<and>
     (\<forall>d. execute_action sv (SendToSession sid f) d (ss_connections srv) = (d, ss_connections srv, new, Inr ()))"
  using assms by (auto simp: sim_send_frame_def split: if_splits sum.splits option.splits)

lemma send_all_matches:
  assumes "encode f [] = Inr buf"
  shows "sim_send_all net srv exclude f sids sent = (sent', Inr u) \<Longrightarrow>
     sent' = sent @ map (\<lambda>sid. (sid, buf)) (filter (\<lambda>sid. Some sid \<noteq> exclude \<and> sid \<in> ss_connections srv) sids)"
proof (induction sids arbitrary: sent)
  case (Cons sid sids)
  show ?case
  proof (cases "Some sid \<noteq> exclude \<and> sid \<in> ss_connections srv")
    case True
    then have "sim_send_all net srv exclude f sids (sent @ [(sid, buf)]) = (sent', Inr u)"
      using Cons.prems assms by (simp add: sim_send_frame_def split: option.splits)
    from Cons.IH [OF this] True show ?thesis by simp
  next
    case False
    then have "sim_send_all net srv exclude f sids sent = (sent', Inr u)"
      using Cons.prems by (auto simp: sim_send_frame_def split: if_splits)
    from Cons.IH [OF this] False show ?thesis by simp
  qed
qed simp

lemma session_level_cases:
  assumes "session_level a"
  obtains (send) sid f where "a = SendToSession sid f" | (close) sid m where "a = CloseConnection sid m"
    | (log) l m t where "a = Log l m t"
  using assms by (cases a) simp_all

lemma session_actions_match:
  "list_all session_level acts \<Longrightarrow> sim_execute_actions sv net rd acts srv sent = (srv', sent', Inr u) \<Longrightarrow>
     \<exists>new. sent' = sent @ new \<and>
       (\<forall>d. execute_actions sv acts d (ss_connections srv) = (d, ss_connections srv', new, Inr ())) \<and>
       ss_connections srv' = ss_connections srv - set (closes acts) \<and>
       ss_driver srv' = forget_all (closes acts) (ss_driver srv)"
proof (induction acts arbitrary: srv sent)
  case (Cons a acts)
  then have rest: "list_all session_level acts" by simp
  have "session_level a" using Cons.prems(1) by simp
  then show ?case
  proof (cases rule: session_level_cases)
    case (send sid f)
    then obtain sent1 where 1: "sim_send_frame net srv sid f sent = (sent1, Inr ())"
        "sim_execute_actions sv net rd acts srv sent1 = (srv', sent', Inr u)"
      using Cons.prems(2) by (auto split: prod.splits sum.splits)
    obtain new1 where new1: "sent1 = sent @ new1"
        "\<And>d. execute_action sv (SendToSession sid f) d (ss_connections srv) = (d, ss_connections srv, new1, Inr ())"
      using send_frame_matches [OF 1(1), of sv] by blast
    obtain new2 where new2: "sent' = sent1 @ new2"
        "\<And>d. execute_actions sv acts d (ss_connections srv) = (d, ss_connections srv', new2, Inr ())"
        "ss_connections srv' = ss_connections srv - set (closes acts)"
        "ss_driver srv' = forget_all (closes acts) (ss_driver srv)"
      using Cons.IH [OF rest 1(2)] by blast
    show ?thesis
      by (rule exI [of _ "new1 @ new2"])
        (use new1 new2 in \<open>simp add: send del: execute_action.simps\<close>)
  next
    case (close sid m)
    with Cons.prems(2) have "sim_execute_actions sv net rd acts
        (srv\<lparr>ss_connections := ss_connections srv - {sid}, ss_driver := forget sid (ss_driver srv)\<rparr>) sent =
        (srv', sent', Inr u)"
      by (simp add: close_connection_forgets)
    from Cons.IH [OF rest this] obtain new where new: "sent' = sent @ new"
        "\<And>d. execute_actions sv acts d (ss_connections srv - {sid}) = (d, ss_connections srv', new, Inr ())"
        "ss_connections srv' = ss_connections srv - {sid} - set (closes acts)"
        "ss_driver srv' = forget_all (closes acts) (forget sid (ss_driver srv))"
      by auto
    then have "ss_connections srv' = ss_connections srv - insert sid (set (closes acts))" by blast
    with new show ?thesis by (simp add: close)
  next
    case (log l m t)
    with Cons.prems(2) have "sim_execute_actions sv net rd acts srv sent = (srv', sent', Inr u)" by simp
    from Cons.IH [OF rest this] show ?thesis by (simp add: log)
  qed
qed simp

lemma encode_fitting: "length (payload f) \<le> unat MAX_PAYLOAD_SIZE \<Longrightarrow> \<exists>buf. encode f [] = Inr buf"
  by (simp add: encode_def)

lemma room_action_matches:
  assumes "room_level a" and "sim_execute_action sv net rd a srv sent = (srv1, sent1, Inr u)"
  shows "\<exists>new. sent1 = sent @ new \<and> ss_connections srv1 = ss_connections srv \<and>
     execute_action sv a (ss_driver srv) (ss_connections srv) = (ss_driver srv1, ss_connections srv, new, Inr ())"
proof (cases a)
  case (SendToSession sid f)
  then have "sim_send_frame net srv sid f sent = (sent1, Inr u)" "srv1 = srv" using assms(2) by auto
  with send_frame_matches [of net srv sid f sent sent1 u sv] SendToSession show ?thesis
    by (auto simp del: execute_action.simps)
next
  case (BroadcastToRoom r f x)
  then obtain buf where buf: "encode f [] = Inr buf" using assms(1) encode_fitting by auto
  have "sim_send_all net srv x f (hash_order sv (driver_sessions_in_room (ss_driver srv) r)) sent = (sent1, Inr u)"
      "srv1 = srv"
    using BroadcastToRoom assms(2) by auto
  with send_all_matches [OF buf] buf BroadcastToRoom show ?thesis by (simp add: Let_def)
qed (use assms in auto)

lemma room_actions_match:
  "list_all room_level acts \<Longrightarrow> sim_execute_actions sv net rd acts srv sent = (srv', sent', Inr u) \<Longrightarrow>
     \<exists>new. sent' = sent @ new \<and> ss_connections srv' = ss_connections srv \<and>
       execute_actions sv acts (ss_driver srv) (ss_connections srv) = (ss_driver srv', ss_connections srv, new, Inr ())"
proof (induction acts arbitrary: srv sent)
  case (Cons a acts)
  then obtain srv1 sent1 where 1: "sim_execute_action sv net rd a srv sent = (srv1, sent1, Inr ())"
      "sim_execute_actions sv net rd acts srv1 sent1 = (srv', sent', Inr u)"
    by (auto split: prod.splits sum.splits)
  have "room_level a" "list_all room_level acts" using Cons.prems(1) by simp_all
  note room_action_matches [OF this(1) 1(1)] Cons.IH [OF this(2) 1(2)]
  then show ?case by (auto simp del: execute_action.simps)
qed simp

lemma room_level_closes: "list_all room_level acts \<Longrightarrow> closes acts = []"
  by (induction acts rule: closes.induct) simp_all

text \<open>
  Executing actions without an I/O error is what the runtime does, followed by the reports of the
  connections closed.
\<close>

lemma actions_match:
  assumes "one_level acts" and "sim_execute_actions sv net rd acts srv [] = (srv', sent, Inr u)"
  shows "\<exists>d. execute_actions sv acts (ss_driver srv) (ss_connections srv) = (d, ss_connections srv', sent, Inr ()) \<and>
     ss_driver srv' = forget_all (closes acts) d \<and> ss_connections srv' \<inter> set (closes acts) = {}"
proof (cases "list_all room_level acts")
  case True
  with room_actions_match [OF True assms(2)] room_level_closes [OF True] show ?thesis by auto
next
  case False
  then have level: "list_all session_level acts" using assms(1) by (simp add: one_level_def)
  from session_actions_match [OF level assms(2)] show ?thesis by auto
qed

definition world_of :: "('x, 's) sim_server \<Rightarrow> ('x, 's) server_world" where
  "world_of srv = \<lparr>w_driver = ss_driver srv, w_open = ss_connections srv, w_tasks = []\<rparr>"

lemma run_outputs_append: "run_outputs step (es @ fs) s = run_outputs step es s @ run_outputs step fs (run_events step es s)"
  by (induction es arbitrary: s) simp_all

text \<open>Events of the runtime that lead from one world to another with the given deliveries.\<close>

definition runs_to ::
    "('x, 's) services \<Rightarrow> ('x, 's) server_world \<Rightarrow> (readings \<times> world_event) list \<Rightarrow> ('x, 's) server_world \<Rightarrow> deliveries \<Rightarrow> bool" where
  "runs_to sv w es w' sent \<longleftrightarrow>
     run_events (world_step sv) es w = w' \<and> concat (run_outputs (world_step sv) es w) = sent"

lemma runs_to_trans:
  "runs_to sv w es w1 sent1 \<Longrightarrow> runs_to sv w1 fs w2 sent2 \<Longrightarrow> runs_to sv w (es @ fs) w2 (sent1 @ sent2)"
  by (auto simp: runs_to_def run_outputs_append)

lemma runs_to_step: "world_step sv e w = (w', sent) \<Longrightarrow> runs_to sv w [e] w' sent"
  by (simp add: runs_to_def)

lemma closed_events:
  "w_open w \<inter> set sids = {} \<Longrightarrow>
     runs_to sv w (map (\<lambda>sid. (rd, WE_Closed sid)) sids) (w\<lparr>w_driver := forget_all sids (w_driver w)\<rparr>) []"
proof (induction sids arbitrary: w)
  case (Cons sid sids)
  obtain acts where "driver_step sv (rd, DC_Event (ConnectionClosed sid ''connection closed'')) (w_driver w) =
      (forget sid (w_driver w), Done (Inr acts))" "list_all (\<lambda>a. \<exists>l m t. a = Log l m t) acts"
    using driver_closed by blast
  then have "world_step sv (rd, WE_Closed sid) w = (w\<lparr>w_driver := forget sid (w_driver w)\<rparr>, [])"
    using Cons.prems by (simp add: call_and_execute_def execute_logs del: driver_step.simps)
  from runs_to_trans [OF runs_to_step [OF this] Cons.IH] Cons.prems show ?case by simp
qed (simp add: runs_to_def)

text \<open>Results that are not the network's doing.\<close>

fun undisturbed :: "(sim_error + unit) exec \<Rightarrow> bool" where
  "undisturbed (Done (Inl (SIE_InvalidData _))) \<longleftrightarrow> False"
| "undisturbed (Done (Inl (SIE_Write _))) \<longleftrightarrow> False"
| "undisturbed _ \<longleftrightarrow> True"

lemma send_frame_disturbed: "sim_send_frame net srv sid f sent = (sent', Inl e) \<Longrightarrow> \<not> undisturbed (Done (Inl e))"
  by (auto simp: sim_send_frame_def split: if_splits sum.splits option.splits)

lemma send_all_disturbed: "sim_send_all net srv x f sids sent = (sent', Inl e) \<Longrightarrow> \<not> undisturbed (Done (Inl e))"
  by (induction sids arbitrary: sent) (auto split: if_splits prod.splits sum.splits dest: send_frame_disturbed)

lemma execute_action_disturbed:
  "sim_execute_action sv net rd a srv sent = (srv', sent', Inl e) \<Longrightarrow> \<not> undisturbed (Done (Inl e))"
  by (cases a) (auto dest: send_frame_disturbed send_all_disturbed)

lemma execute_actions_disturbed:
  "sim_execute_actions sv net rd acts srv sent = (srv', sent', Inl e) \<Longrightarrow> \<not> undisturbed (Done (Inl e))"
proof (induction acts arbitrary: srv sent)
  case (Cons a acts)
  obtain srv1 sent1 r where act: "sim_execute_action sv net rd a srv sent = (srv1, sent1, r)"
    by (metis prod.collapse)
  show ?case
  proof (cases r)
    case (Inl e')
    with act Cons.prems have "e' = e" by simp
    with execute_action_disturbed act Inl show ?thesis by blast
  next
    case (Inr u)
    with act Cons.prems have "sim_execute_actions sv net rd acts srv1 sent1 = (srv', sent', Inl e)" by simp
    then show ?thesis by (rule Cons.IH)
  qed
qed simp

lemma finish_matches:
  assumes "driver_step sv (rd', call) d = (d', res)" and "fits call"
    and "sim_finish sv net rd res srv = (srv', sent, out)" and "undisturbed out"
  obtains (refused) "\<nexists>acts. res = Done (Inr acts)" and "srv' = srv" and "sent = []"
    | (run) acts d2 where "res = Done (Inr acts)"
      and "execute_actions sv acts (ss_driver srv) (ss_connections srv) = (d2, ss_connections srv', sent, Inr ())"
      and "ss_driver srv' = forget_all (closes acts) d2" and "ss_connections srv' \<inter> set (closes acts) = {}"
proof (cases "\<exists>acts. res = Done (Inr acts)")
  case True
  then obtain acts where acts: "res = Done (Inr acts)" by blast
  obtain r where exec: "sim_execute_actions sv net rd acts srv [] = (srv', sent, r)" "out = Done r"
    using assms(3) acts by (auto simp: sim_finish_def split: prod.splits)
  have "r = Inr ()"
  proof (cases r)
    case (Inl e)
    with execute_actions_disturbed [of sv net rd acts srv "[]" srv' sent e] exec assms(4) show ?thesis by simp
  qed simp
  then have ok: "sim_execute_actions sv net rd acts srv [] = (srv', sent, Inr ())" using exec(1) by simp
  have "one_level acts" using driver_step_level [OF _ assms(2)] assms(1) acts by simp
  from actions_match [OF this ok] obtain d2 where
    "execute_actions sv acts (ss_driver srv) (ss_connections srv) = (d2, ss_connections srv', sent, Inr ())"
    "ss_driver srv' = forget_all (closes acts) d2" "ss_connections srv' \<inter> set (closes acts) = {}"
    by blast
  then show thesis by (rule run [OF acts])
next
  case False
  then show thesis
    using assms(3) by (intro refused) (auto simp: sim_finish_def split: exec.splits sum.splits)
qed

text \<open>The events by which the runtime does the same as an operation.\<close>

definition closing :: "readings \<Rightarrow> (server_error + server_action list) exec \<Rightarrow> (readings \<times> world_event) list" where
  "closing rd res =
     (case res of Done (Inr acts) \<Rightarrow> map (\<lambda>sid. (rd, WE_Closed sid)) (closes acts) | _ \<Rightarrow> [])"

definition executing :: "readings \<Rightarrow> (server_error + server_action list) exec \<Rightarrow> (readings \<times> world_event) list" where
  "executing rd res = (case res of Done (Inr _) \<Rightarrow> [(rd, WE_Execute 0)] | _ \<Rightarrow> [])"

fun runtime_events ::
    "('x, 's) services \<Rightarrow> readings \<times> network \<times> sim_op \<Rightarrow> ('x, 's) sim_server \<Rightarrow> (readings \<times> world_event) list" where
  "runtime_events sv (rd, net, SO_Accept (Inl e)) srv = []"
| "runtime_events sv (rd, net, SO_Accept (Inr u)) srv =
     (let sid = ss_next_session_id srv in
      (rd, WE_Accept sid) #
        closing rd (snd (driver_step sv (rd, DC_Event (ConnectionAccepted sid)) (ss_driver srv))))"
| "runtime_events sv (rd, net, SO_Tick) srv =
     (rd, WE_Call (DC_Event Tick)) # closing rd (snd (driver_step sv (rd, DC_Event Tick) (ss_driver srv)))"
| "runtime_events sv (rd, net, SO_Frame sid f) srv =
     (let res = snd (driver_step sv (rd, DC_Event (FrameReceived sid f)) (ss_driver srv)) in
      (rd, WE_Frame sid f) # executing rd res @ closing rd res)"
| "runtime_events sv (rd, net, SO_CreateRoom r sid) srv = [(rd, WE_Call (DC_CreateRoom r sid))]"
| "runtime_events sv (rd, net, SO_Subscribe sid r) srv = [(rd, WE_Call (DC_Subscribe sid r))]"

fun runtime_run ::
    "('x, 's) services \<Rightarrow> (readings \<times> network \<times> sim_op) list \<Rightarrow> ('x, 's) sim_server \<Rightarrow> (readings \<times> world_event) list" where
  "runtime_run sv [] srv = []"
| "runtime_run sv (e # es) srv = runtime_events sv e srv @ runtime_run sv es (fst (sim_step sv e srv))"

lemma call_runs:
  assumes "driver_step sv (rd, call) (w_driver w) = (ss_driver srv, res)" and "fits call"
    and "sim_finish sv net rd res srv = (srv', sent, out)" and "undisturbed out"
    and "w_open w = ss_connections srv" and "w_tasks w = []"
    and "world_step sv e w0 = call_and_execute sv rd call w"
  shows "runs_to sv w0 (e # closing rd res) (world_of srv') sent"
  using assms(1-4)
proof (cases rule: finish_matches)
  case refused
  then have "call_and_execute sv rd call w = (world_of srv', sent)"
    using assms(1,5,6)
    by (auto simp: call_and_execute_def world_of_def simp del: driver_step.simps split: exec.split sum.split)
  moreover have "closing rd res = []"
    using refused(1) by (auto simp: closing_def split: exec.split sum.split)
  ultimately show ?thesis using runs_to_step [of sv e w0] assms(7) by simp
next
  case (run acts d2)
  let ?w1 = "w\<lparr>w_driver := d2, w_open := ss_connections srv'\<rparr>"
  have "call_and_execute sv rd call w = (?w1, sent)"
    using run(1,2) assms(1,5) by (simp add: call_and_execute_def del: driver_step.simps)
  then have 1: "runs_to sv w0 [e] ?w1 sent" using runs_to_step [of sv e w0] assms(7) by simp
  have 2: "runs_to sv ?w1 (map (\<lambda>sid. (rd, WE_Closed sid)) (closes acts))
      (?w1\<lparr>w_driver := forget_all (closes acts) (w_driver ?w1)\<rparr>) []"
    by (rule closed_events) (simp add: run(4))
  have "?w1\<lparr>w_driver := forget_all (closes acts) (w_driver ?w1)\<rparr> = world_of srv'"
    using run(3) assms(6) by (simp add: world_of_def)
  with runs_to_trans [OF 1 2] run(1) show ?thesis by (simp add: closing_def)
qed

lemma frame_runs:
  assumes "sim_process_frame sv net rd sid f srv = (srv', sent, out)" and "undisturbed out"
    and "length (payload f) \<le> unat MAX_PAYLOAD_SIZE"
  shows "runs_to sv (world_of srv) (runtime_events sv (rd, net, SO_Frame sid f) srv) (world_of srv') sent"
proof -
  let ?call = "DC_Event (FrameReceived sid f)" and ?e = "(rd, WE_Frame sid f)"
  obtain d res where call: "driver_step sv (rd, ?call) (ss_driver srv) = (d, res)" by fastforce
  let ?srv = "srv\<lparr>ss_driver := d\<rparr>"
  have finish: "sim_finish sv net rd res ?srv = (srv', sent, out)"
    using assms(1) call by (simp add: sim_process_frame_def del: driver_step.simps)
  have "fits ?call" using assms(3) by simp
  from call this finish assms(2) show ?thesis
  proof (cases rule: finish_matches)
    case refused
    then have "world_step sv ?e (world_of srv) = (world_of srv', sent)"
      using call by (auto simp: world_of_def simp del: driver_step.simps split: exec.split sum.split)
    moreover have "closing rd res = []" "executing rd res = []"
      using refused(1) by (auto simp: closing_def executing_def split: exec.split sum.split)
    ultimately show ?thesis using call runs_to_step [of sv ?e] by (simp del: driver_step.simps world_step.simps)
  next
    case (run acts d2)
    let ?w1 = "\<lparr>w_driver = d, w_open = ss_connections srv, w_tasks = [acts]\<rparr>"
      and ?w2 = "\<lparr>w_driver = d2, w_open = ss_connections srv', w_tasks = []\<rparr>"
    have 1: "runs_to sv (world_of srv) [?e] ?w1 []"
      using call run(1) by (intro runs_to_step) (simp add: world_of_def del: driver_step.simps)
    have 2: "runs_to sv ?w1 [(rd, WE_Execute 0)] ?w2 sent"
      using run(2) by (intro runs_to_step) simp
    have "runs_to sv ?w2 (map (\<lambda>sid. (rd, WE_Closed sid)) (closes acts))
        (?w2\<lparr>w_driver := forget_all (closes acts) (w_driver ?w2)\<rparr>) []"
      by (rule closed_events) (simp add: run(4))
    then have "runs_to sv ?w2 (map (\<lambda>sid. (rd, WE_Closed sid)) (closes acts)) (world_of srv') []"
      using run(3) by (simp add: world_of_def)
    from runs_to_trans [OF runs_to_trans [OF 1 2] this] call run(1) show ?thesis
      by (simp add: closing_def executing_def del: driver_step.simps)
  qed
qed

lemma accept_runs:
  assumes "sim_accept_connection sv net rd (Inr u) srv = (srv', sent, out)"
    and "undisturbed (map_exec (map_sum id (\<lambda>_. ())) out)"
  shows "runs_to sv (world_of srv) (runtime_events sv (rd, net, SO_Accept (Inr u)) srv) (world_of srv') sent"
proof -
  let ?sid = "ss_next_session_id srv"
  let ?call = "DC_Event (ConnectionAccepted ?sid)"
  obtain d acts where call: "driver_step sv (rd, ?call) (ss_driver srv) = (d, Done (Inr acts))"
    by (cases "max_connections (d_config (ss_driver srv)) \<le> card (known_sessions (ss_driver srv))")
      (auto simp: process_event_def handle_connection_accepted_def Let_def)
  let ?srv = "srv\<lparr>ss_next_session_id := ?sid + 1, ss_driver := d, ss_connections := insert ?sid (ss_connections srv)\<rparr>"
  obtain out' where finish: "sim_finish sv net rd (Done (Inr acts)) ?srv = (srv', sent, out')" "undisturbed out'"
    using assms call
    by (auto simp: sim_accept_connection_def Let_def simp del: driver_step.simps
        split: prod.splits exec.splits sum.splits)
  have "runs_to sv (world_of srv) ((rd, WE_Accept ?sid) # closing rd (Done (Inr acts))) (world_of srv') sent"
    by (rule call_runs [of sv rd ?call "(world_of srv)\<lparr>w_open := insert ?sid (ss_connections srv)\<rparr>" ?srv
        "Done (Inr acts)" net srv' sent out' "(rd, WE_Accept ?sid)"])
      (use call finish in \<open>simp_all add: world_of_def del: driver_step.simps\<close>)
  with call show ?thesis by (simp add: Let_def del: driver_step.simps)
qed

lemma tick_runs:
  assumes "sim_tick sv net rd srv = (srv', sent, out)" and "undisturbed out"
  shows "runs_to sv (world_of srv) (runtime_events sv (rd, net, SO_Tick) srv) (world_of srv') sent"
proof -
  obtain d res where call: "driver_step sv (rd, DC_Event Tick) (ss_driver srv) = (d, res)" by fastforce
  have "runs_to sv (world_of srv) ((rd, WE_Call (DC_Event Tick)) # closing rd res) (world_of srv') sent"
    by (rule call_runs [of sv rd "DC_Event Tick" "world_of srv" "srv\<lparr>ss_driver := d\<rparr>" res net srv' sent out])
      (use call assms in \<open>simp_all add: world_of_def sim_tick_def del: driver_step.simps\<close>)
  with call show ?thesis by (simp del: driver_step.simps)
qed

fun op_fits :: "sim_op \<Rightarrow> bool" where
  "op_fits (SO_Frame _ f) \<longleftrightarrow> length (payload f) \<le> unat MAX_PAYLOAD_SIZE"
| "op_fits _ \<longleftrightarrow> True"

lemma create_room_logs:
  "driver_create_room sv rd r sid d = (d', Inr acts) \<Longrightarrow> list_all (\<lambda>a. \<exists>l m t. a = Log l m t) acts"
  by (auto simp: driver_create_room_def Let_def split: option.splits prod.splits sum.splits)

lemma create_room_runs:
  assumes "sim_create_room sv rd r sid srv = (srv', sent, out)"
  shows "runs_to sv (world_of srv) [(rd, WE_Call (DC_CreateRoom r sid))] (world_of srv') sent"
proof -
  obtain d res where create: "driver_create_room sv rd r sid (ss_driver srv) = (d, res)" by fastforce
  then have "world_step sv (rd, WE_Call (DC_CreateRoom r sid)) (world_of srv) = (world_of srv', sent)"
    using assms create_room_logs [of sv rd r sid "ss_driver srv" d]
    by (cases res) (auto simp: sim_create_room_def call_and_execute_def world_of_def execute_logs)
  then show ?thesis by (rule runs_to_step)
qed

lemma sim_step_runs:
  assumes "sim_step sv (rd, net, op) srv = (srv', sent, out)" and "undisturbed out" and "op_fits op"
  shows "runs_to sv (world_of srv) (runtime_events sv (rd, net, op) srv) (world_of srv') sent"
proof (cases op)
  case (SO_Accept incoming)
  show ?thesis
  proof (cases incoming)
    case (Inl e)
    with SO_Accept assms(1) show ?thesis by (simp add: sim_accept_connection_def runs_to_def)
  next
    case (Inr u)
    obtain out' where "sim_accept_connection sv net rd (Inr u) srv = (srv', sent, out')"
        "out = map_exec (map_sum id (\<lambda>_. ())) out'"
      using SO_Accept Inr assms(1) by (cases "sim_accept_connection sv net rd (Inr u) srv") auto
    with accept_runs assms(2) SO_Accept Inr show ?thesis by blast
  qed
next
  case SO_Tick
  then show ?thesis using assms tick_runs [of sv net rd srv] by (simp del: runtime_events.simps)
next
  case (SO_Frame sid f)
  then show ?thesis using assms frame_runs [of sv net rd sid f srv] by (simp del: runtime_events.simps)
next
  case (SO_CreateRoom r sid)
  then show ?thesis using assms create_room_runs [of sv rd r sid srv] by simp
next
  case (SO_Subscribe sid r)
  then have "world_step sv (rd, WE_Call (DC_Subscribe sid r)) (world_of srv) = (world_of srv', sent)"
    using assms(1)
    by (auto simp: sim_subscribe_to_room_def subscribe_to_room_def call_and_execute_def world_of_def split_beta Let_def)
  with SO_Subscribe show ?thesis by (simp add: runs_to_step del: world_step.simps)
qed

section \<open>Consistency\<close>

definition sim_bound :: "server_config \<Rightarrow> ('x, memory_storage) sim_server" where
  "sim_bound cfg = \<lparr>ss_driver = driver_new memory_new cfg, ss_connections = {}, ss_next_session_id = 1\<rparr>"

lemma sim_bind_bound: "sim_bind_with_config (Inr ()) cfg = Inr (sim_bound cfg)"
  by (simp add: sim_bind_with_config_def sim_bound_def)

lemma sim_bound_start:
  "aligned (sim_bound cfg)" "driver_inv (ss_driver (sim_bound cfg))"
  "numbered r (mem_log (d_storage (ss_driver (sim_bound cfg))) r)"
  using driver_new_inv
  by (simp_all add: sim_bound_def aligned_def driver_new_def memory_new_def mem_log_def numbered_def)



text \<open>A test that accepts a connection and hands over its Hello: the reply is delivered.\<close>

definition sample_hello :: frame where
  "sample_hello = frame_new (header_new Op_Hello) [1]"

definition sample_ops :: "(readings \<times> network \<times> sim_op) list" where
  "sample_ops = [(sample_readings, \<lambda>_ _ _. None, SO_Accept (Inr ())),
                 (sample_readings, \<lambda>_ _ _. None, SO_Frame 1 sample_hello)]"

lemma sample_hello_read:
  "opcode_enum (header sample_hello) = Some Op_Hello" "length (payload sample_hello) = 1"
  "from_frame sample_cbor sample_hello =
     Inr (Payload_Hello \<lparr>hello_version = 1, hello_capabilities = [], auth_token = None\<rparr>)"
  by (simp_all add: sample_hello_def from_frame_def payload_decode_def sample_cbor_def de_as_def)

definition sample_accepted :: "(nat, memory_storage) sim_server" where
  "sample_accepted = fst (sim_step sample_services (hd sample_ops) (sim_bound server_config_default))"

lemma sample_accept:
  "sim_step sample_services (hd sample_ops) (sim_bound server_config_default) = (sample_accepted, [], Done (Inr ()))"
  "d_connections (ss_driver sample_accepted) =
     [1 \<mapsto> set_session_id 1 (connection_new 0 connection_config_default)]"
  "ss_connections sample_accepted = {1}"
  by (simp_all add: sample_accepted_def sample_ops_def sim_bound_def sim_accept_connection_def sim_finish_def
      process_event_def handle_connection_accepted_def driver_new_def server_config_default_def
      sample_readings_def Let_def)

lemma sample_handshake:
  "\<exists>buf. snd (sim_step sample_services (sample_readings, \<lambda>_ _ _. None, SO_Frame 1 sample_hello) sample_accepted) =
     ([(1, buf)], Done (Inr ()))"
proof -
  let ?reply = "Payload_HelloReply \<lparr>reply_session_id = 1, reply_capabilities = [], challenge = None\<rparr>"
  have "cbor_inverse sample_cbor ?reply" "length (fst (payload_ser sample_cbor ?reply)) \<le> 16777216"
    by (simp_all add: reads_back_def sample_cbor_def)
  then obtain g where g: "send_payload sample_cbor ?reply = Inr [SendFrame g]" "wf_frame g"
    using send_payload_inverse by blast
  then show ?thesis
    using encode_wf [OF g(2), of "[]"]
    by (simp add: sim_process_frame_def sim_finish_def process_event_def handle_frame_received_def
        handle_session_frame_def handle_frame_def sample_services_def sample_accept(2,3) sample_hello_read
        as_hello_def connection_new_def set_session_id_def server_action_of_def sim_send_frame_def Let_def)
qed


end
