(* ===== verification/Environments.thy ===== *)
theory Environments
  imports Session_Connection
begin

text \<open>
  Where randomness comes from: the environment trait (\<^verbatim>\<open>lockframe-core/src/env.rs\<close>), its production
  and simulation implementations (\<^verbatim>\<open>system_env.rs\<close>, \<^verbatim>\<open>sim_env.rs\<close>) and the provider that hands an
  environment to OpenMLS (\<^verbatim>\<open>mls/provider.rs\<close>). A generator is a state; filling a buffer of \<open>n\<close> bytes
  gives the next state and the bytes. The operating system's generator and the ChaCha generator are
  parameters: a fill returns the byte for every position of the buffer. Clones of a simulation
  environment share one generator, so the state is that of the shared one.
\<close>

section \<open>The trait\<close>

type_synonym 'e filler = "nat \<Rightarrow> 'e \<Rightarrow> 'e \<times> bytes"

definition env_random_u64 :: "'e filler \<Rightarrow> 'e \<Rightarrow> 'e \<times> u64" where
  "env_random_u64 fill env = apsnd random_u64 (fill 8 env)"

definition env_random_u128 :: "'e filler \<Rightarrow> 'e \<Rightarrow> 'e \<times> u128" where
  "env_random_u128 fill env = apsnd random_u128 (fill 16 env)"

section \<open>Implementations\<close>

definition written :: "nat \<Rightarrow> (nat \<Rightarrow> u8) \<Rightarrow> bytes" where
  "written n f = map f [0..<n]"

text \<open>Production: when the operating system fails, the buffer is filled with zeros.\<close>

definition system_random_bytes :: "(nat \<Rightarrow> 'o \<Rightarrow> 'o \<times> (string + (nat \<Rightarrow> u8))) \<Rightarrow> 'o filler" where
  "system_random_bytes getrandom n os =
     (case getrandom n os of
        (os', Inl e) \<Rightarrow> (os', replicate n 0)
      | (os', Inr f) \<Rightarrow> (os', written n f))"

record 'r sim_env =
  env_rng :: 'r

definition sim_env_with_seed :: "(u64 \<Rightarrow> 'r) \<Rightarrow> u64 \<Rightarrow> 'r sim_env" where
  "sim_env_with_seed seed_from_u64 seed = \<lparr>env_rng = seed_from_u64 seed\<rparr>"

definition sim_env_new :: "(u64 \<Rightarrow> 'r) \<Rightarrow> 'r sim_env" where
  "sim_env_new seed_from_u64 = sim_env_with_seed seed_from_u64 0"

definition sim_random_bytes :: "(nat \<Rightarrow> 'r \<Rightarrow> 'r \<times> (nat \<Rightarrow> u8)) \<Rightarrow> 'r sim_env filler" where
  "sim_random_bytes fill_bytes n env =
     (case fill_bytes n (env_rng env) of (rng, f) \<Rightarrow> (env\<lparr>env_rng := rng\<rparr>, written n f))"

section \<open>The provider\<close>

text \<open>The cryptography and the key storage of the provider are OpenMLS's own.\<close>

record 'e mls_provider =
  provider_rand :: 'e

definition mls_provider_new :: "'e \<Rightarrow> 'e mls_provider" where
  "mls_provider_new env = \<lparr>provider_rand = env\<rparr>"

definition provider_now :: "('e \<Rightarrow> instant) \<Rightarrow> 'e mls_provider \<Rightarrow> instant" where
  "provider_now clock p = clock (provider_rand p)"

definition rng_next_u32 :: "'e filler \<Rightarrow> 'e \<Rightarrow> 'e \<times> u32" where
  "rng_next_u32 fill env = apsnd from_le_bytes (fill 4 env)"

definition rng_next_u64 :: "'e filler \<Rightarrow> 'e \<Rightarrow> 'e \<times> u64" where
  "rng_next_u64 fill env = env_random_u64 fill env"

definition rng_fill_bytes :: "'e filler \<Rightarrow> nat \<Rightarrow> 'e \<Rightarrow> 'e \<times> bytes" where
  "rng_fill_bytes fill len env = fill len env"

definition rng_try_fill_bytes :: "'e filler \<Rightarrow> nat \<Rightarrow> 'e \<Rightarrow> 'e \<times> (string + bytes)" where
  "rng_try_fill_bytes fill len env = apsnd Inr (fill len env)"

definition rng_random_array :: "'e filler \<Rightarrow> nat \<Rightarrow> 'e \<Rightarrow> 'e \<times> bytes" where
  "rng_random_array fill len env = fill len env"

definition rng_random_vec :: "'e filler \<Rightarrow> nat \<Rightarrow> 'e \<Rightarrow> 'e \<times> bytes" where
  "rng_random_vec fill len env = fill len env"

section \<open>No random byte is lost\<close>

text \<open>
  The contract of an environment is that it fills the whole buffer. Then every derived number
  determines the bytes it was made of: two draws agree only if the generator repeated itself.
\<close>

locale environment =
  fixes fill :: "'e filler"
  assumes fill_length: "length (snd (fill n env)) = n"
begin

lemma random_u64_lossless: "to_be_bytes (snd (env_random_u64 fill env)) = snd (fill 8 env)"
  using fill_length [of 8 env] by (simp add: env_random_u64_def random_u64_def be64.enc_dec)

lemma random_u128_lossless: "to_be_bytes (snd (env_random_u128 fill env)) = snd (fill 16 env)"
  using fill_length [of 16 env] by (simp add: env_random_u128_def random_u128_def be128.enc_dec)

lemma next_u32_lossless: "rev (to_be_bytes (snd (rng_next_u32 fill env))) = snd (fill 4 env)"
  using fill_length [of 4 env] by (simp add: rng_next_u32_def from_le_bytes_def be32.enc_dec)

lemma random_vec_length: "length (snd (rng_random_vec fill n env)) = n"
  by (simp add: rng_random_vec_def fill_length)

end

lemma length_written [simp]: "length (written n f) = n"
  by (simp add: written_def)

interpretation production_env: environment "system_random_bytes getrandom" for getrandom
  by unfold_locales (simp add: system_random_bytes_def split: prod.split sum.split)

interpretation simulated_env: environment "sim_random_bytes fill_bytes" for fill_bytes
  by unfold_locales (simp add: sim_random_bytes_def split: prod.split)

text \<open>
  The fallback of the production environment makes everything predictable: while the operating
  system fails, every session identifier, every number OpenMLS draws and every key seed is zero.
\<close>

lemma failing_system_predictable:
  assumes "\<And>n os. isl (snd (getrandom n os))"
  shows "snd (rng_random_vec (system_random_bytes getrandom) n os) = replicate n 0"
    and "snd (env_random_u64 (system_random_bytes getrandom) os) = 0"
    and "snd (env_random_u128 (system_random_bytes getrandom) os) = 0"
    and "snd (rng_next_u32 (system_random_bytes getrandom) os) = 0"
proof -
  have fill: "snd (system_random_bytes getrandom k os) = replicate k 0" for k
    using assms [of k os] by (auto simp: system_random_bytes_def split: prod.split sum.split)
  show "snd (rng_random_vec (system_random_bytes getrandom) n os) = replicate n 0"
    by (simp add: rng_random_vec_def fill)
  show "snd (env_random_u64 (system_random_bytes getrandom) os) = 0"
    by (simp add: env_random_u64_def random_u64_def fill)
  show "snd (env_random_u128 (system_random_bytes getrandom) os) = 0"
    by (simp add: env_random_u128_def random_u128_def fill)
  show "snd (rng_next_u32 (system_random_bytes getrandom) os) = 0"
    by (simp add: rng_next_u32_def from_le_bytes_def fill)
qed

end
