(* ===== verification/Transports.thy ===== *)
theory Transports
  imports Server_Runtime
begin

text \<open>
  How a server comes up and what its transports promise: the QUIC transport
  (\<^verbatim>\<open>lockframe-server/src/transport.rs\<close>), the configuration and binding of the production server
  (\<^verbatim>\<open>lib.rs\<close>, \<^verbatim>\<open>main.rs\<close>), the policy type of \<^verbatim>\<open>executor.rs\<close> and the simulated transport
  (\<^verbatim>\<open>lockframe-harness/src/sim_transport.rs\<close>). Address parsing, files, TLS and sockets belong to other
  libraries: they are the record \<open>quic_libs\<close>, or the result of an awaited call as an argument.
\<close>

section \<open>The QUIC transport\<close>

record ('addr, 'cert, 'key, 'tls, 'cfg, 'ep) quic_libs =
  parse_address :: "string \<Rightarrow> string + 'addr"
  read_file :: "string \<Rightarrow> string + bytes"
  pemfile_certs :: "bytes \<Rightarrow> string + 'cert list"
  pemfile_private_key :: "bytes \<Rightarrow> string + 'key option"
  with_single_cert :: "'cert list \<Rightarrow> 'key \<Rightarrow> string + 'tls"
  quic_server_config :: "'tls \<Rightarrow> string list \<Rightarrow> string + 'cfg"
  generate_simple_self_signed :: "string list \<Rightarrow> string + 'cert \<times> 'key"
  endpoint_server :: "'cfg \<Rightarrow> 'addr \<Rightarrow> string + 'ep"

definition quoted :: "string \<Rightarrow> string" where
  "quoted s = [CHR 0x27] @ s @ [CHR 0x27]"

text \<open>The common end of both TLS configurations: no client certificates, the protocol name, QUIC.\<close>

definition finish_tls_config ::
    "('addr, 'cert, 'key, 'tls, 'cfg, 'ep) quic_libs \<Rightarrow> 'cert list \<Rightarrow> 'key \<Rightarrow> runtime_error + 'cfg" where
  "finish_tls_config libs certs key =
     (case with_single_cert libs certs key of
        Inl e \<Rightarrow> Inl (RT_Config (''invalid TLS config: '' @ e))
      | Inr tls \<Rightarrow>
          (case quic_server_config libs tls [''lockframe''] of
             Inl e \<Rightarrow> Inl (RT_Config (''QUIC config error: '' @ e))
           | Inr cfg \<Rightarrow> Inr cfg))"

definition load_tls_config ::
    "('addr, 'cert, 'key, 'tls, 'cfg, 'ep) quic_libs \<Rightarrow> string \<Rightarrow> string \<Rightarrow> runtime_error + 'cfg" where
  "load_tls_config libs cert_path key_path =
     (case read_file libs cert_path of
        Inl e \<Rightarrow> Inl (RT_Config (''failed to read cert '' @ quoted cert_path @ '': '' @ e))
      | Inr cert_pem \<Rightarrow>
     (case read_file libs key_path of
        Inl e \<Rightarrow> Inl (RT_Config (''failed to read key '' @ quoted key_path @ '': '' @ e))
      | Inr key_pem \<Rightarrow>
     (case pemfile_certs libs cert_pem of
        Inl e \<Rightarrow> Inl (RT_Config (''failed to parse certificates: '' @ e))
      | Inr certs \<Rightarrow>
     (case pemfile_private_key libs key_pem of
        Inl e \<Rightarrow> Inl (RT_Config (''failed to parse private key: '' @ e))
      | Inr None \<Rightarrow> Inl (RT_Config ''no private key found'')
      | Inr (Some key) \<Rightarrow> finish_tls_config libs certs key))))"

definition generate_self_signed_config ::
    "('addr, 'cert, 'key, 'tls, 'cfg, 'ep) quic_libs \<Rightarrow> runtime_error + 'cfg" where
  "generate_self_signed_config libs =
     (case generate_simple_self_signed libs [''localhost''] of
        Inl e \<Rightarrow> Inl (RT_Config (''failed to generate self-signed cert: '' @ e))
      | Inr (cert, key) \<Rightarrow> finish_tls_config libs [cert] key)"

definition transport_bind ::
    "('addr, 'cert, 'key, 'tls, 'cfg, 'ep) quic_libs \<Rightarrow> string \<Rightarrow> string option \<Rightarrow> string option \<Rightarrow> runtime_error + 'ep" where
  "transport_bind libs address cert_path key_path =
     (case parse_address libs address of
        Inl e \<Rightarrow> Inl (RT_Config (''invalid bind address '' @ quoted address @ '': '' @ e))
      | Inr addr \<Rightarrow>
          (case (case (cert_path, key_path) of
                   (Some cert, Some key) \<Rightarrow> load_tls_config libs cert key
                 | _ \<Rightarrow> generate_self_signed_config libs) of
             Inl e \<Rightarrow> Inl e
           | Inr cfg \<Rightarrow>
               (case endpoint_server libs cfg addr of
                  Inl e \<Rightarrow> Inl (RT_Transport (''failed to create endpoint: '' @ e))
                | Inr ep \<Rightarrow> Inr ep)))"

text \<open>\<open>None\<close> is a closed endpoint; a connection attempt may fail.\<close>

definition transport_accept :: "(string + 'conn) option \<Rightarrow> runtime_error + 'conn" where
  "transport_accept incoming =
     (case incoming of
        None \<Rightarrow> Inl (RT_Transport ''endpoint closed'')
      | Some (Inl e) \<Rightarrow> Inl (RT_Transport (''connection failed: '' @ e))
      | Some (Inr conn) \<Rightarrow> Inr conn)"

definition transport_local_addr :: "string + 'addr \<Rightarrow> runtime_error + 'addr" where
  "transport_local_addr r = map_sum (\<lambda>e. RT_Transport (''failed to get local address: '' @ e)) id r"

definition quinn_accept_bi :: "string + 'streams \<Rightarrow> runtime_error + 'streams" where
  "quinn_accept_bi r = map_sum (\<lambda>e. RT_Transport (''accept_bi failed: '' @ e)) id r"

definition quinn_open_uni :: "string + 'stream \<Rightarrow> runtime_error + 'stream" where
  "quinn_open_uni r = map_sum (\<lambda>e. RT_Transport (''open_uni failed: '' @ e)) id r"

section \<open>The production server\<close>

record runtime_config =
  rc_bind_address :: string
  rc_cert_path :: "string option"
  rc_key_path :: "string option"
  rc_driver :: server_config

definition runtime_config_default :: runtime_config where
  "runtime_config_default =
     \<lparr>rc_bind_address = ''0.0.0.0:4433'', rc_cert_path = None, rc_key_path = None, rc_driver = server_config_default\<rparr>"

record ('x, 'ep) production_server =
  ps_driver :: "('x, memory_storage) server_driver"
  ps_transport :: 'ep

definition server_bind ::
    "('addr, 'cert, 'key, 'tls, 'cfg, 'ep) quic_libs \<Rightarrow> runtime_config \<Rightarrow> runtime_error + ('x, 'ep) production_server" where
  "server_bind libs config =
     (let driver = driver_new memory_new (rc_driver config) in
      case transport_bind libs (rc_bind_address config) (rc_cert_path config) (rc_key_path config) of
        Inl e \<Rightarrow> Inl e
      | Inr transport \<Rightarrow> Inr \<lparr>ps_driver = driver, ps_transport = transport\<rparr>)"

text \<open>The world the accept loop starts from: no connections, no tasks.\<close>

definition server_start :: "('x, 'ep) production_server \<Rightarrow> ('x, memory_storage) server_world" where
  "server_start server = \<lparr>w_driver = ps_driver server, w_open = {}, w_tasks = []\<rparr>"

text \<open>
  The accept loop. The endpoint's answers are a stream indexed by the turn of the loop; a connection is
  handed to a task of its own, an error is logged. Not returning is the value \<open>None\<close>.
\<close>

definition accept_turn :: "(string + 'conn) option \<Rightarrow> 'conn list \<Rightarrow> 'conn list" where
  "accept_turn incoming spawned =
     (case transport_accept incoming of Inr conn \<Rightarrow> spawned @ [conn] | Inl e \<Rightarrow> spawned)"

partial_function (option) accept_loop ::
    "(nat \<Rightarrow> (string + 'conn) option) \<Rightarrow> nat \<Rightarrow> 'conn list \<Rightarrow> (runtime_error + unit) option" where
  "accept_loop incoming turn spawned = accept_loop incoming (Suc turn) (accept_turn (incoming turn) spawned)"

definition server_run :: "string + 'addr \<Rightarrow> (nat \<Rightarrow> (string + 'conn) option) \<Rightarrow> (runtime_error + unit) option" where
  "server_run local_addr incoming =
     (case transport_local_addr local_addr of
        Inl e \<Rightarrow> Some (Inl e)
      | Inr _ \<Rightarrow> accept_loop incoming 0 [])"

text \<open>The command line.\<close>

record server_args =
  arg_bind :: string
  arg_cert :: "string option"
  arg_key :: "string option"
  arg_max_connections :: nat

definition warns_self_signed :: "server_args \<Rightarrow> bool" where
  "warns_self_signed args \<longleftrightarrow> arg_cert args = None \<or> arg_key args = None"

definition config_of_args :: "server_args \<Rightarrow> runtime_config" where
  "config_of_args args =
     \<lparr>rc_bind_address = arg_bind args, rc_cert_path = arg_cert args, rc_key_path = arg_key args,
      rc_driver = server_config_default\<lparr>max_connections := arg_max_connections args\<rparr>\<rparr>"

datatype broadcast_policy = BestEffort | Retry u32 u64

definition broadcast_policy_default :: broadcast_policy where
  "broadcast_policy_default = BestEffort"

section \<open>The simulated transport\<close>

datatype transport_error = TE_Io string | TE_Unsupported string

record 'l sim_transport =
  st_listener :: "'l option"

definition sim_transport_bind :: "string + 'l \<Rightarrow> transport_error + 'l sim_transport" where
  "sim_transport_bind bound =
     (case bound of Inl e \<Rightarrow> Inl (TE_Io e) | Inr listener \<Rightarrow> Inr \<lparr>st_listener = Some listener\<rparr>)"

definition sim_transport_client :: "'l sim_transport" where
  "sim_transport_client = \<lparr>st_listener = None\<rparr>"

definition sim_transport_accept ::
    "('l \<Rightarrow> string + 'stream) \<Rightarrow> 'l sim_transport \<Rightarrow> transport_error + 'stream" where
  "sim_transport_accept tcp_accept transport =
     (case st_listener transport of
        Some listener \<Rightarrow> map_sum TE_Io id (tcp_accept listener)
      | None \<Rightarrow> Inl (TE_Unsupported
          ''cannot accept on client endpoint - use SimTransport::bind() for servers''))"

definition sim_transport_connect :: "('a \<Rightarrow> string + 'stream) \<Rightarrow> 'a \<Rightarrow> transport_error + 'stream" where
  "sim_transport_connect tcp_connect remote = map_sum TE_Io id (tcp_connect remote)"

definition sim_open_bi :: "'stream \<Rightarrow> transport_error + 'stream \<times> 'stream" where
  "sim_open_bi conn = Inl (TE_Unsupported
     ''open_bi not supported in SimConnection - use accept_bi or split the connection at creation time'')"

definition sim_accept_bi :: "'stream \<Rightarrow> transport_error + ('stream \<times> 'stream) option" where
  "sim_accept_bi conn = Inl (TE_Unsupported
     ''accept_bi not supported in SimConnection - use split at creation time'')"

section \<open>What a running server uses\<close>

text \<open>A configuration made of the contents of the two files, and the one made up on the spot.\<close>

definition made_from_files ::
    "('addr, 'cert, 'key, 'tls, 'cfg, 'ep) quic_libs \<Rightarrow> string \<Rightarrow> string \<Rightarrow> 'cfg \<Rightarrow> bool" where
  "made_from_files libs c k cfg \<longleftrightarrow>
     (\<exists>cert_pem key_pem certs key tls.
        read_file libs c = Inr cert_pem \<and> read_file libs k = Inr key_pem \<and>
        pemfile_certs libs cert_pem = Inr certs \<and> pemfile_private_key libs key_pem = Inr (Some key) \<and>
        with_single_cert libs certs key = Inr tls \<and> quic_server_config libs tls [''lockframe''] = Inr cfg)"

definition made_up :: "('addr, 'cert, 'key, 'tls, 'cfg, 'ep) quic_libs \<Rightarrow> 'cfg \<Rightarrow> bool" where
  "made_up libs cfg \<longleftrightarrow>
     (\<exists>cert key tls. generate_simple_self_signed libs [''localhost''] = Inr (cert, key) \<and>
        with_single_cert libs [cert] key = Inr tls \<and> quic_server_config libs tls [''lockframe''] = Inr cfg)"

lemma finish_tls_config_Inr:
  "finish_tls_config libs certs key = Inr cfg \<longleftrightarrow>
     (\<exists>tls. with_single_cert libs certs key = Inr tls \<and> quic_server_config libs tls [''lockframe''] = Inr cfg)"
  by (auto simp: finish_tls_config_def split: sum.split)

lemma load_tls_config_Inr: "load_tls_config libs c k = Inr cfg \<longleftrightarrow> made_from_files libs c k cfg"
  by (auto simp: load_tls_config_def made_from_files_def finish_tls_config_Inr split: sum.split option.split)

lemma generate_self_signed_Inr: "generate_self_signed_config libs = Inr cfg \<longleftrightarrow> made_up libs cfg"
  by (auto simp: generate_self_signed_config_def made_up_def finish_tls_config_Inr split: sum.split)

lemma transport_bind_Inr:
  "transport_bind libs address cert key = Inr ep \<longleftrightarrow>
     (\<exists>addr cfg. parse_address libs address = Inr addr \<and> endpoint_server libs cfg addr = Inr ep \<and>
        (case (cert, key) of (Some c, Some k) \<Rightarrow> made_from_files libs c k cfg | _ \<Rightarrow> made_up libs cfg))"
  by (cases cert; cases key)
    (auto simp: transport_bind_def load_tls_config_Inr [symmetric] generate_self_signed_Inr [symmetric] split: sum.split)

text \<open>
  A server started from the command line listens at the given address with the given limit; its
  certificate comes from the given files, unless the start has warned about a self-signed one. It never
  falls back to a self-signed certificate when the files are bad: then it does not start.
\<close>

lemma started_server:
  assumes "server_bind libs (config_of_args args) = Inr server"
  shows "\<exists>addr cfg. parse_address libs (arg_bind args) = Inr addr \<and>
       endpoint_server libs cfg addr = Inr (ps_transport server) \<and>
       (if warns_self_signed args then made_up libs cfg
        else made_from_files libs (the (arg_cert args)) (the (arg_key args)) cfg)"
    and "server_start server =
       world_new memory_new (server_config_default\<lparr>max_connections := arg_max_connections args\<rparr>)"
proof -
  have bound: "transport_bind libs (arg_bind args) (arg_cert args) (arg_key args) = Inr (ps_transport server)"
    and driver: "ps_driver server =
       driver_new memory_new (server_config_default\<lparr>max_connections := arg_max_connections args\<rparr>)"
    using assms by (auto simp: server_bind_def config_of_args_def split: sum.splits)
  then show "\<exists>addr cfg. parse_address libs (arg_bind args) = Inr addr \<and>
       endpoint_server libs cfg addr = Inr (ps_transport server) \<and>
       (if warns_self_signed args then made_up libs cfg
        else made_from_files libs (the (arg_cert args)) (the (arg_key args)) cfg)"
    by (cases "arg_cert args"; cases "arg_key args") (auto simp: transport_bind_Inr warns_self_signed_def)
  show "server_start server =
       world_new memory_new (server_config_default\<lparr>max_connections := arg_max_connections args\<rparr>)"
    using driver by (simp add: server_start_def world_new_def)
qed

lemma sim_transport_roles:
  "sim_transport_accept acc sim_transport_client =
     Inl (TE_Unsupported ''cannot accept on client endpoint - use SimTransport::bind() for servers'')"
  "sim_transport_bind (Inr l) = Inr t \<Longrightarrow> sim_transport_accept acc t = map_sum TE_Io id (acc l)"
  by (auto simp: sim_transport_accept_def sim_transport_client_def sim_transport_bind_def)

section \<open>Running for ever\<close>

lemma accept_loop_diverges: "accept_loop incoming turn spawned = None"
proof -
  have "accept_loop incoming turn spawned = Some r \<Longrightarrow> False" for r
    by (rule accept_loop.raw_induct [of "\<lambda>_ _ _ _. False"])
  then show ?thesis by (cases "accept_loop incoming turn spawned") auto
qed


end
