(* ===== verification/Fuzz_Connection.thy ===== *)
theory Fuzz_Connection
  imports Assertions Session_Connection
begin

text \<open>
  The fuzz target of the session state machine (\<^verbatim>\<open>fuzz/fuzz_targets/connection_state_fuzzer.rs\<close>).
  The target feeds arbitrary events to a connection and asserts, after each of them, what the
  event may have done to the state; the theorem is that none of its assertions can fail.
\<close>

section \<open>Inputs\<close>

datatype fuzzed_payload =
    FP_Hello u8
  | FP_HelloReply u64
  | FP_Ping
  | FP_Pong
  | FP_Goodbye u8
  | FP_Error
  | FP_RandomBytes bytes

record fuzzed_frame =
  ff_opcode :: u16
  ff_payload :: fuzzed_payload

datatype connection_event =
    FE_SendHello
  | FE_ReceiveFrame fuzzed_frame
  | FE_Tick u8
  | FE_Close
  | FE_CheckTimeout u8

record connection_fuzz_input =
  initial_time_secs :: u32
  fuzz_events :: "connection_event list"

text \<open>\<^verbatim>\<open>unwrap_or_else(|_| Frame::new(FrameHeader::new(op), Vec::new()))\<close>\<close>

definition frame_or_empty :: "ciborium \<Rightarrow> payload \<Rightarrow> opcode \<Rightarrow> frame" where
  "frame_or_empty cb p op =
     (case into_frame cb p (header_new op) of
        Inl _ \<Rightarrow> frame_new (header_new op) []
      | Inr f \<Rightarrow> f)"

definition create_frame_from_fuzzed :: "ciborium \<Rightarrow> fuzzed_frame \<Rightarrow> frame" where
  "create_frame_from_fuzzed cb fz =
     (let op = from_u16 (ff_opcode fz) in
      case ff_payload fz of
        FP_Hello version \<Rightarrow>
          frame_or_empty cb (Payload_Hello \<lparr>hello_version = version, hello_capabilities = [],
            auth_token = None\<rparr>) Op_Hello
      | FP_HelloReply session_id \<Rightarrow>
          frame_or_empty cb (Payload_HelloReply \<lparr>reply_session_id = session_id,
            reply_capabilities = [], challenge = None\<rparr>) Op_HelloReply
      | FP_Ping \<Rightarrow> frame_new (header_new Op_Ping) []
      | FP_Pong \<Rightarrow> frame_new (header_new Op_Pong) []
      | FP_Goodbye reason_len \<Rightarrow>
          frame_or_empty cb (Payload_Goodbye
            \<lparr>goodbye_reason = replicate (unat (reason_len mod 100)) (CHR ''x'')\<rparr>) Op_Goodbye
      | FP_Error \<Rightarrow> frame_new (header_new Op_Error) []
      | FP_RandomBytes bs \<Rightarrow>
          frame_new (header_new (case op of Some o' \<Rightarrow> o' | None \<Rightarrow> Op_AppMessage)) bs)"

section \<open>The target\<close>

record connection_fuzz_state =
  fz_conn :: connection
  fz_time :: instant
  fz_initial_session_id :: "u64 option"

definition fuzz_connection_config :: connection_config where
  "fuzz_connection_config =
     \<lparr>handshake_timeout = duration_from_secs 5, idle_timeout = duration_from_secs 10,
      heartbeat_interval = duration_from_secs 3\<rparr>"

text \<open>The arms of \<^verbatim>\<open>match event\<close>.\<close>

definition fuzz_send_hello :: "ciborium \<Rightarrow> connection_fuzz_state \<Rightarrow> connection_fuzz_state exec" where
  "fuzz_send_hello cb s =
     (let previous = conn_state (fz_conn s);
          (c, res) = send_hello cb (fz_time s) (fz_conn s)
      in assert_that
           (if previous = Init \<and> \<not> isl res then conn_state c = Pending
            else isl res \<or> conn_state c = previous)
           (Done (s\<lparr>fz_conn := c\<rparr>)))"

definition fuzz_receive_frame ::
    "ciborium \<Rightarrow> fuzzed_frame \<Rightarrow> connection_fuzz_state \<Rightarrow> connection_fuzz_state exec" where
  "fuzz_receive_frame cb fz s =
     (let previous = conn_state (fz_conn s);
          (c, res) = handle_frame cb (create_frame_from_fuzzed cb fz) (fz_time s) (fz_conn s);
          s' = s\<lparr>fz_conn := c\<rparr>
      in case res of
           Inr actions \<Rightarrow>
             assert_that (\<not> (previous = Closed \<and> conn_state c \<noteq> Closed))
               (Done
                 (if previous = Pending \<and> conn_state c = Authenticated then
                    (case conn_session_id c of
                       Some session_id \<Rightarrow>
                         if fz_initial_session_id s' = None
                         then s'\<lparr>fz_initial_session_id := Some session_id\<rparr> else s'
                     | None \<Rightarrow> s')
                  else s'))
         | Inl _ \<Rightarrow>
             assert_that (conn_state c = previous \<or> conn_state c = Closed) (Done s'))"

definition fuzz_tick :: "u8 \<Rightarrow> connection_fuzz_state \<Rightarrow> connection_fuzz_state exec" where
  "fuzz_tick advance_secs s =
     exec_bind (duration_add (fz_time s) (duration_from_secs (unat (advance_secs mod 120))))
       (\<lambda>now.
         let (c, actions) = tick now (fz_conn s) in
         assert_that
           (\<forall>a \<in> set actions. case a of Close _ \<Rightarrow> conn_state c = Closed | SendFrame _ \<Rightarrow> True)
           (Done (s\<lparr>fz_time := now, fz_conn := c\<rparr>)))"

definition fuzz_close :: "connection_fuzz_state \<Rightarrow> connection_fuzz_state exec" where
  "fuzz_close s =
     (let c = conn_close (fz_conn s) in
      assert_that (conn_state c = Closed) (Done (s\<lparr>fz_conn := c\<rparr>)))"

definition fuzz_check_timeout :: "u8 \<Rightarrow> connection_fuzz_state \<Rightarrow> connection_fuzz_state exec" where
  "fuzz_check_timeout advance_secs s =
     exec_bind (duration_add (fz_time s) (duration_from_secs (unat (advance_secs mod 120))))
       (\<lambda>check_time. let _ = check_timeout check_time (fz_conn s) in Done s)"

fun fuzz_connection_event ::
    "ciborium \<Rightarrow> connection_event \<Rightarrow> connection_fuzz_state \<Rightarrow> connection_fuzz_state exec" where
  "fuzz_connection_event cb FE_SendHello s = fuzz_send_hello cb s"
| "fuzz_connection_event cb (FE_ReceiveFrame fz) s = fuzz_receive_frame cb fz s"
| "fuzz_connection_event cb (FE_Tick n) s = fuzz_tick n s"
| "fuzz_connection_event cb FE_Close s = fuzz_close s"
| "fuzz_connection_event cb (FE_CheckTimeout n) s = fuzz_check_timeout n s"

text \<open>The check after every event: the session identifier of an authenticated connection is pinned.\<close>

definition check_session_pinned :: "connection_fuzz_state \<Rightarrow> connection_fuzz_state exec" where
  "check_session_pinned s =
     (if conn_state (fz_conn s) = Authenticated then
        (case conn_session_id (fz_conn s) of
           Some session_id \<Rightarrow>
             (case fz_initial_session_id s of
                Some initial \<Rightarrow> assert_that (session_id = initial) (Done s)
              | None \<Rightarrow> Done (s\<lparr>fz_initial_session_id := Some session_id\<rparr>))
         | None \<Rightarrow> Done s)
      else Done s)"

definition fuzz_connection_step ::
    "ciborium \<Rightarrow> connection_event \<Rightarrow> connection_fuzz_state \<Rightarrow> connection_fuzz_state exec" where
  "fuzz_connection_step cb ev s = exec_bind (fuzz_connection_event cb ev s) check_session_pinned"

definition connection_state_fuzzer :: "ciborium \<Rightarrow> connection_fuzz_input \<Rightarrow> unit exec" where
  "connection_state_fuzzer cb input =
     (let initial_time = duration_from_secs (unat (initial_time_secs input));
          start = \<lparr>fz_conn = connection_new initial_time fuzz_connection_config,
                   fz_time = initial_time, fz_initial_session_id = None\<rparr>
      in exec_bind (exec_fold (fuzz_connection_step cb) (fuzz_events input) start)
        (\<lambda>s. if conn_state (fz_conn s) = Closed then
               (let c1 = fst (send_hello cb (fz_time s) (fz_conn s));
                    c2 = fst (tick (fz_time s) c1)
                in assert_that (conn_state c2 = Closed) (Done ()))
             else Done ()))"

section \<open>The invariant of the loop\<close>

text \<open>
  With \<open>n\<close> events left the clock has room for \<open>n\<close> advances of at most 119 seconds, and the pinned
  identifier is the connection's while it is authenticated; before that none is pinned, and a
  connection in \<^verbatim>\<open>Init\<close> has no identifier, since the target never assigns one.
\<close>

definition fuzz_connection_inv :: "nat \<Rightarrow> connection_fuzz_state \<Rightarrow> bool" where
  "fuzz_connection_inv n s \<longleftrightarrow>
     fz_time s + n * duration_from_secs 119 < 2 ^ 64 * 1000000000 \<and>
     (conn_state (fz_conn s) = Init \<longrightarrow> conn_session_id (fz_conn s) = None) \<and>
     (conn_state (fz_conn s) \<in> {Init, Pending} \<longrightarrow> fz_initial_session_id s = None) \<and>
     (conn_state (fz_conn s) = Authenticated \<longrightarrow>
        conn_session_id (fz_conn s) \<noteq> None \<and>
        fz_initial_session_id s = conn_session_id (fz_conn s))"

lemma mod_word_bound: "0 < k \<Longrightarrow> unat ((w :: u8) mod k) < unat k"
  by (simp add: word_less_nat_alt [symmetric] word_mod_less_divisor)

lemma advance_bound: "duration_from_secs (unat ((w :: u8) mod 120)) \<le> duration_from_secs 119"
  using mod_word_bound [of 120 w] by (simp add: duration_from_secs_def)

text \<open>An event that keeps the state and the session identifier, or closes, keeps the invariant.\<close>

lemma fuzz_inv_conn:
  assumes "fuzz_connection_inv n s"
    and "conn_state c = Closed \<or>
      conn_state c = conn_state (fz_conn s) \<and> conn_session_id c = conn_session_id (fz_conn s)"
  shows "fuzz_connection_inv n (s\<lparr>fz_conn := c\<rparr>)"
  using assms by (auto simp: fuzz_connection_inv_def)

lemma fuzz_inv_Suc: "fuzz_connection_inv (Suc n) s \<Longrightarrow> fuzz_connection_inv n s"
  by (simp add: fuzz_connection_inv_def)

lemma fuzz_inv_pinned:
  "fuzz_connection_inv n s \<Longrightarrow> check_session_pinned s = Done s"
  by (auto simp: fuzz_connection_inv_def check_session_pinned_def split: option.split)

text \<open>What a frame may do to a connection: keep its state and identifier, authenticate it, or close it.\<close>

definition frame_outcome ::
    "connection \<Rightarrow> connection \<Rightarrow> connection_error + connection_action list \<Rightarrow> bool" where
  "frame_outcome c c' res \<longleftrightarrow>
     conn_state c' = conn_state c \<and> conn_session_id c' = conn_session_id c \<or>
     conn_state c = Pending \<and> conn_state c' = Authenticated \<and> conn_session_id c' \<noteq> None \<and> \<not> isl res \<or>
     conn_state c' = Closed"

lemma handle_frame_outcome:
  assumes "conn_state c = Init \<longrightarrow> conn_session_id c = None"
  shows "frame_outcome c (fst (handle_frame cb f now c)) (snd (handle_frame cb f now c))"
  using assms
  by (cases "conn_state c")
    (simp_all add: frame_outcome_def handle_frame_def Let_def split: option.split sum.split)

lemma fuzz_inv_checked: "fuzz_connection_inv n s \<Longrightarrow> returns (check_session_pinned s) (fuzz_connection_inv n)"
  by (simp add: fuzz_inv_pinned)

lemma send_hello_arm:
  assumes "fuzz_connection_inv n s"
  shows "returns (fuzz_send_hello cb s) (fuzz_connection_inv n)"
  using assms
  by (auto simp: fuzz_send_hello_def send_hello_def Let_def fuzz_connection_inv_def split: sum.split)

lemma receive_frame_arm:
  assumes "fuzz_connection_inv n s"
  shows "returns (fuzz_receive_frame cb fz s) (fuzz_connection_inv n)"
proof -
  obtain c res where hf:
    "handle_frame cb (create_frame_from_fuzzed cb fz) (fz_time s) (fz_conn s) = (c, res)"
    by fastforce
  have out: "frame_outcome (fz_conn s) c res"
    using handle_frame_outcome [of "fz_conn s" cb "create_frame_from_fuzzed cb fz" "fz_time s"]
      assms hf by (simp add: fuzz_connection_inv_def)
  consider (authenticated) sid acts where "conn_state (fz_conn s) = Pending"
      "conn_state c = Authenticated" "conn_session_id c = Some sid" "res = Inr acts"
    | (other) "conn_state c = Closed \<or>
        conn_state c = conn_state (fz_conn s) \<and> conn_session_id c = conn_session_id (fz_conn s)"
    using out by (cases res) (auto simp: frame_outcome_def)
  then show ?thesis
  proof cases
    case authenticated
    then show ?thesis
      using assms hf by (simp add: fuzz_receive_frame_def fuzz_connection_inv_def)
  next
    case other
    then have "\<not> (conn_state (fz_conn s) = Pending \<and> conn_state c = Authenticated)" by auto
    moreover have "conn_state (fz_conn s) = Closed \<longrightarrow> conn_state c = Closed"
      "conn_state c = conn_state (fz_conn s) \<or> conn_state c = Closed"
      using other by auto
    ultimately show ?thesis
      using fuzz_inv_conn [OF assms other] hf
      by (cases res) (simp_all add: fuzz_receive_frame_def Let_def, blast)
  qed
qed

lemma tick_outcome:
  "conn_state (fst (tick now c)) = conn_state c \<and> conn_session_id (fst (tick now c)) = conn_session_id c \<and>
     (\<forall>reason. Close reason \<notin> set (snd (tick now c))) \<or>
   conn_state (fst (tick now c)) = Closed"
  by (simp add: tick_def conn_close_def Let_def split: option.split)

lemma duration_add_arm:
  assumes "fuzz_connection_inv (Suc n) s"
  shows "duration_add (fz_time s) (duration_from_secs (unat (w mod (120 :: u8)))) =
      Done (fz_time s + duration_from_secs (unat (w mod 120)))"
    and "fuzz_connection_inv n (s\<lparr>fz_time := fz_time s + duration_from_secs (unat (w mod 120))\<rparr>)"
  using assms advance_bound [of w] by (auto simp: duration_add_def fuzz_connection_inv_def)

lemma tick_arm:
  assumes "fuzz_connection_inv (Suc n) s"
  shows "returns (fuzz_tick w s) (fuzz_connection_inv n)"
proof -
  define now where "now = fz_time s + duration_from_secs (unat (w mod 120))"
  obtain c acts where t: "tick now (fz_conn s) = (c, acts)" by fastforce
  have "conn_state c = conn_state (fz_conn s) \<and> conn_session_id c = conn_session_id (fz_conn s) \<and>
      (\<forall>reason. Close reason \<notin> set acts) \<or> conn_state c = Closed"
    using tick_outcome [of now "fz_conn s"] t by simp
  then show ?thesis
    using duration_add_arm(1) [OF assms, of w] t
      fuzz_inv_conn [OF duration_add_arm(2) [OF assms, of w], of c]
    by (auto simp: fuzz_tick_def now_def split: connection_action.splits)
qed

lemma fuzz_step_returns:
  assumes "fuzz_connection_inv (Suc n) s"
  shows "returns (fuzz_connection_step cb ev s) (fuzz_connection_inv n)"
proof -
  have n: "fuzz_connection_inv n s" using assms by (rule fuzz_inv_Suc)
  have "returns (fuzz_connection_event cb ev s) (fuzz_connection_inv n)"
  proof (cases ev)
    case FE_Close
    then show ?thesis
      using fuzz_inv_conn [OF n, of "conn_close (fz_conn s)"] by (simp add: fuzz_close_def conn_close_def)
  next
    case (FE_CheckTimeout w)
    then show ?thesis
      using duration_add_arm(1) [OF assms, of w] n by (simp add: fuzz_check_timeout_def)
  qed (simp_all add: send_hello_arm [OF n] receive_frame_arm [OF n] tick_arm [OF assms])
  then show ?thesis
    unfolding fuzz_connection_step_def by (rule returns_bind) (rule fuzz_inv_checked)
qed

lemma closed_stays_closed:
  "conn_state c = Closed \<Longrightarrow> conn_state (fst (tick now (fst (send_hello cb now c)))) = Closed"
  by (simp add: send_hello_def tick_def check_timeout_def)

interpretation fuzz_connection: asserting_loop "fuzz_connection_step cb" fuzz_connection_inv for cb
  by unfold_locales (rule fuzz_step_returns)

section \<open>Properties\<close>

text \<open>
  C36. No input makes the connection fuzz target panic: for every initial time and every sequence
  of fewer than 2 to the 56 events, whatever the CBOR library does, each of its assertions holds. Refused
  frames leave the state or close, ticks close when they say so, a closed connection stays
  closed, the session identifier never changes while authenticated, and the clock does not overflow.
\<close>

theorem connection_fuzzer_never_panics:
  assumes "length (fuzz_events input) < 2 ^ 56"
  shows "connection_state_fuzzer cb input = Done ()"
proof -
  define t where "t = duration_from_secs (unat (initial_time_secs input))"
  define start where "start = \<lparr>fz_conn = connection_new t fuzz_connection_config, fz_time = t,
    fz_initial_session_id = None\<rparr>"
  have "unat (initial_time_secs input) < 2 ^ 32" using unat_u32_bound by simp
  then have "fuzz_connection_inv (length (fuzz_events input)) start"
    using assms by (simp add: fuzz_connection_inv_def start_def connection_new_def t_def duration_from_secs_def)
  from fuzz_connection.loop_returns_0 [OF this, of cb]
  obtain s where "exec_fold (fuzz_connection_step cb) (fuzz_events input) start = Done s"
    by (rule returnsE)
  then show ?thesis
    unfolding connection_state_fuzzer_def Let_def t_def [symmetric] start_def [symmetric]
    by (simp add: closed_stays_closed)
qed

theorem connection_fuzzer_never_panics_witness:
  "connection_state_fuzzer sample_cbor
     \<lparr>initial_time_secs = 7, fuzz_events =
        [FE_SendHello, FE_ReceiveFrame \<lparr>ff_opcode = 0, ff_payload = FP_HelloReply 5\<rparr>,
         FE_Tick 119, FE_ReceiveFrame \<lparr>ff_opcode = 0, ff_payload = FP_Error\<rparr>, FE_Close]\<rparr> = Done ()"
  by (rule connection_fuzzer_never_panics) simp

end
