(* ===== verification/Fuzz_Frames.thy ===== *)
theory Fuzz_Frames
  imports Assertions Payloads
begin

text \<open>
  The fuzz targets of the wire format: hand-built frame headers
  (\<^verbatim>\<open>fuzz/fuzz_targets/frame_boundary_fuzzer.rs\<close>) and hostile CBOR payloads
  (\<^verbatim>\<open>fuzz/fuzz_targets/cbor_attack_fuzzer.rs\<close>).
\<close>

section \<open>Header boundaries\<close>

datatype boundary_magic =
    MB_Valid | MB_OffByOne u8 | MB_AllZeros | MB_AllOnes | MB_Random u8 u8 u8 u8

datatype boundary_version = VB_Valid | VB_Zero | VB_Max | VB_Random u8

datatype boundary_size =
    PS_Zero | PS_Small u8 | PS_AtMaxBoundary | PS_JustOverMax | PS_WayOverMax | PS_MaxU32 | PS_Random u32

datatype boundary_room = BR_Zero | BR_One | BR_Small u8 | BR_MaxU128 | BR_Random u128

datatype boundary_sender = BS_Zero | BS_One | BS_MaxU64 | BS_Random u64

datatype boundary_epoch = BE_Zero | BE_One | BE_MaxMinus1 | BE_MaxU64 | BE_Random u64

record boundary_frame =
  bf_magic :: boundary_magic
  bf_version :: boundary_version
  bf_opcode :: u16
  bf_payload_size :: boundary_size
  bf_room_id :: boundary_room
  bf_sender_id :: boundary_sender
  bf_epoch :: boundary_epoch
  bf_log_index :: u64

definition LOCKFRAME_MAGIC :: bytes where
  "LOCKFRAME_MAGIC = [0x4C, 0x4F, 0x46, 0x52]"

definition FUZZ_MAX_PAYLOAD_SIZE :: u32 where
  "FUZZ_MAX_PAYLOAD_SIZE = 16 * 1024 * 1024"

fun payload_size_value :: "boundary_size \<Rightarrow> u32" where
  "payload_size_value PS_Zero = 0"
| "payload_size_value (PS_Small s) = ucast s"
| "payload_size_value PS_AtMaxBoundary = FUZZ_MAX_PAYLOAD_SIZE"
| "payload_size_value PS_JustOverMax = saturating_add FUZZ_MAX_PAYLOAD_SIZE 1"
| "payload_size_value PS_WayOverMax = saturating_add FUZZ_MAX_PAYLOAD_SIZE 1000000"
| "payload_size_value PS_MaxU32 = - 1"
| "payload_size_value (PS_Random r) = r"

definition actual_payload_size :: "boundary_frame \<Rightarrow> nat" where
  "actual_payload_size b = unat (min (payload_size_value (bf_payload_size b)) 100000)"

fun write_magic :: "boundary_magic \<Rightarrow> bytes \<Rightarrow> bytes" where
  "write_magic MB_Valid buf = copy_at 0 LOCKFRAME_MAGIC buf"
| "write_magic (MB_OffByOne offset) buf =
     (let buf = copy_at 0 LOCKFRAME_MAGIC buf; idx = unat (offset mod 4) in buf[idx := buf ! idx + 1])"
| "write_magic MB_AllZeros buf = copy_at 0 (replicate 4 0) buf"
| "write_magic MB_AllOnes buf = copy_at 0 (replicate 4 0xFF) buf"
| "write_magic (MB_Random a b c d) buf = copy_at 0 [a, b, c, d] buf"

fun version_value :: "boundary_version \<Rightarrow> u8" where
  "version_value VB_Valid = 0x01"
| "version_value VB_Zero = 0"
| "version_value VB_Max = - 1"
| "version_value (VB_Random v) = v"

fun room_id_value :: "boundary_room \<Rightarrow> u128" where
  "room_id_value BR_Zero = 0"
| "room_id_value BR_One = 1"
| "room_id_value (BR_Small s) = ucast s"
| "room_id_value BR_MaxU128 = - 1"
| "room_id_value (BR_Random r) = r"

fun sender_id_value :: "boundary_sender \<Rightarrow> u64" where
  "sender_id_value BS_Zero = 0"
| "sender_id_value BS_One = 1"
| "sender_id_value BS_MaxU64 = - 1"
| "sender_id_value (BS_Random r) = r"

fun epoch_value :: "boundary_epoch \<Rightarrow> u64" where
  "epoch_value BE_Zero = 0"
| "epoch_value BE_One = 1"
| "epoch_value BE_MaxMinus1 = - 1 - 1"
| "epoch_value BE_MaxU64 = - 1"
| "epoch_value (BE_Random r) = r"

text \<open>The buffer handed to \<^verbatim>\<open>Frame::decode\<close>; the writes in the order of the source.\<close>

definition boundary_buffer :: "boundary_frame \<Rightarrow> bytes" where
  "boundary_buffer b =
     (let buf = replicate (128 + actual_payload_size b) 0;
          buf = write_magic (bf_magic b) buf;
          buf = buf[4 := version_value (bf_version b)];
          buf = copy_at 6 (to_be_bytes (bf_opcode b)) buf;
          buf = copy_at 12 (to_be_bytes (payload_size_value (bf_payload_size b))) buf;
          buf = copy_at 16 (to_be_bytes (room_id_value (bf_room_id b))) buf;
          buf = copy_at 32 (to_be_bytes (sender_id_value (bf_sender_id b))) buf;
          buf = copy_at 56 (to_be_bytes (epoch_value (bf_epoch b))) buf
      in copy_at 40 (to_be_bytes (bf_log_index b)) buf)"

definition check_decoded :: "boundary_frame \<Rightarrow> unit exec" where
  "check_decoded b =
     (case decode (boundary_buffer b) of
        Inr f \<Rightarrow>
          assert_that (slice (boundary_buffer b) 0 4 = LOCKFRAME_MAGIC)
            (assert_that (\<not> FUZZ_MAX_PAYLOAD_SIZE < payload_size_value (bf_payload_size b)) (Done ()))
      | Inl _ \<Rightarrow> Done ())"

definition boundary_header :: "boundary_frame \<Rightarrow> opcode \<Rightarrow> frame_header" where
  "boundary_header b op =
     set_log_index (bf_log_index b)
       (set_epoch (epoch_value (bf_epoch b))
         (set_sender_id (sender_id_value (bf_sender_id b))
           (set_room_id (room_id_value (bf_room_id b)) (header_new op))))"

definition check_round_trip :: "boundary_frame \<Rightarrow> unit exec" where
  "check_round_trip b =
     (case from_u16 (bf_opcode b) of
        None \<Rightarrow> Done ()
      | Some op \<Rightarrow>
          if op = Op_Welcome then Done ()
          else let f = frame_new (boundary_header b op) (replicate (min (actual_payload_size b) 1000) 0xAA) in
            (case encode f [] of
               Inl _ \<Rightarrow> Done ()
             | Inr encoded \<Rightarrow>
                 assert_that (length encoded = 128 + length (payload f))
                   (case decode encoded of
                      Inr g \<Rightarrow>
                        assert_that (header_room_id (header g) = header_room_id (header f))
                          (assert_that (header_sender_id (header g) = header_sender_id (header f))
                            (assert_that (header_epoch (header g) = header_epoch (header f))
                              (assert_that (header_log_index (header g) = header_log_index (header f))
                                (Done ()))))
                    | Inl _ \<Rightarrow> Done ())))"

definition frame_boundary_fuzzer :: "boundary_frame \<Rightarrow> unit exec" where
  "frame_boundary_fuzzer b = exec_bind (check_decoded b) (\<lambda>_. check_round_trip b)"

section \<open>Reading the buffer back\<close>

lemma length_copy_at [simp]: "i + length xs \<le> length bs \<Longrightarrow> length (copy_at i xs bs) = length bs"
  by (simp add: copy_at_def)

lemma slice_copy_same:
  "i + length xs \<le> length bs \<Longrightarrow> n = length xs \<Longrightarrow> slice (copy_at i xs bs) i n = xs"
  by (simp add: slice_def copy_at_def)

lemma slice_copy_before: "i + n \<le> j \<Longrightarrow> j \<le> length bs \<Longrightarrow> slice (copy_at j xs bs) i n = slice bs i n"
  by (simp add: slice_def copy_at_def min_def take_drop)

lemma slice_copy_after:
  "j + length xs \<le> i \<Longrightarrow> j + length xs \<le> length bs \<Longrightarrow> slice (copy_at j xs bs) i n = slice bs i n"
  by (simp add: slice_def copy_at_def)

lemma nth_copy_before: "i < j \<Longrightarrow> j \<le> length bs \<Longrightarrow> copy_at j xs bs ! i = bs ! i"
  by (simp add: copy_at_def nth_append)

lemma slice_update_outside: "k < i \<or> i + n \<le> k \<Longrightarrow> slice (bs[k := v]) i n = slice bs i n"
  by (auto simp: slice_def drop_update_swap take_update_swap drop_update_cancel take_update_cancel
      list_update_beyond)

lemmas buffer_reads =
  slice_copy_same slice_copy_before slice_copy_after nth_copy_before slice_update_outside

lemma length_write_magic [simp]: "4 \<le> length buf \<Longrightarrow> length (write_magic m buf) = length buf"
  by (cases m) (simp_all add: LOCKFRAME_MAGIC_def Let_def)

lemma length_boundary_buffer: "length (boundary_buffer b) = 128 + actual_payload_size b"
  by (simp add: boundary_buffer_def Let_def)

lemma boundary_buffer_fields:
  "slice (boundary_buffer b) 0 4 = slice (write_magic (bf_magic b) (replicate (128 + actual_payload_size b) 0)) 0 4"
  "boundary_buffer b ! 4 = version_value (bf_version b)"
  "slice (boundary_buffer b) 12 4 = to_be_bytes (payload_size_value (bf_payload_size b))"
  by (simp_all add: boundary_buffer_def Let_def buffer_reads)

lemma replicate_four: "replicate 4 x = [x, x, x, x]"
  by (simp add: numeral_eq_Suc)

lemma write_magic_slice:
  assumes "4 \<le> length buf"
  shows "slice (write_magic m buf) 0 4 = LOCKFRAME_MAGIC \<longleftrightarrow> m \<in> {MB_Valid, MB_Random 0x4C 0x4F 0x46 0x52}"
proof (cases m)
  case (MB_OffByOne offset)
  have "unat (offset mod 4) < 4"
    using word_mod_less_divisor [of 4 offset] by (simp add: word_less_nat_alt)
  then consider "unat (offset mod 4) = 0" | "unat (offset mod 4) = 1" | "unat (offset mod 4) = 2"
    | "unat (offset mod 4) = 3" by linarith
  then show ?thesis
    by cases (simp_all add: MB_OffByOne copy_at_def slice_def LOCKFRAME_MAGIC_def Let_def)
qed (simp_all add: copy_at_def slice_def LOCKFRAME_MAGIC_def replicate_four)

lemma magic_bytes_iff: "length bs = 4 \<Longrightarrow> (from_be_bytes bs :: u32) = MAGIC \<longleftrightarrow> bs = LOCKFRAME_MAGIC"
  by (simp add: be32.dec_eq_iff) (simp add: MAGIC_def LOCKFRAME_MAGIC_def to_be_bytes_def)

text \<open>What the decoder says of the buffer, by the order of its checks.\<close>

lemma decode_boundary:
  "decode (boundary_buffer b) =
     (let v = version_value (bf_version b); n = payload_size_value (bf_payload_size b) in
      if bf_magic b \<notin> {MB_Valid, MB_Random 0x4C 0x4F 0x46 0x52} then Inl InvalidMagic
      else if v \<noteq> 1 then Inl (PE_UnsupportedVersion v)
      else if FUZZ_MAX_PAYLOAD_SIZE < n then Inl (PayloadTooLarge (unat n) 16777216)
      else if 100000 < unat n then Inl (FrameTruncated (unat n) 100000)
      else Inr \<lparr>header = header_of_bytes (boundary_buffer b),
                payload = slice (boundary_buffer b) 128 (unat n)\<rparr>)"
proof -
  let ?buf = "boundary_buffer b" and ?n = "payload_size_value (bf_payload_size b)"
  have magic: "(from_be_bytes (magic_bytes (header_of_bytes ?buf)) :: u32) = MAGIC \<longleftrightarrow>
      bf_magic b \<in> {MB_Valid, MB_Random 0x4C 0x4F 0x46 0x52}"
    by (simp add: header_of_bytes_def magic_bytes_iff length_boundary_buffer boundary_buffer_fields(1)
        write_magic_slice del: insert_iff)
  have version: "version_byte (header_of_bytes ?buf) = version_value (bf_version b)"
    by (simp add: header_of_bytes_def boundary_buffer_fields)
  have size: "(from_be_bytes (payload_size_bytes (header_of_bytes ?buf)) :: u32) = ?n"
    by (simp add: header_of_bytes_def boundary_buffer_fields)
  have fb: "from_bytes ?buf =
      (if bf_magic b \<notin> {MB_Valid, MB_Random 0x4C 0x4F 0x46 0x52} then Inl InvalidMagic
       else if version_value (bf_version b) \<noteq> 1 then Inl (PE_UnsupportedVersion (version_value (bf_version b)))
       else if FUZZ_MAX_PAYLOAD_SIZE < ?n then Inl (PayloadTooLarge (unat ?n) 16777216)
       else Inr (header_of_bytes ?buf))"
    by (simp add: from_bytes_def magic version size length_boundary_buffer HEADER_SIZE_def Let_def
        VERSION_def FUZZ_MAX_PAYLOAD_SIZE_def MAX_PAYLOAD_SIZE_def del: insert_iff)
  have len: "length ?buf = 128 + min (unat ?n) 100000"
    by (simp add: length_boundary_buffer actual_payload_size_def min_def word_le_nat_alt)
  show ?thesis
  proof (cases "\<exists>h. from_bytes ?buf = Inr h")
    case True
    then have h: "from_bytes ?buf = Inr (header_of_bytes ?buf)" by (auto dest: from_bytes_InrD(2))
    have ok: "bf_magic b \<in> {MB_Valid, MB_Random 0x4C 0x4F 0x46 0x52}" "version_value (bf_version b) = 1"
      "\<not> FUZZ_MAX_PAYLOAD_SIZE < ?n"
      using h unfolding fb by (auto split: if_splits)
    have "header_payload_size (header_of_bytes ?buf) = ?n" using size by (simp add: header_payload_size_def)
    with decode_eq [OF h] ok len show ?thesis by (simp add: HEADER_SIZE_def Let_def del: insert_iff)
  next
    case False
    then show ?thesis
      unfolding decode_def fb Let_def by (auto split: if_splits)
  qed
qed

lemma boundary_round_trip: "check_round_trip b = Done ()"
proof (cases "from_u16 (bf_opcode b)")
  case (Some op)
  let ?f = "frame_new (boundary_header b op) (replicate (min (actual_payload_size b) 1000) 0xAA)"
  have wf: "wf_frame ?f"
    by (rule wf_frame_new) (simp_all add: boundary_header_def)
  have "encode ?f [] = Inr (wire ?f)" using encode_wf [OF wf, of "[]"] by simp
  moreover have "decode (wire ?f) = Inr ?f" using decode_wire [OF wf, of "[]"] by simp
  moreover have "length (wire ?f) = 128 + length (payload ?f)"
    using length_wire [OF wf] by (simp add: HEADER_SIZE_def)
  ultimately show ?thesis by (simp add: check_round_trip_def Some Let_def)
qed (simp add: check_round_trip_def)

section \<open>Hostile CBOR\<close>

unbundle bit_operations_syntax

datatype cbor_payload_type = CP_Array | CP_Map | CP_Bytes | CP_String

datatype cbor_attack =
    CA_DeeplyNested u8 cbor_payload_type
  | CA_HugeLength u8
  | CA_RandomBytes bytes
  | CA_TypeConfusion u16 bytes
  | CA_DuplicateKeys u8

fun create_nested_cbor :: "nat \<Rightarrow> cbor_payload_type \<Rightarrow> bytes" where
  "create_nested_cbor depth CP_Array = replicate depth 0x81 @ [0x01]"
| "create_nested_cbor depth CP_Map = concat (replicate depth [0xA1, 0x61, 0x61]) @ [0x01]"
| "create_nested_cbor depth CP_Bytes = replicate depth 0x81 @ [0x41, 0x00]"
| "create_nested_cbor depth CP_String = replicate depth 0x81 @ [0x61, 0x78]"

definition create_huge_byte_string :: "u32 \<Rightarrow> bytes" where
  "create_huge_byte_string n = 0x5A # to_be_bytes n @ replicate (min (unat n) 10) 0xAA"

definition create_huge_text_string :: "u32 \<Rightarrow> bytes" where
  "create_huge_text_string n = 0x7A # to_be_bytes n @ replicate (min (unat n) 10) 0x78"

definition create_huge_array :: "u32 \<Rightarrow> bytes" where
  "create_huge_array n = 0x9A # to_be_bytes n @ replicate (min (unat n) 5) 0x01"

text \<open>The map with a repeated key: \<^verbatim>\<open>b"version"\<close> written out.\<close>

definition duplicate_keys_cbor :: "u8 \<Rightarrow> bytes" where
  "duplicate_keys_cbor count =
     (let actual_count = max (count mod 10) 2 in
      (0xA0 OR actual_count) #
      concat (replicate (unat actual_count) (0x67 # [0x76, 0x65, 0x72, 0x73, 0x69, 0x6F, 0x6E] @ [0x01])))"

definition claimed_length :: "u8 \<Rightarrow> u32" where
  "claimed_length claimed_len_exponent =
     (let exponent = unat (claimed_len_exponent mod 21) in
      if exponent < 20 then push_bit exponent 1 else - 1)"

text \<open>The frames a case of the attack hands to \<^verbatim>\<open>Payload::from_frame\<close>, in order.\<close>

fun cbor_attack_frames :: "cbor_attack \<Rightarrow> frame list" where
  "cbor_attack_frames (CA_DeeplyNested depth t) =
     map (\<lambda>op. frame_new (header_new op) (create_nested_cbor (unat (depth mod 50)) t))
       [Op_Hello, Op_AppMessage, Op_Commit, Op_Welcome]"
| "cbor_attack_frames (CA_HugeLength e) =
     concat (map
       (\<lambda>bs. map (\<lambda>op. frame_new (header_new op) bs) [Op_Proposal, Op_Commit, Op_Ban, Op_Hello])
       [create_huge_byte_string (claimed_length e), create_huge_text_string (claimed_length e),
        create_huge_array (claimed_length e)])"
| "cbor_attack_frames (CA_RandomBytes bs) =
     map (\<lambda>op. frame_new (header_new op) bs)
       [Op_Hello, Op_HelloReply, Op_Ping, Op_Pong, Op_Goodbye, Op_Error, Op_AppMessage, Op_KeyPackage,
        Op_Proposal, Op_Commit, Op_Welcome, Op_Redact, Op_Ban, Op_Kick]"
| "cbor_attack_frames (CA_TypeConfusion code bs) =
     [frame_new (header_new (case from_u16 code of Some op \<Rightarrow> op | None \<Rightarrow> Op_AppMessage)) bs]"
| "cbor_attack_frames (CA_DuplicateKeys count) =
     [frame_new (header_new Op_Hello) (duplicate_keys_cbor count)]"

definition cbor_attack_fuzzer :: "ciborium \<Rightarrow> cbor_attack \<Rightarrow> (protocol_error + Payloads.payload) list" where
  "cbor_attack_fuzzer cb a = map (from_frame cb) (cbor_attack_frames a)"

text \<open>
  No attack confuses payload types: when one of the target's frames parses at all, the payload is
  of the type that frame's opcode names.
\<close>

lemma cbor_attack_types:
  "list_all2 (\<lambda>f res. \<forall>p. res = Inr p \<longrightarrow> opcode_enum (header f) = Some (payload_opcode p))
     (cbor_attack_frames a) (cbor_attack_fuzzer cb a)"
  using from_frame_opcode by (auto simp: cbor_attack_fuzzer_def list_all2_conv_all_nth)

section \<open>Properties\<close>

text \<open>
  No input makes the frame boundary fuzz target panic: a buffer that decodes has the right magic
  and a payload size within the limit, and a frame encodes to 128 bytes and its payload and
  decodes to the same fields. Moreover the buffer decodes exactly when its magic and version are
  right and it claims at most 100000 payload bytes, the most the target ever supplies.
\<close>

lemma boundary_fuzzer_never_panics:
  "frame_boundary_fuzzer b = Done () \<and>
   ((\<exists>f. decode (boundary_buffer b) = Inr f) \<longleftrightarrow>
      bf_magic b \<in> {MB_Valid, MB_Random 0x4C 0x4F 0x46 0x52} \<and> bf_version b \<in> {VB_Valid, VB_Random 1} \<and>
      unat (payload_size_value (bf_payload_size b)) \<le> 100000)"
proof -
  have v: "version_value v = 1 \<longleftrightarrow> v \<in> {VB_Valid, VB_Random 1}" for v
    by (cases v) simp_all
  have small: "\<not> FUZZ_MAX_PAYLOAD_SIZE < n" if "unat n \<le> 100000" for n
    using that by (simp add: FUZZ_MAX_PAYLOAD_SIZE_def word_less_nat_alt)
  have "check_decoded b = Done ()"
    using write_magic_slice [of "replicate (128 + actual_payload_size b) 0" "bf_magic b"]
    by (auto simp: check_decoded_def decode_boundary Let_def boundary_buffer_fields(1) split: if_splits)
  moreover have "(\<exists>f. decode (boundary_buffer b) = Inr f) \<longleftrightarrow>
      bf_magic b \<in> {MB_Valid, MB_Random 0x4C 0x4F 0x46 0x52} \<and> version_value (bf_version b) = 1 \<and>
      unat (payload_size_value (bf_payload_size b)) \<le> 100000"
    using small by (auto simp: decode_boundary Let_def split: if_splits)
  ultimately show ?thesis
    unfolding v by (simp add: frame_boundary_fuzzer_def boundary_round_trip)
qed

end
