(* ===== verification/Fuzz_Sequencer.thy ===== *)
theory Fuzz_Sequencer
  imports Assertions Sequencer_Model "HOL-Library.AList"
begin

text \<open>
  The fuzz target of the sequencer (\<^verbatim>\<open>fuzz/fuzz_targets/sequencer_state_fuzzer.rs\<close>): arbitrary frames
  for a few rooms, every action of the sequencer carried out on the in-memory storage, and the
  indices compared with the target's own counters. The \<^verbatim>\<open>HashMap\<close> of counters is an association
  list; its final traversal only asserts, so the order does not matter.
\<close>

section \<open>Inputs\<close>

datatype seq_room_choice = SR_Zero | SR_Small u8 | SR_MaxU128

datatype seq_frame_type = SF_Valid u16 u8 | SF_EpochOverflow

datatype sequencer_op =
    SO_ProcessFrame seq_room_choice seq_frame_type
  | SO_CheckLogIndex seq_room_choice

fun get_room_id :: "seq_room_choice \<Rightarrow> u128" where
  "get_room_id SR_Zero = 0"
| "get_room_id (SR_Small v) = min (max (ucast v) 1) 10"
| "get_room_id SR_MaxU128 = - 1"

fun create_frame :: "seq_frame_type \<Rightarrow> u128 \<Rightarrow> frame" where
  "create_frame (SF_Valid code epoch) room_id =
     (let op = (case from_u16 code of Some op \<Rightarrow> op | None \<Rightarrow> Op_AppMessage);
          h = set_sender_id 100 (set_epoch (ucast epoch) (set_room_id room_id (header_new op)))
      in frame_new (if op \<noteq> Op_Welcome then set_log_index 0 h else h) [])"
| "create_frame SF_EpochOverflow room_id =
     frame_new (set_sender_id 100 (set_epoch (- 1) (set_room_id room_id (header_new Op_AppMessage)))) []"

section \<open>The target\<close>

record sequencer_fuzz_state =
  sf_sequencer :: sequencer
  sf_storage :: memory_storage
  sf_expected :: "(u128 \<times> u64) list"

definition expected_of :: "sequencer_fuzz_state \<Rightarrow> u128 \<Rightarrow> u64" where
  "expected_of s r = (case map_of (sf_expected s) r of Some e \<Rightarrow> e | None \<Rightarrow> 0)"

fun check_action :: "u128 \<Rightarrow> sequencer_action \<Rightarrow> sequencer_fuzz_state \<Rightarrow> sequencer_fuzz_state exec" where
  "check_action room_id (AcceptFrame action_room log_index f) s =
     assert_that (action_room = room_id)
       (let expected = expected_of s room_id in
        assert_that (log_index = expected)
          (Done (s\<lparr>sf_expected := AList.update room_id (expected + 1) (sf_expected s)\<rparr>)))"
| "check_action room_id (RejectFrame _ _ _) s = Panic"
| "check_action room_id (StoreFrame action_room log_index f) s =
     assert_that (action_room = room_id)
       (Done (s\<lparr>sf_storage := fst (memory_store_frame action_room log_index f (sf_storage s))\<rparr>))"
| "check_action room_id (SQ_BroadcastToRoom _ _) s = Done s"

definition fuzz_process_frame ::
    "seq_room_choice \<Rightarrow> seq_frame_type \<Rightarrow> sequencer_fuzz_state \<Rightarrow> sequencer_fuzz_state exec" where
  "fuzz_process_frame room ty s =
     (let room_id = get_room_id room;
          (sq, st, res) = seq_process_frame memory_ops (create_frame ty room_id) (sf_sequencer s) (sf_storage s);
          s' = s\<lparr>sf_sequencer := sq, sf_storage := st\<rparr>
      in case res of
           Inr actions \<Rightarrow>
             assert_that (room_id \<noteq> 0)
               (assert_that (ty \<noteq> SF_EpochOverflow)
                 (exec_fold (check_action room_id) actions s'))
         | Inl _ \<Rightarrow> Done s')"

definition fuzz_check_log_index ::
    "seq_room_choice \<Rightarrow> sequencer_fuzz_state \<Rightarrow> sequencer_fuzz_state exec" where
  "fuzz_check_log_index room s =
     (let room_id = get_room_id room;
          (st, res) = memory_latest_log_index room_id (sf_storage s);
          s' = s\<lparr>sf_storage := st\<rparr>;
          expected = expected_of s room_id
      in case res of
           Inr (Some latest) \<Rightarrow> if 0 < expected then assert_that (latest = expected - 1) (Done s') else Done s'
         | Inr None \<Rightarrow> assert_that (expected = 0) (Done s')
         | Inl _ \<Rightarrow> Done s')"

fun fuzz_sequencer_op :: "sequencer_op \<Rightarrow> sequencer_fuzz_state \<Rightarrow> sequencer_fuzz_state exec" where
  "fuzz_sequencer_op (SO_ProcessFrame room ty) s = fuzz_process_frame room ty s"
| "fuzz_sequencer_op (SO_CheckLogIndex room) s = fuzz_check_log_index room s"

definition verify_sequential_indices :: "memory_storage \<Rightarrow> u128 \<times> u64 \<Rightarrow> unit exec" where
  "verify_sequential_indices st entry =
     (case entry of (room_id, expected_count) \<Rightarrow>
        exec_bind (memory_load_frames room_id 0 (unat (max expected_count 1)) st)
          (\<lambda>(_, res). case res of
             Inr frames \<Rightarrow>
               assert_that ((of_nat (length frames) :: u64) = expected_count)
                 (assert_indexed (\<lambda>i f. header_log_index (header f) = of_nat i) 0 frames)
           | Inl _ \<Rightarrow> Done ()))"

definition sequencer_state_fuzzer :: "sequencer_op list \<Rightarrow> unit exec" where
  "sequencer_state_fuzzer ops =
     exec_bind
       (exec_fold fuzz_sequencer_op ops
         \<lparr>sf_sequencer = sequencer_new, sf_storage = memory_new, sf_expected = []\<rparr>)
       (\<lambda>s. exec_fold (\<lambda>entry _. verify_sequential_indices (sf_storage s) entry) (sf_expected s) ())"

section \<open>The invariant of the loop\<close>

text \<open>A log whose frames carry their own positions.\<close>

definition positions_right :: "frame list \<Rightarrow> bool" where
  "positions_right fs \<longleftrightarrow> (\<forall>i < length fs. header_log_index (header (fs ! i)) = of_nat i)"

lemma positions_right_Nil [simp]: "positions_right []"
  by (simp add: positions_right_def)

lemma positions_right_snoc:
  "positions_right fs \<Longrightarrow> header_log_index (header f) = of_nat (length fs) \<Longrightarrow> positions_right (fs @ [f])"
  by (auto simp: positions_right_def nth_append less_Suc_eq)

definition sequencer_fuzz_inv :: "nat \<Rightarrow> sequencer_fuzz_state \<Rightarrow> bool" where
  "sequencer_fuzz_inv n s \<longleftrightarrow>
     distinct (map fst (sf_expected s)) \<and>
     (\<forall>r. let lg = mem_log (sf_storage s) r in
        standing (sf_sequencer s) (mem_log (sf_storage s)) r = of_nat (length lg) \<and>
        expected_of s r = of_nat (length lg) \<and> length lg + n < 2 ^ 64 \<and> positions_right lg)"

lemma fuzz_invD:
  assumes "sequencer_fuzz_inv n s"
  shows "distinct (map fst (sf_expected s))"
    "standing (sf_sequencer s) (mem_log (sf_storage s)) r = of_nat (length (mem_log (sf_storage s) r))"
    "expected_of s r = of_nat (length (mem_log (sf_storage s) r))"
    "length (mem_log (sf_storage s) r) + n < 2 ^ 64"
    "positions_right (mem_log (sf_storage s) r)"
  using assms by (simp_all add: sequencer_fuzz_inv_def Let_def)

lemma fuzz_inv_weaken:
  assumes "sequencer_fuzz_inv (Suc n) s"
  shows "sequencer_fuzz_inv n s"
proof -
  have "length (mem_log (sf_storage s) r) + n < 2 ^ 64" for r
    using fuzz_invD(4) [OF assms, of r] by simp
  then show ?thesis
    using fuzz_invD [OF assms] by (simp add: sequencer_fuzz_inv_def Let_def)
qed

lemma create_frame_room [simp]: "header_room_id (header (create_frame ty r)) = r"
  by (cases ty) (simp_all add: Let_def)

lemma validated_room_epoch:
  "validate_frame_structure f = Inr () \<Longrightarrow>
     header_room_id (header f) \<noteq> 0 \<and> header_epoch (header f) \<le> MAX_EPOCH"
  by (simp add: validate_frame_structure_def not_less split: if_split_asm)

lemma accepted_is_valid:
  assumes "seq_process_frame ops (create_frame ty r) sq s = (sq', s', Inr acts)"
  shows "r \<noteq> 0 \<and> ty \<noteq> SF_EpochOverflow"
proof -
  have "validate_frame_structure (create_frame ty r) = Inr ()"
    using assms
    by (cases "validate_frame_structure (create_frame ty r)") (simp_all add: seq_process_frame_def)
  note valid = validated_room_epoch [OF this]
  have "\<not> (- 1 :: u64) \<le> MAX_EPOCH"
    by (simp add: MAX_EPOCH_def word_le_nat_alt unsigned_minus_1_eq_mask mask_eq_exp_minus_1)
  then have "ty \<noteq> SF_EpochOverflow" using valid by auto
  with valid show ?thesis by simp
qed

lemma update_expected:
  assumes "sf_expected s' = AList.update r v (sf_expected s)"
  shows "expected_of s' q = (if q = r then v else expected_of s q)"
  by (simp add: expected_of_def assms update_conv')

lemma process_frame_arm:
  assumes "sequencer_fuzz_inv (Suc n) s"
  shows "returns (fuzz_process_frame room ty s) (sequencer_fuzz_inv n)"
proof (cases "sequenced_in (get_room_id room) (create_frame ty (get_room_id room))")
  case True
  define r where "r = get_room_id room"
  define lg where "lg = mem_log (sf_storage s) r"
  define g where "g = rebuild_frame_with_index (create_frame ty r) (of_nat (length lg))"
  note inv = fuzz_invD [OF assms]
  have "standing (sf_sequencer s) (mem_log (sf_storage s)) r \<noteq> - 1"
    using inv(2,4) [of r] by (simp add: of_nat_u64_not_max)
  then obtain sq st where step:
    "seq_process_frame memory_ops (create_frame ty r) (sf_sequencer s) (sf_storage s) =
      (sq, st, Inr [AcceptFrame r (of_nat (length lg)) g, StoreFrame r (of_nat (length lg)) g,
                    SQ_BroadcastToRoom r g])"
    "seq_rooms sq = (seq_rooms (sf_sequencer s))(r \<mapsto> \<lparr>next_log_index = of_nat (length lg) + 1\<rparr>)"
    "mem_log st = mem_log (sf_storage s)"
    using mem.seq_process_sequenced [OF True, of "sf_sequencer s" "sf_storage s"]
    by (auto simp: inv(2) r_def lg_def g_def)
  define s' where "s' = s\<lparr>sf_sequencer := sq,
    sf_storage := st\<lparr>mem_frames := (mem_frames st)(r \<mapsto> lg @ [g])\<rparr>,
    sf_expected := AList.update r (of_nat (length lg) + 1) (sf_expected s)\<rparr>"
  have run: "fuzz_process_frame room ty s = Done s'"
    using step accepted_is_valid [OF step(1)] inv(3) [of r]
    by (auto simp: fuzz_process_frame_def r_def [symmetric] Let_def s'_def expected_of_def lg_def
        memory_store_eq)
  have log': "mem_log (sf_storage s') = (mem_log (sf_storage s))(r := lg @ [g])"
    by (simp add: s'_def step(3))
  have "standing sq (mem_log (sf_storage s')) q = of_nat (length (mem_log (sf_storage s') q))" for q
    using inv(2) [of q] 
    by (cases "q = r") (simp_all add: standing_def step(2) log' add.commute split: option.splits)
  moreover have "expected_of s' q = of_nat (length (mem_log (sf_storage s') q))" for q
    using inv(3) [of q] update_expected [of s' r "of_nat (length lg) + 1" s q]
    by (simp add: s'_def step(3) add.commute)
  moreover have "positions_right (mem_log (sf_storage s') q)" for q
    using inv(5) [of q] by (cases "q = r") (simp_all add: log' positions_right_snoc lg_def g_def)
  moreover have "length (mem_log (sf_storage s') q) + n < 2 ^ 64" for q
    using inv(4) [of q] by (cases "q = r") (simp_all add: log' lg_def)
  ultimately have "sequencer_fuzz_inv n s'"
    using inv(1) by (simp add: sequencer_fuzz_inv_def Let_def s'_def distinct_update)
  then show ?thesis by (simp add: run)
next
  case False
  then have "\<And>q. \<not> sequenced_in q (create_frame ty (get_room_id room))"
    by (auto simp: sequenced_in_def)
  then obtain res where step:
    "seq_process_frame memory_ops (create_frame ty (get_room_id room)) (sf_sequencer s) (sf_storage s) =
       (sf_sequencer s, sf_storage s, res)"
    "\<And>acts. res = Inr acts \<Longrightarrow> \<exists>q f. acts = [SQ_BroadcastToRoom q f]"
    using mem.seq_process_not_sequenced by blast
  show ?thesis
  proof (cases res)
    case (Inr acts)
    then show ?thesis
      using step(1) step(2) [OF Inr] accepted_is_valid [OF step(1) [unfolded Inr]] fuzz_inv_weaken [OF assms]
      by (auto simp: fuzz_process_frame_def Let_def)
  qed (simp add: fuzz_process_frame_def step(1) Let_def fuzz_inv_weaken [OF assms])
qed

lemma check_log_index_arm:
  assumes "sequencer_fuzz_inv (Suc n) s"
  shows "returns (fuzz_check_log_index room s) (sequencer_fuzz_inv n)"
proof -
  let ?lg = "mem_log (sf_storage s) (get_room_id room)"
  have "expected_of s (get_room_id room) = of_nat (length ?lg)" using fuzz_invD(3) [OF assms] .
  moreover have "(of_nat (length ?lg - 1) :: u64) = of_nat (length ?lg) - 1" if "?lg \<noteq> []"
    using that by (cases ?lg) simp_all
  ultimately show ?thesis
    using fuzz_inv_weaken [OF assms]
    by (cases "?lg = []") (simp_all add: fuzz_check_log_index_def memory_latest_eq latest_of_def Let_def)
qed

interpretation fuzz_sequencer: asserting_loop fuzz_sequencer_op sequencer_fuzz_inv
proof
  fix n s x
  assume "sequencer_fuzz_inv (Suc n) s"
  then show "returns (fuzz_sequencer_op x s) (sequencer_fuzz_inv n)"
    by (cases x) (simp_all add: process_frame_arm check_log_index_arm)
qed

text \<open>The final verification of one room.\<close>

lemma verify_room:
  assumes "sequencer_fuzz_inv n s" and "(r, e) \<in> set (sf_expected s)"
  shows "verify_sequential_indices (sf_storage s) (r, e) = Done ()"
proof -
  let ?lg = "mem_log (sf_storage s) r"
  note inv = fuzz_invD(1) [OF assms(1)] fuzz_invD(3-5) [OF assms(1), of r]
  have "map_of (sf_expected s) r = Some e" using assms(2) inv(1) by simp
  then have e: "e = of_nat (length ?lg)" using inv(2) by (simp add: expected_of_def)
  have ue: "unat e = length ?lg" using inv(3) by (simp add: e unat_of_nat)
  have limit: "unat (max e 1) < 2 ^ 64" "length ?lg \<le> unat (max e 1)"
    using unat_u64_bound [of "max e 1"] by (simp_all add: ue [symmetric] word_le_nat_alt [symmetric])
  show ?thesis
  proof (cases "mem_frames (sf_storage s) r")
    case None
    then show ?thesis by (simp add: verify_sequential_indices_def memory_load_frames_def)
  next
    case (Some fs)
    then have "fs = ?lg" by (simp add: mem_log_def)
    with Some limit have "memory_load_frames r 0 (unat (max e 1)) (sf_storage s) = Done (sf_storage s, Inr ?lg)"
      by (simp add: memory_load_eq)
    moreover have "assert_indexed (\<lambda>i f. header_log_index (header f) = of_nat i) 0 ?lg = Done ()"
      using inv(4) by (simp add: assert_indexed_Done positions_right_def)
    ultimately show ?thesis by (simp add: verify_sequential_indices_def e)
  qed
qed

section \<open>Properties\<close>

text \<open>
  No sequence of fewer than 2 to the 64 operations makes the sequencer fuzz target panic: frames
  for room 0 and frames with an overflowing epoch are refused, every accepted frame gets the next
  index of its room, the storage's latest index is always the last one handed out, and in
  the end each room's stored frames carry the indices 0, 1, 2 and so on.
\<close>

lemma sequencer_fuzzer_never_panics:
  assumes "length ops < 2 ^ 64"
  shows "sequencer_state_fuzzer ops = Done ()"
proof -
  let ?start = "\<lparr>sf_sequencer = sequencer_new, sf_storage = memory_new, sf_expected = []\<rparr>"
  have "sequencer_fuzz_inv (length ops) ?start"
    using assms
    by (simp add: sequencer_fuzz_inv_def standing_def sequencer_new_def memory_new_def mem_log_def expected_of_def)
  from fuzz_sequencer.loop_returns_0 [OF this] obtain s
    where "exec_fold fuzz_sequencer_op ops ?start = Done s" and "sequencer_fuzz_inv 0 s"
    by (rule returnsE)
  then show ?thesis
    using verify_room by (auto simp: sequencer_state_fuzzer_def intro!: exec_fold_checks)
qed

end
