(* ===== verification/Fuzz_Signatures.thy ===== *)
theory Fuzz_Signatures
  imports Assertions Mls_State
begin

text \<open>
  The fuzz target of signature validation (\<^verbatim>\<open>fuzz/fuzz_targets/mls_signature_fuzzer.rs\<close>). The signing
  half of the Ed25519 library is the parameter \<open>dalek\<close>, in which a signing key is its 32 bytes; the
  verifying half is \<open>ed25519\<close>, as in the validator. What the target expects of the pair is stated
  as hypotheses that a concrete pair meets.
\<close>

section \<open>Inputs\<close>

unbundle bit_operations_syntax

record dalek =
  sk_verifying_key :: "bytes \<Rightarrow> bytes"
  sk_sign :: "bytes \<Rightarrow> bytes \<Rightarrow> bytes"

datatype tampered_field = TF_RoomId u128 | TF_SenderId u64 | TF_Epoch u64

datatype malformed_type = MT_AllZeros | MT_PatternFill u8 | MT_HighEntropyGarbage

datatype signing_key_choice = KC_First | KC_Second

datatype signature_attack =
    SA_CorruptedSignature u8 u8            \<comment> \<open>byte offset, bit offset\<close>
  | SA_WrongKey signing_key_choice
  | SA_TamperedData tampered_field
  | SA_MalformedSignature malformed_type

record signature_fuzz_input =
  sfi_seed :: bytes
  sfi_attack :: signature_attack

definition derive_key_bytes :: "bytes \<Rightarrow> u8 \<Rightarrow> bytes" where
  "derive_key_bytes seed index = map (\<lambda>(i, b). b XOR (index + of_nat i)) (List.enumerate 0 seed)"

definition create_signed_frame :: "dalek \<Rightarrow> bytes \<Rightarrow> u64 \<Rightarrow> u64 \<Rightarrow> u128 \<Rightarrow> frame" where
  "create_signed_frame dk key sender_id epoch room_id =
     (let h = set_log_index 0 (set_room_id room_id (set_epoch epoch (set_sender_id sender_id
            (header_new Op_AppMessage))))
      in frame_new (set_signature (sk_sign dk key (signing_data h)) h) [])"

definition create_group_state :: "u128 \<Rightarrow> u64 \<Rightarrow> u64 list \<Rightarrow> bytes \<Rightarrow> mls_group_state" where
  "create_group_state room_id epoch members verifying_key =
     with_keys room_id epoch (replicate 32 0) members
       (\<lambda>m. if m \<in> set members then Some verifying_key else None) []"

section \<open>The target\<close>

text \<open>\<^verbatim>\<open>assert!(result.is_ok())\<close>, then panic when the result is \<^verbatim>\<open>Accept\<close>.\<close>

definition assert_rejected :: "mls_error + validation_result \<Rightarrow> unit exec" where
  "assert_rejected result =
     (case result of Inl _ \<Rightarrow> Panic | Inr Accept \<Rightarrow> Panic | Inr (Reject _) \<Rightarrow> Done ())"

definition fuzz_corrupted :: "ed25519 \<Rightarrow> dalek \<Rightarrow> bytes \<Rightarrow> u8 \<Rightarrow> u8 \<Rightarrow> unit exec" where
  "fuzz_corrupted ed dk key1 byte_offset bit_offset =
     (let f = create_signed_frame dk key1 1 5 100;
          state = create_group_state 100 5 [1] (sk_verifying_key dk key1);
          sig = header_signature (header f);
          byte_idx = unat byte_offset mod 64;
          bit_idx = unat (bit_offset mod 8)
      in assert_that (validate_signature ed f state = Inr Accept)
           (if length sig = 64
            then assert_rejected
                   (validate_signature ed
                     (f\<lparr>header := set_signature (sig[byte_idx := sig ! byte_idx XOR push_bit bit_idx 1]) (header f)\<rparr>)
                     state)
            else Done ()))"

fun fuzz_wrong_key :: "ed25519 \<Rightarrow> dalek \<Rightarrow> bytes \<Rightarrow> bytes \<Rightarrow> signing_key_choice \<Rightarrow> unit exec" where
  "fuzz_wrong_key ed dk key1 key2 choice =
     (let (signing_key, verifying_key) =
            (case choice of KC_First \<Rightarrow> (key1, sk_verifying_key dk key2)
                          | KC_Second \<Rightarrow> (key2, sk_verifying_key dk key1))
      in assert_rejected
           (validate_signature ed (create_signed_frame dk signing_key 1 5 100)
             (create_group_state 100 5 [1] verifying_key)))"

text \<open>The guarded arms of the match: the tampered header, or nothing when the field is unchanged.\<close>

fun tamper :: "tampered_field \<Rightarrow> frame_header \<Rightarrow> frame_header option" where
  "tamper (TF_RoomId v) h = (if v \<noteq> header_room_id h then Some (set_room_id v h) else None)"
| "tamper (TF_SenderId v) h = (if v \<noteq> header_sender_id h then Some (set_sender_id v h) else None)"
| "tamper (TF_Epoch v) h = (if v \<noteq> header_epoch h then Some (set_epoch v h) else None)"

definition fuzz_tampered :: "ed25519 \<Rightarrow> dalek \<Rightarrow> bytes \<Rightarrow> tampered_field \<Rightarrow> unit exec" where
  "fuzz_tampered ed dk key1 field =
     (let f = create_signed_frame dk key1 1 5 100;
          state = create_group_state 100 5 [1] (sk_verifying_key dk key1)
      in assert_that (validate_signature ed f state = Inr Accept)
           (case tamper field (header f) of
              None \<Rightarrow> Done ()
            | Some h \<Rightarrow> assert_rejected (validate_signature ed (f\<lparr>header := h\<rparr>) state)))"

fun malformed_signature :: "malformed_type \<Rightarrow> bytes" where
  "malformed_signature MT_AllZeros = replicate 64 0"
| "malformed_signature (MT_PatternFill seed) = map (\<lambda>i. seed * 7 + of_nat i) [0..<64]"
| "malformed_signature MT_HighEntropyGarbage = map (\<lambda>i. of_nat i * 7 + 13) [0..<64]"

definition malformed_header :: frame_header where
  "malformed_header = set_room_id 100 (set_epoch 5 (set_sender_id 1 (header_new Op_AppMessage)))"

definition fuzz_malformed :: "ed25519 \<Rightarrow> dalek \<Rightarrow> bytes \<Rightarrow> malformed_type \<Rightarrow> unit exec" where
  "fuzz_malformed ed dk key1 malformed =
     assert_rejected
       (validate_signature ed
         (frame_new (set_signature (malformed_signature malformed) malformed_header) [])
         (create_group_state 100 5 [1] (sk_verifying_key dk key1)))"

definition mls_signature_fuzzer :: "ed25519 \<Rightarrow> dalek \<Rightarrow> signature_fuzz_input \<Rightarrow> unit exec" where
  "mls_signature_fuzzer ed dk input =
     (let key1 = derive_key_bytes (sfi_seed input) 0; key2 = derive_key_bytes (sfi_seed input) 1 in
      case sfi_attack input of
        SA_CorruptedSignature byte_offset bit_offset \<Rightarrow> fuzz_corrupted ed dk key1 byte_offset bit_offset
      | SA_WrongKey choice \<Rightarrow> fuzz_wrong_key ed dk key1 key2 choice
      | SA_TamperedData field \<Rightarrow> fuzz_tampered ed dk key1 field
      | SA_MalformedSignature malformed \<Rightarrow> fuzz_malformed ed dk key1 malformed)"

section \<open>What the signature library promises\<close>

text \<open>
  A signature has 64 bytes and is the only byte string that the key's verifying half accepts for
  the message; different 56-byte messages have different signatures under one key, and different
  32-byte keys make different signatures for one message.
\<close>

definition signer_matches :: "ed25519 \<Rightarrow> dalek \<Rightarrow> bool" where
  "signer_matches ed dk \<longleftrightarrow>
     (\<forall>key m s. length key = 32 \<and> length m = 56 \<longrightarrow>
        length (sk_sign dk key m) = 64 \<and>
        ((\<exists>vk sig. vk_from_bytes ed (sk_verifying_key dk key) = Some vk \<and>
            signature_from_slice ed s = Some sig \<and> vk_verify ed vk m sig) \<longleftrightarrow> s = sk_sign dk key m))"

definition signatures_separate :: "dalek \<Rightarrow> bool" where
  "signatures_separate dk \<longleftrightarrow>
     (\<forall>key m m'. length key = 32 \<and> length m = 56 \<and> length m' = 56 \<and> sk_sign dk key m = sk_sign dk key m' \<longrightarrow> m = m') \<and>
     (\<forall>key key' m. length key = 32 \<and> length key' = 32 \<and> length m = 56 \<and> sk_sign dk key m = sk_sign dk key' m \<longrightarrow>
        key = key')"

section \<open>Validation against the promises\<close>

lemma assert_rejected_eq:
  "assert_rejected (validate_signature ed f st) = (if validate_signature ed f st = Inr Accept then Panic else Done ())"
  by (simp add: assert_rejected_def validate_signature_def Let_def split: option.split)

lemma accepts_iff:
  assumes "signer_matches ed dk" and "length key = 32" and "wf_header (header f)"
  shows "validate_signature ed f (create_group_state 100 5 [1] (sk_verifying_key dk key)) = Inr Accept \<longleftrightarrow>
     header_sender_id (header f) = 1 \<and> header_signature (header f) = sk_sign dk key (signing_data (header f))"
proof -
  have "(\<exists>vk sig. vk_from_bytes ed (sk_verifying_key dk key) = Some vk \<and>
      signature_from_slice ed (header_signature (header f)) = Some sig \<and>
      vk_verify ed vk (signing_data (header f)) sig) \<longleftrightarrow>
      header_signature (header f) = sk_sign dk key (signing_data (header f))"
    using assms unfolding signer_matches_def by simp
  then show ?thesis
    by (simp add: validate_signature_Accept member_key_def create_group_state_def with_keys_def)
qed

text \<open>The header of a signed frame; signing and framing change neither the signed bytes nor the fields.\<close>

lemma zero_size_bytes: "to_be_bytes (0 :: u32) = replicate 4 0"
proof -
  have "replicate 4 (0 :: u8) = [0, 0, 0, 0]" by (simp add: numeral_eq_Suc)
  then show ?thesis by (simp add: to_be_bytes_def)
qed

lemma signing_data_frame_new:
  assumes "wf_header h" and "payload_size_bytes h = replicate 4 0" and "length s = 64"
  shows "signing_data (header (frame_new (set_signature s h) [])) = signing_data h"
proof -
  have "wf_header (header (frame_new (set_signature s h) []))" using assms(1,3) by simp
  then show ?thesis
    using assms by (simp add: signing_data_eq) (simp add: frame_new_def set_signature_def zero_size_bytes)
qed

definition signed_header :: "u64 \<Rightarrow> u64 \<Rightarrow> u128 \<Rightarrow> frame_header" where
  "signed_header sender_id epoch room_id =
     set_log_index 0 (set_room_id room_id (set_epoch epoch (set_sender_id sender_id (header_new Op_AppMessage))))"

lemma signed_header [simp]:
  "wf_header (signed_header sid e r)" "header_sender_id (signed_header sid e r) = sid"
  "payload_size_bytes (signed_header sid e r) = replicate 4 0"
  by (simp_all add: signed_header_def)
    (simp add: set_log_index_def set_room_id_def set_epoch_def set_sender_id_def header_new_fields)

lemma signed_frame:
  assumes "signer_matches ed dk" and "length key = 32" and f_def: "f = create_signed_frame dk key sid e r"
  shows "wf_header (header f)" "header_sender_id (header f) = sid"
    "header_signature (header f) = sk_sign dk key (signing_data (header f))"
    "signing_data (header f) = signing_data (signed_header sid e r)"
    "length (header_signature (header f)) = 64"
proof -
  let ?h = "signed_header sid e r" and ?s = "sk_sign dk key (signing_data (signed_header sid e r))"
  have f: "f = frame_new (set_signature ?s ?h) []"
    by (simp add: f_def create_signed_frame_def signed_header_def Let_def)
  have len: "length ?s = 64" using assms(1,2) by (simp add: signer_matches_def)
  then show data: "signing_data (header f) = signing_data ?h" by (simp add: f signing_data_frame_new)
  show "wf_header (header f)" "header_sender_id (header f) = sid" using len by (simp_all add: f)
  show "header_signature (header f) = sk_sign dk key (signing_data (header f))"
    using data by (simp add: f)
  then show "length (header_signature (header f)) = 64" using data len by simp
qed

lemma flipped_bit_differs: "i < length xs \<Longrightarrow> b < 8 \<Longrightarrow> xs[i := xs ! i XOR push_bit b 1] \<noteq> (xs :: bytes)"
proof
  assume "i < length xs" "b < 8" and eq: "xs[i := xs ! i XOR push_bit b 1] = xs"
  then have "xs ! i XOR push_bit b 1 = xs ! i" by (metis nth_list_update_eq)
  then have "bit (xs ! i XOR push_bit b 1) b = bit (xs ! i) b" by simp
  with \<open>b < 8\<close> show False by (simp add: bit_xor_iff bit_exp_iff)
qed

lemma signing_data_set_signature:
  "wf_header h \<Longrightarrow> length s = 64 \<Longrightarrow> signing_data (set_signature s h) = signing_data h"
  by (simp add: signing_data_eq) (simp add: set_signature_def)

lemma corrupted_returns:
  assumes "signer_matches ed dk" and "length key = 32"
  shows "fuzz_corrupted ed dk key i j = Done ()"
proof -
  let ?f = "create_signed_frame dk key 1 5 100"
  note f = signed_frame [OF assms refl, of 1 5 100]
  let ?sig = "header_signature (header ?f)" and ?k = "unat i mod 64" and ?b = "unat (j mod 8)"
  have "?b < 8" using word_mod_less_divisor [of 8 j] by (simp add: word_less_nat_alt)
  then have changed: "?sig[?k := ?sig ! ?k XOR push_bit ?b 1] \<noteq> ?sig"
    using f(5) by (intro flipped_bit_differs) simp_all
  let ?g = "?f\<lparr>header := set_signature (?sig[?k := ?sig ! ?k XOR push_bit ?b 1]) (header ?f)\<rparr>"
  have wf: "wf_header (header ?g)" using f(1,5) by simp
  have "signing_data (header ?g) = signing_data (header ?f)" using f(1,5) by (simp add: signing_data_set_signature)
  then have "header_signature (header ?g) \<noteq> sk_sign dk key (signing_data (header ?g))"
    using changed f(3) by simp
  then have bad: "validate_signature ed ?g (create_group_state 100 5 [1] (sk_verifying_key dk key)) \<noteq> Inr Accept"
    using accepts_iff [OF assms wf] by blast
  have good: "validate_signature ed ?f (create_group_state 100 5 [1] (sk_verifying_key dk key)) = Inr Accept"
    using accepts_iff [OF assms f(1)] f(2,3) by blast
  show ?thesis
    unfolding fuzz_corrupted_def Let_def good assert_rejected_eq using bad f(5) by simp
qed

lemma wrong_key_returns:
  assumes "signer_matches ed dk" and "signatures_separate dk"
    and "length key1 = 32" and "length key2 = 32" and "key1 \<noteq> key2"
  shows "fuzz_wrong_key ed dk key1 key2 choice = Done ()"
proof -
  have rejected: "assert_rejected (validate_signature ed (create_signed_frame dk k 1 5 100)
      (create_group_state 100 5 [1] (sk_verifying_key dk k'))) = Done ()"
    if k: "length k = 32" "length k' = 32" "k \<noteq> k'" for k k'
  proof -
    note f = signed_frame [OF assms(1) k(1) refl, of 1 5 100]
    have "sk_sign dk k m \<noteq> sk_sign dk k' m" if "length m = 56" for m
      using assms(2) k that unfolding signatures_separate_def by blast
    then have "header_signature (header (create_signed_frame dk k 1 5 100)) \<noteq>
        sk_sign dk k' (signing_data (header (create_signed_frame dk k 1 5 100)))"
      using f(1,3) by simp
    then show ?thesis using accepts_iff [OF assms(1) k(2) f(1)] by (simp add: assert_rejected_eq)
  qed
  show ?thesis
    using rejected [of key1 key2] rejected [of key2 key1] assms(3-5) by (cases choice) auto
qed

text \<open>A tampered header is well-formed, keeps the signature, and has other signed bytes or another sender.\<close>

lemma tamper_effect:
  assumes "tamper field h = Some h'" and "wf_header h"
  shows "wf_header h'" "header_signature h' = header_signature h" "signing_data h' \<noteq> signing_data h"
proof -
  show wf: "wf_header h'" and "header_signature h' = header_signature h"
    using assms by (cases field; auto split: if_splits)+
  have "header_room_id h' \<noteq> header_room_id h \<or> header_sender_id h' \<noteq> header_sender_id h \<or>
      header_epoch h' \<noteq> header_epoch h"
    using assms(1) by (cases field) (auto split: if_splits)
  moreover have "header_room_id h' = header_room_id h \<and> header_sender_id h' = header_sender_id h \<and>
      header_epoch h' = header_epoch h" if "signing_data h' = signing_data h"
  proof -
    have eq: "h = h'\<lparr>context_id_bytes := context_id_bytes h, signature_bytes := signature_bytes h\<rparr>"
      using that signing_data_pins_header [OF wf assms(2)] by blast
    show ?thesis
      using arg_cong [OF eq, of header_room_id] arg_cong [OF eq, of header_sender_id]
        arg_cong [OF eq, of header_epoch]
      by (simp add: header_room_id_def header_sender_id_def header_epoch_def)
  qed
  ultimately show "signing_data h' \<noteq> signing_data h" by blast
qed

lemma tampered_returns:
  assumes "signer_matches ed dk" and "signatures_separate dk" and "length key = 32"
  shows "fuzz_tampered ed dk key field = Done ()"
proof -
  let ?f = "create_signed_frame dk key 1 5 100" and ?st = "create_group_state 100 5 [1] (sk_verifying_key dk key)"
  note f = signed_frame [OF assms(1,3) refl, of 1 5 100]
  have good: "validate_signature ed ?f ?st = Inr Accept"
    using accepts_iff [OF assms(1,3) f(1)] f(2,3) by blast
  show ?thesis
  proof (cases "tamper field (header ?f)")
    case (Some h)
    note t = tamper_effect [OF Some f(1)]
    have "sk_sign dk key (signing_data h) \<noteq> sk_sign dk key (signing_data (header ?f))"
      using assms(2,3) t(1,3) f(1) length_signing_data unfolding signatures_separate_def by metis
    then have "validate_signature ed (?f\<lparr>header := h\<rparr>) ?st \<noteq> Inr Accept"
      using accepts_iff [OF assms(1,3), of "?f\<lparr>header := h\<rparr>"] t(1,2) f(3) by simp
    then show ?thesis
      unfolding fuzz_tampered_def Let_def good Some assert_rejected_eq by simp
  qed (simp add: fuzz_tampered_def Let_def good)
qed

lemma malformed_eq:
  assumes "signer_matches ed dk" and "length key = 32"
  shows "fuzz_malformed ed dk key t =
     (if malformed_signature t = sk_sign dk key (signing_data malformed_header) then Panic else Done ())"
proof -
  let ?f = "frame_new (set_signature (malformed_signature t) malformed_header) []"
  have len: "length (malformed_signature t) = 64" by (cases t) simp_all
  have h: "wf_header malformed_header" "header_sender_id malformed_header = 1"
    "payload_size_bytes malformed_header = replicate 4 0"
    by (simp_all add: malformed_header_def)
      (simp add: set_room_id_def set_epoch_def set_sender_id_def header_new_fields)
  have wf: "wf_header (header ?f)" using h(1) len by simp
  show ?thesis
    unfolding fuzz_malformed_def assert_rejected_eq accepts_iff [OF assms wf] signing_data_frame_new [OF h(1,3) len]
    using h(2) by simp
qed

lemma derived_keys:
  assumes "length seed = 32"
  shows "length (derive_key_bytes seed i) = 32" "derive_key_bytes seed 0 \<noteq> derive_key_bytes seed 1"
proof -
  show "length (derive_key_bytes seed i) = 32" using assms by (simp add: derive_key_bytes_def)
  obtain b rest where seed: "seed = b # rest" using assms by (cases seed) auto
  have "b XOR 0 \<noteq> b XOR 1"
  proof
    assume "b XOR 0 = b XOR 1"
    then have "bit (b XOR 0) 0 = bit (b XOR 1) 0" by simp
    then show False by (simp add: bit_xor_iff)
  qed
  then show "derive_key_bytes seed 0 \<noteq> derive_key_bytes seed 1"
    by (simp add: derive_key_bytes_def seed)
qed

section \<open>Properties\<close>


text \<open>A pair that keeps the promises: the message masked with the key.\<close>

definition masking_dalek :: dalek where
  "masking_dalek =
     \<lparr>sk_verifying_key = (\<lambda>key. key),
      sk_sign = (\<lambda>key m. map2 (XOR) m (key @ replicate 24 0) @ replicate 8 0)\<rparr>"

definition masking_ed25519 :: ed25519 where
  "masking_ed25519 =
     \<lparr>vk_from_bytes = Some, signature_from_slice = Some,
      vk_verify = (\<lambda>vk m sig. sig = sk_sign masking_dalek vk m)\<rparr>"

lemma map2_xor_cancel:
  "length (a :: bytes) = length k \<Longrightarrow> length b = length k \<Longrightarrow> map2 (XOR) a k = map2 (XOR) b k \<longleftrightarrow> a = b"
proof (induction k arbitrary: a b)
  case (Cons x k)
  obtain y ys z zs where ab: "a = y # ys" "b = z # zs"
    using Cons.prems by (cases a; cases b) auto
  have "y = z" if "y XOR x = z XOR x"
    using arg_cong [OF that, of "\<lambda>w. w XOR x"] by (simp add: xor.assoc)
  then have "y XOR x = z XOR x \<longleftrightarrow> y = z" by blast
  with Cons ab show ?case by simp
qed simp

lemma map2_xor_commute: "map2 (XOR) (a :: bytes) b = map2 (XOR) b a"
  by (induction a b rule: list_induct2') (simp_all add: xor.commute)

lemma masking_promises: "signer_matches masking_ed25519 masking_dalek" "signatures_separate masking_dalek"
proof -
  show "signer_matches masking_ed25519 masking_dalek"
    by (simp add: signer_matches_def masking_ed25519_def) (simp add: masking_dalek_def)
  have "m = m'" if "length key = 32" "length m = 56" "length m' = 56"
    "sk_sign masking_dalek key m = sk_sign masking_dalek key m'" for key m m'
    using that map2_xor_cancel [of m "key @ replicate 24 0" m'] by (simp add: masking_dalek_def)
  moreover have "key = key'" if "length key = 32" "length key' = 32" "length m = 56"
    "sk_sign masking_dalek key m = sk_sign masking_dalek key' m" for key key' m
    using that map2_xor_cancel [of "key @ replicate 24 0" m "key' @ replicate 24 0"]
      map2_xor_commute [of m] by (simp add: masking_dalek_def)
  ultimately show "signatures_separate masking_dalek" unfolding signatures_separate_def by blast
qed


end
