(* ===== verification/Fuzz_Rooms.thy ===== *)
theory Fuzz_Rooms
  imports Fuzz_Sequencer Fuzz_Signatures Server_Runtime
begin

text \<open>
  The fuzz targets of the room pipeline: frames and attacks against the room manager
  (\<^verbatim>\<open>fuzz/fuzz_targets/room_manager_fuzzer.rs\<close>), the same from raw bytes on
  (\<^verbatim>\<open>e2e_pipeline_fuzzer.rs\<close>), and the room manager over a storage that fails at random
  (\<^verbatim>\<open>storage_chaos_fuzzer.rs\<close>). Each operation of an input comes with the clock reading of
  the call; the signing half of the Ed25519 library is the parameter \<open>dalek\<close>.
\<close>

section \<open>Members and signed frames\<close>

unbundle bit_operations_syntax

text \<open>\<^verbatim>\<open>(1..=member_count).map(|i| 100 + i as u64)\<close> and the keys derived from the seed.\<close>

definition fuzz_member_ids :: "nat \<Rightarrow> u64 list" where
  "fuzz_member_ids member_count = map (\<lambda>i. 100 + of_nat i) [1..<member_count + 1]"

definition fuzz_key_bytes :: "bytes \<Rightarrow> nat \<Rightarrow> bytes" where
  "fuzz_key_bytes seed i = map (\<lambda>(j, b). b XOR (of_nat i + of_nat j)) (List.enumerate 0 seed)"

definition fuzz_member_keys :: "bytes \<Rightarrow> u64 list \<Rightarrow> u64 \<rightharpoonup> bytes" where
  "fuzz_member_keys seed member_ids =
     map_of (map (\<lambda>(i, m). (m, fuzz_key_bytes seed i)) (List.enumerate 0 member_ids))"

definition fuzz_verifying_keys :: "dalek \<Rightarrow> bytes \<Rightarrow> u64 list \<Rightarrow> u64 \<rightharpoonup> bytes" where
  "fuzz_verifying_keys dk seed member_ids = map_option (sk_verifying_key dk) \<circ> fuzz_member_keys seed member_ids"

definition fuzz_signed_frame :: "dalek \<Rightarrow> bytes \<Rightarrow> u64 \<Rightarrow> u64 \<Rightarrow> u128 \<Rightarrow> opcode \<Rightarrow> frame" where
  "fuzz_signed_frame dk key sender_id epoch room_id op =
     (let h = set_log_index 0 (set_room_id room_id (set_epoch epoch (set_sender_id sender_id (header_new op))))
      in frame_new (set_signature (sk_sign dk key (signing_data h)) h) [])"

text \<open>\<^verbatim>\<open>sig_array[i % 64] ^= 0x01\<close> on a 64-byte signature, any other length left alone.\<close>

definition flip_signature :: "u8 \<Rightarrow> frame \<Rightarrow> frame" where
  "flip_signature i f =
     (let sig = header_signature (header f); k = unat (i mod 64) in
      if length sig = 64
      then f\<lparr>header := set_signature (sig[k := sig ! k XOR 0x01]) (header f)\<rparr> else f)"

definition unsigned_frame :: "u64 \<Rightarrow> u64 \<Rightarrow> u128 \<Rightarrow> frame" where
  "unsigned_frame sender_id epoch room_id =
     frame_new (set_signature (replicate 64 0xAA)
       (set_room_id room_id (set_epoch epoch (set_sender_id sender_id (header_new Op_AppMessage))))) []"

text \<open>\<^verbatim>\<open>member_ids[(member_idx as usize) % member_ids.len()]\<close>, then \<^verbatim>\<open>expect\<close> on the key.\<close>

definition with_member :: "u64 list \<Rightarrow> (u64 \<rightharpoonup> bytes) \<Rightarrow> u8 \<Rightarrow> (u64 \<Rightarrow> bytes \<Rightarrow> 'a exec) \<Rightarrow> 'a exec" where
  "with_member member_ids keys member_idx k =
     (if member_ids = [] then Panic
      else let sender_id = member_ids ! (unat member_idx mod length member_ids) in
        case keys sender_id of None \<Rightarrow> Panic | Some key \<Rightarrow> k sender_id key)"

section \<open>The room manager target\<close>

datatype room_id_choice = RC_Valid u8 | RC_Zero | RC_MaxU128

datatype frame_attack =
    FA_ValidFromMember u8
  | FA_FromNonMember u64
  | FA_WrongEpoch u8 "8 word"              \<comment> \<open>member, signed offset\<close>
  | FA_InvalidOpcode u8 u16
  | FA_CorruptedSignature u8 u8

record room_scenario =
  rsc_seed :: bytes
  rsc_room_id :: room_id_choice
  rsc_member_count :: u8
  rsc_frames :: "(instant \<times> frame_attack) list"

fun chosen_room :: "room_id_choice \<Rightarrow> u128" where
  "chosen_room (RC_Valid v) = ucast v"
| "chosen_room RC_Zero = 0"
| "chosen_room RC_MaxU128 = - 1"

definition wrong_epoch :: "u64 \<Rightarrow> 8 word \<Rightarrow> u64" where
  "wrong_epoch epoch offset =
     (if sint offset < 0 then saturating_sub epoch (of_int (- sint offset))
      else saturating_add epoch (of_int (sint offset)))"

fun create_frame_from_attack ::
    "dalek \<Rightarrow> frame_attack \<Rightarrow> u128 \<Rightarrow> u64 \<Rightarrow> u64 list \<Rightarrow> (u64 \<rightharpoonup> bytes) \<Rightarrow> frame exec" where
  "create_frame_from_attack dk (FA_ValidFromMember m) room_id epoch members keys =
     with_member members keys m (\<lambda>sender_id key. Done (fuzz_signed_frame dk key sender_id epoch room_id Op_AppMessage))"
| "create_frame_from_attack dk (FA_FromNonMember fake) room_id epoch members keys =
     Done (unsigned_frame fake epoch room_id)"
| "create_frame_from_attack dk (FA_WrongEpoch m offset) room_id epoch members keys =
     with_member members keys m (\<lambda>sender_id key.
       Done (fuzz_signed_frame dk key sender_id (wrong_epoch epoch offset) room_id Op_AppMessage))"
| "create_frame_from_attack dk (FA_InvalidOpcode m code) room_id epoch members keys =
     with_member members keys m (\<lambda>sender_id key.
       Done (fuzz_signed_frame dk key sender_id epoch room_id
         (case from_u16 code of Some op \<Rightarrow> op | None \<Rightarrow> Op_AppMessage)))"
| "create_frame_from_attack dk (FA_CorruptedSignature m flip) room_id epoch members keys =
     with_member members keys m (\<lambda>sender_id key.
       Done (flip_signature flip (fuzz_signed_frame dk key sender_id epoch room_id Op_AppMessage)))"

record 'x room_fuzz_state =
  rf_manager :: "'x room_manager"
  rf_storage :: memory_storage
  rf_expected_log_index :: u64
  rf_current_epoch :: u64
  rf_frames_accepted :: nat

text \<open>Counting the \<^verbatim>\<open>PersistFrame\<close> actions that carry the expected index.\<close>

fun count_persisted :: "u64 \<times> nat \<Rightarrow> room_action list \<Rightarrow> u64 \<times> nat" where
  "count_persisted (expected, n) [] = (expected, n)"
| "count_persisted (expected, n) (PersistFrame r i f t # acts) =
     count_persisted (if i = expected then (expected + 1, n + 1) else (expected, n)) acts"
| "count_persisted (expected, n) (a # acts) = count_persisted (expected, n) acts"

definition reload_epoch :: "u128 \<Rightarrow> memory_storage \<Rightarrow> u64 \<Rightarrow> u64" where
  "reload_epoch room_id st epoch =
     (case snd (memory_load_mls_state room_id st) of Inr (Some mls) \<Rightarrow> mgs_epoch mls | _ \<Rightarrow> epoch)"

definition room_fuzz_step ::
    "'x openmls \<Rightarrow> ed25519 \<Rightarrow> dalek \<Rightarrow> u128 \<Rightarrow> u64 list \<Rightarrow> (u64 \<rightharpoonup> bytes) \<Rightarrow> instant \<times> frame_attack \<Rightarrow>
       'x room_fuzz_state \<Rightarrow> 'x room_fuzz_state exec" where
  "room_fuzz_step om ed dk room_id members keys input s =
     (case input of (now, attack) \<Rightarrow>
        exec_bind (create_frame_from_attack dk attack room_id (rf_current_epoch s) members keys)
          (\<lambda>f. let (rm, st, res) = rm_process_frame om ed memory_ops now f (rf_manager s) (rf_storage s);
                   s1 = s\<lparr>rf_manager := rm, rf_storage := st\<rparr>;
                   epoch = reload_epoch room_id st (rf_current_epoch s)
               in case res of
                    Inr actions \<Rightarrow>
                      (let (expected, n) =
                         count_persisted (rf_expected_log_index s, rf_frames_accepted s) actions
                       in Done (s1\<lparr>rf_expected_log_index := expected, rf_frames_accepted := n,
                                   rf_current_epoch := epoch\<rparr>))
                  | Inl _ \<Rightarrow>
                      (case snd (memory_latest_log_index room_id st) of
                         Inr (Some latest) \<Rightarrow>
                           if 0 < rf_frames_accepted s
                           then assert_that (latest = rf_expected_log_index s - 1)
                                  (Done (s1\<lparr>rf_current_epoch := epoch\<rparr>))
                           else Done (s1\<lparr>rf_current_epoch := epoch\<rparr>)
                       | _ \<Rightarrow> Done (s1\<lparr>rf_current_epoch := epoch\<rparr>))))"

definition verify_storage_invariants :: "u128 \<Rightarrow> u64 \<Rightarrow> memory_storage \<Rightarrow> unit exec" where
  "verify_storage_invariants room_id expected_count st =
     exec_bind (memory_load_frames room_id 0 (unat (max expected_count 1)) st)
       (\<lambda>(_, res). case res of
          Inr frames \<Rightarrow>
            assert_that ((of_nat (length frames) :: u64) = expected_count)
              (assert_indexed (\<lambda>i f. header_log_index (header f) = of_nat i) 0 frames)
        | Inl _ \<Rightarrow> Done ())"

text \<open>
  The target up to its final verification: \<^verbatim>\<open>None\<close> when it returns early, otherwise the state
  after the last frame.
\<close>

definition room_manager_fuzz_run ::
    "'x openmls \<Rightarrow> ed25519 \<Rightarrow> dalek \<Rightarrow> 'x \<Rightarrow> instant \<Rightarrow> room_scenario \<Rightarrow> 'x room_fuzz_state option exec" where
  "room_manager_fuzz_run om ed dk env now sc =
     (let room_id = chosen_room (rsc_room_id sc);
          member_ids = fuzz_member_ids (unat (rsc_member_count sc mod 5 + 1));
          keys = fuzz_member_keys (rsc_seed sc) member_ids
      in case rm_create_room om env now room_id (member_ids ! 0) room_manager_new of
           (_, Inl _) \<Rightarrow> Done None
         | (rm, Inr _) \<Rightarrow>
             (case memory_store_mls_state room_id
                     (with_keys room_id 0 (replicate 32 0) member_ids
                       (fuzz_verifying_keys dk (rsc_seed sc) member_ids) []) memory_new of
                (_, Inl _) \<Rightarrow> Done None
              | (st, Inr _) \<Rightarrow>
                  exec_bind (exec_fold (room_fuzz_step om ed dk room_id member_ids keys) (rsc_frames sc)
                      \<lparr>rf_manager = rm, rf_storage = st, rf_expected_log_index = 0,
                       rf_current_epoch = 0, rf_frames_accepted = 0\<rparr>)
                    (\<lambda>s. Done (Some s))))"

definition room_manager_fuzzer ::
    "'x openmls \<Rightarrow> ed25519 \<Rightarrow> dalek \<Rightarrow> 'x \<Rightarrow> instant \<Rightarrow> room_scenario \<Rightarrow> unit exec" where
  "room_manager_fuzzer om ed dk env now sc =
     exec_bind (room_manager_fuzz_run om ed dk env now sc)
       (\<lambda>result. case result of
          None \<Rightarrow> Done ()
        | Some s \<Rightarrow> verify_storage_invariants (chosen_room (rsc_room_id sc)) (rf_expected_log_index s) (rf_storage s))"

section \<open>The end-to-end target\<close>

datatype attack_type = AT_CorruptedSignature u8 | AT_WrongEpoch u8 | AT_NonMember

datatype frame_input =
    FI_RawBytes bytes
  | FI_ValidFrame u8 u16
  | FI_AttackFrame attack_type u8

record e2e_scenario =
  es_seed :: bytes
  es_room_id :: u8
  es_member_count :: u8
  es_epoch :: u8
  es_frames :: "(instant \<times> frame_input) list"

definition create_valid_frame :: "dalek \<Rightarrow> bytes \<Rightarrow> u64 \<Rightarrow> u64 \<Rightarrow> u128 \<Rightarrow> u16 \<Rightarrow> frame" where
  "create_valid_frame dk key sender_id epoch room_id code =
     fuzz_signed_frame dk key sender_id epoch room_id
       (case from_u16 code of Some op \<Rightarrow> op | None \<Rightarrow> Op_AppMessage)"

text \<open>Indexing the member list panics when it is empty; a missing key gives no frame.\<close>

definition create_attack_frame ::
    "dalek \<Rightarrow> attack_type \<Rightarrow> u64 list \<Rightarrow> (u64 \<rightharpoonup> bytes) \<Rightarrow> u8 \<Rightarrow> u64 \<Rightarrow> u128 \<Rightarrow> frame option exec" where
  "create_attack_frame dk attack members keys member_idx epoch room_id =
     (if members = [] then Panic
      else let sender_id = members ! (unat member_idx mod length members) in
        case keys sender_id of
          None \<Rightarrow> Done None
        | Some key \<Rightarrow>
            (case attack of
               AT_CorruptedSignature flip \<Rightarrow>
                 Done (Some (flip_signature flip
                   (create_valid_frame dk key sender_id epoch room_id (to_u16 Op_AppMessage))))
             | AT_WrongEpoch offset \<Rightarrow>
                 Done (Some (create_valid_frame dk key sender_id (epoch + max (ucast offset) 1) room_id
                   (to_u16 Op_AppMessage)))
             | AT_NonMember \<Rightarrow> Done (Some (unsigned_frame 9999 epoch room_id))))"

fun e2e_frame ::
    "dalek \<Rightarrow> u64 list \<Rightarrow> (u64 \<rightharpoonup> bytes) \<Rightarrow> u64 \<Rightarrow> u128 \<Rightarrow> frame_input \<Rightarrow> frame option exec" where
  "e2e_frame dk members keys epoch room_id (FI_RawBytes bs) =
     Done (case decode bs of Inl _ \<Rightarrow> None | Inr f \<Rightarrow> Some f)"
| "e2e_frame dk members keys epoch room_id (FI_ValidFrame m code) =
     (if members = [] then Panic
      else let sender_id = members ! (unat m mod length members) in
        Done (map_option (\<lambda>key. create_valid_frame dk key sender_id epoch room_id code) (keys sender_id)))"
| "e2e_frame dk members keys epoch room_id (FI_AttackFrame attack m) =
     create_attack_frame dk attack members keys m epoch room_id"

record 'x e2e_state =
  ee_manager :: "'x room_manager"
  ee_storage :: memory_storage
  ee_next_log_index :: u64

definition e2e_step ::
    "'x openmls \<Rightarrow> ed25519 \<Rightarrow> dalek \<Rightarrow> u64 list \<Rightarrow> (u64 \<rightharpoonup> bytes) \<Rightarrow> u64 \<Rightarrow> u128 \<Rightarrow>
       instant \<times> frame_input \<Rightarrow> 'x e2e_state \<Rightarrow> 'x e2e_state exec" where
  "e2e_step om ed dk members keys epoch room_id input s =
     (case input of (now, fi) \<Rightarrow>
        exec_bind (e2e_frame dk members keys epoch room_id fi)
          (\<lambda>frame_opt. case frame_opt of
             None \<Rightarrow> Done s
           | Some f \<Rightarrow>
               (let (rm, st, res) = rm_process_frame om ed memory_ops now f (ee_manager s) (ee_storage s);
                    s1 = s\<lparr>ee_manager := rm, ee_storage := st\<rparr>
                in case res of
                     Inr actions \<Rightarrow>
                       Done (s1\<lparr>ee_next_log_index := fst (count_persisted (ee_next_log_index s, 0) actions)\<rparr>)
                   | Inl _ \<Rightarrow> Done s1)))"

definition e2e_run ::
    "'x openmls \<Rightarrow> ed25519 \<Rightarrow> dalek \<Rightarrow> 'x \<Rightarrow> instant \<Rightarrow> e2e_scenario \<Rightarrow> 'x e2e_state option exec" where
  "e2e_run om ed dk env now sc =
     (let room_id = max (ucast (es_room_id sc)) 1 :: u128;
          member_ids = fuzz_member_ids (unat (max (es_member_count sc mod 10) 1));
          epoch = ucast (es_epoch sc) :: u64;
          keys = fuzz_member_keys (es_seed sc) member_ids;
          group_state = with_keys room_id epoch (replicate 32 0) member_ids
            (fuzz_verifying_keys dk (es_seed sc) member_ids) []
      in case rm_create_room om env now room_id (member_ids ! 0) room_manager_new of
           (_, Inl _) \<Rightarrow> Done None
         | (rm, Inr _) \<Rightarrow>
             (case memory_store_mls_state room_id group_state memory_new of
                (_, Inl _) \<Rightarrow> Done None
              | (st, Inr _) \<Rightarrow>
                  exec_bind (exec_fold (e2e_step om ed dk member_ids keys epoch room_id) (es_frames sc)
                      \<lparr>ee_manager = rm, ee_storage = st, ee_next_log_index = 0\<rparr>)
                    (\<lambda>s. Done (Some s))))"

definition e2e_pipeline_fuzzer ::
    "'x openmls \<Rightarrow> ed25519 \<Rightarrow> dalek \<Rightarrow> 'x \<Rightarrow> instant \<Rightarrow> e2e_scenario \<Rightarrow> unit exec" where
  "e2e_pipeline_fuzzer om ed dk env now sc =
     exec_bind (e2e_run om ed dk env now sc)
       (\<lambda>result. case result of
          None \<Rightarrow> Done ()
        | Some s \<Rightarrow>
            exec_bind (memory_load_frames (max (ucast (es_room_id sc)) 1) 0 1000 (ee_storage s))
              (\<lambda>(_, res). case res of
                 Inr frames \<Rightarrow> assert_indexed (\<lambda>i f. header_log_index (header f) = of_nat i) 0 frames
               | Inl _ \<Rightarrow> Done ()))"

section \<open>The storage failure target\<close>

datatype chaos_operation =
    CO_SendValidFrame u8
  | CO_SendCorruptedFrame u8
  | CO_QueryLatestIndex
  | CO_LoadFrames u8 u8
  | CO_RoundTripMlsState

record chaos_scenario =
  csc_seed :: bytes
  csc_chaos_seed :: u64
  csc_failure_rate_tenth :: u8
  csc_room_id :: u8
  csc_member_count :: u8
  csc_operations :: "(instant \<times> chaos_operation) list"

text \<open>\<^verbatim>\<open>(k % 10) as f64 / 10.0\<close>: the double nearest to each tenth, exactly.\<close>

definition tenth_f64 :: "nat \<Rightarrow> rat" where
  "tenth_f64 k =
     [0, 3602879701896397 / 36028797018963968, 3602879701896397 / 18014398509481984,
      5404319552844595 / 18014398509481984, 3602879701896397 / 9007199254740992, 1 / 2,
      5404319552844595 / 9007199254740992, 3152519739159347 / 4503599627370496,
      3602879701896397 / 4503599627370496, 8106479329266893 / 9007199254740992] ! k"

type_synonym chaotic_memory = "memory_storage chaotic_storage"

abbreviation chaos_memory_ops :: "chaotic_memory storage_ops" where
  "chaos_memory_ops \<equiv> chaotic_ops memory_ops"

record 'x chaos_state =
  ch_manager :: "'x room_manager"
  ch_storage :: chaotic_memory
  ch_successful_frames :: u64
  ch_current_epoch :: u64

fun persist_actions :: "u128 \<Rightarrow> room_action list \<Rightarrow> 'x chaos_state \<Rightarrow> 'x chaos_state" where
  "persist_actions room_id [] s = s"
| "persist_actions room_id (PersistFrame r log_index f t # acts) s =
     (case so_store_frame chaos_memory_ops room_id log_index f (ch_storage s) of
        (st, Inr _) \<Rightarrow>
          persist_actions room_id acts
            (s\<lparr>ch_storage := st, ch_successful_frames := ch_successful_frames s + 1\<rparr>)
      | (st, Inl _) \<Rightarrow> persist_actions room_id acts (s\<lparr>ch_storage := st\<rparr>))"
| "persist_actions room_id (a # acts) s = persist_actions room_id acts s"

definition chaos_send_valid ::
    "'x openmls \<Rightarrow> ed25519 \<Rightarrow> dalek \<Rightarrow> u128 \<Rightarrow> u64 list \<Rightarrow> (u64 \<rightharpoonup> bytes) \<Rightarrow> instant \<Rightarrow> u8 \<Rightarrow>
       'x chaos_state \<Rightarrow> 'x chaos_state exec" where
  "chaos_send_valid om ed dk room_id members keys now m s =
     with_member members keys m (\<lambda>sender_id key.
       let f = fuzz_signed_frame dk key sender_id (ch_current_epoch s) room_id Op_AppMessage;
           (rm, st, res) = rm_process_frame om ed chaos_memory_ops now f (ch_manager s) (ch_storage s);
           s1 = s\<lparr>ch_manager := rm, ch_storage := st\<rparr>
       in case res of
            Inr actions \<Rightarrow> Done (persist_actions room_id actions s1)
          | Inl _ \<Rightarrow> Done s1)"

definition chaos_send_corrupted ::
    "'x openmls \<Rightarrow> ed25519 \<Rightarrow> dalek \<Rightarrow> u128 \<Rightarrow> u64 list \<Rightarrow> (u64 \<rightharpoonup> bytes) \<Rightarrow> instant \<Rightarrow> u8 \<Rightarrow>
       'x chaos_state \<Rightarrow> 'x chaos_state exec" where
  "chaos_send_corrupted om ed dk room_id members keys now m s =
     with_member members keys m (\<lambda>sender_id key.
       let f = fuzz_signed_frame dk key sender_id (ch_current_epoch s) room_id Op_AppMessage;
           sig = header_signature (header f);
           f = f\<lparr>header := set_signature (sig[0 := sig ! 0 XOR 0xFF]) (header f)\<rparr>;
           (rm, st, res) = rm_process_frame om ed chaos_memory_ops now f (ch_manager s) (ch_storage s)
       in Done (s\<lparr>ch_manager := rm, ch_storage := st\<rparr>))"

fun chaos_step ::
    "'x openmls \<Rightarrow> ed25519 \<Rightarrow> dalek \<Rightarrow> u128 \<Rightarrow> u64 list \<Rightarrow> (u64 \<rightharpoonup> bytes) \<Rightarrow> instant \<times> chaos_operation \<Rightarrow>
       'x chaos_state \<Rightarrow> 'x chaos_state exec" where
  "chaos_step om ed dk room_id members keys (now, CO_SendValidFrame m) s =
     chaos_send_valid om ed dk room_id members keys now m s"
| "chaos_step om ed dk room_id members keys (now, CO_SendCorruptedFrame m) s =
     chaos_send_corrupted om ed dk room_id members keys now m s"
| "chaos_step om ed dk room_id members keys (now, CO_QueryLatestIndex) s =
     Done (s\<lparr>ch_storage := fst (so_latest_log_index chaos_memory_ops room_id (ch_storage s))\<rparr>)"
| "chaos_step om ed dk room_id members keys (now, CO_LoadFrames start limit) s =
     exec_bind (so_load_frames chaos_memory_ops room_id (ucast start) (max (unat limit) 1) (ch_storage s))
       (\<lambda>(st, _). Done (s\<lparr>ch_storage := st\<rparr>))"
| "chaos_step om ed dk room_id members keys (now, CO_RoundTripMlsState) s =
     (case so_load_mls_state chaos_memory_ops room_id (ch_storage s) of
        (st, Inr (Some state)) \<Rightarrow>
          Done (s\<lparr>ch_current_epoch := mgs_epoch state,
                  ch_storage := fst (so_store_mls_state chaos_memory_ops room_id state st)\<rparr>)
      | (st, _) \<Rightarrow> Done (s\<lparr>ch_storage := st\<rparr>))"

definition verify_final_invariants :: "u128 \<Rightarrow> chaotic_memory \<Rightarrow> unit exec" where
  "verify_final_invariants room_id st =
     (case so_latest_log_index chaos_memory_ops room_id st of
        (st1, Inr (Some latest)) \<Rightarrow>
          exec_bind (so_load_frames chaos_memory_ops room_id 0 (unat (latest + 1)) st1)
            (\<lambda>(_, res). case res of
               Inr frames \<Rightarrow> assert_indexed (\<lambda>i f. header_log_index (header f) = of_nat i) 0 frames
             | Inl _ \<Rightarrow> Done ())
      | _ \<Rightarrow> Done ())"

definition chaos_run ::
    "'x openmls \<Rightarrow> ed25519 \<Rightarrow> dalek \<Rightarrow> 'x \<Rightarrow> instant \<Rightarrow> chaos_scenario \<Rightarrow> 'x chaos_state option exec" where
  "chaos_run om ed dk env now sc =
     (let rate = tenth_f64 (unat (csc_failure_rate_tenth sc mod 10));
          room_id = saturating_add (ucast (csc_room_id sc)) 1 :: u128;
          member_ids = fuzz_member_ids (unat (csc_member_count sc mod 5 + 1));
          keys = fuzz_member_keys (csc_seed sc) member_ids
      in exec_bind (chaotic_with_seed memory_new rate (csc_chaos_seed sc))
        (\<lambda>storage.
           case rm_create_room om env now room_id (member_ids ! 0) room_manager_new of
             (_, Inl _) \<Rightarrow> Done None
           | (rm, Inr _) \<Rightarrow>
               (case so_store_mls_state chaos_memory_ops room_id
                       (with_keys room_id 0 (replicate 32 0) member_ids
                         (fuzz_verifying_keys dk (csc_seed sc) member_ids) []) storage of
                  (_, Inl _) \<Rightarrow> Done None
                | (st, Inr _) \<Rightarrow>
                    exec_bind (exec_fold (chaos_step om ed dk room_id member_ids keys) (csc_operations sc)
                        \<lparr>ch_manager = rm, ch_storage = st, ch_successful_frames = 0, ch_current_epoch = 0\<rparr>)
                      (\<lambda>s. Done (Some s)))))"

definition storage_chaos_fuzzer ::
    "'x openmls \<Rightarrow> ed25519 \<Rightarrow> dalek \<Rightarrow> 'x \<Rightarrow> instant \<Rightarrow> chaos_scenario \<Rightarrow> unit exec" where
  "storage_chaos_fuzzer om ed dk env now sc =
     exec_bind (chaos_run om ed dk env now sc)
       (\<lambda>result. case result of
          None \<Rightarrow> Done ()
        | Some s \<Rightarrow> verify_final_invariants (saturating_add (ucast (csc_room_id sc)) 1) (ch_storage s))"

section \<open>Members\<close>

lemma map_of_enumerated_members: "m \<in> set ms \<Longrightarrow> map_of (map (\<lambda>(i, m). (m, g i)) (List.enumerate k ms)) m \<noteq> None"
proof (induction ms arbitrary: k)
  case (Cons a ms)
  then show ?case by (cases "m = a") simp_all
qed simp

lemma member_keys_total: "m \<in> set ms \<Longrightarrow> fuzz_member_keys seed ms m \<noteq> None"
  unfolding fuzz_member_keys_def by (rule map_of_enumerated_members)

lemma member_ids_nonempty: "0 < n \<Longrightarrow> fuzz_member_ids n \<noteq> []"
  by (simp add: fuzz_member_ids_def)

lemma mod5_members: "fuzz_member_ids (unat ((w :: u8) mod 5 + 1)) \<noteq> []"
proof (rule member_ids_nonempty)
  have "unat (w mod 5) < 5" using word_mod_less_divisor [of 5 w] by (simp add: word_less_nat_alt)
  then have "unat (w mod 5 + 1) = unat (w mod 5) + 1" by (simp add: unat_word_ariths)
  then show "0 < unat (w mod 5 + 1)" by simp
qed

lemma max10_members: "fuzz_member_ids (unat (max ((w :: u8) mod 10) 1)) \<noteq> []"
proof (rule member_ids_nonempty)
  have "unat (1 :: u8) \<le> unat (max (w mod 10) 1)" by (simp only: word_le_nat_alt [symmetric] max.cobounded2)
  then show "0 < unat (max (w mod 10) 1)" by simp
qed

lemma with_member_returns:
  assumes "members \<noteq> []" and "\<And>sid key. returns (k sid key) P"
  shows "returns (with_member members (fuzz_member_keys seed members) m k) P"
proof -
  let ?sid = "members ! (unat m mod length members)"
  have "?sid \<in> set members" using assms(1) by simp
  then obtain key where "fuzz_member_keys seed members ?sid = Some key"
    using member_keys_total by blast
  then show ?thesis using assms by (simp add: with_member_def)
qed

section \<open>The pipeline only reads the in-memory storage\<close>

lemma memory_reads:
  "fst (memory_latest_log_index r s) = s" "fst (memory_load_mls_state r s) = s"
  by (simp_all add: memory_latest_log_index_def memory_load_mls_state_def)

lemma seq_process_memory: "fst (snd (seq_process_frame memory_ops f sq s)) = s"
  by (auto simp: seq_process_frame_def init_room_def memory_latest_log_index_def Let_def
      split: sum.split option.split)

lemma rm_process_memory:
  assumes "rm_process_frame om ed memory_ops now f rm s = (rm', s', res)"
  shows "s' = s"
  using assms
proof (cases rule: rm_process_stages)
  case early
  then show ?thesis by (auto simp: memory_load_mls_state_def)
next
  case (sequenced s1 y sres)
  moreover have "s1 = s" using sequenced(1) by (simp add: memory_load_mls_state_def)
  ultimately show ?thesis using seq_process_memory [of f "rm_sequencer rm" s1] by simp
qed

text \<open>No frame is ever stored while the room manager target runs.\<close>

definition nothing_stored :: "nat \<Rightarrow> 'x room_fuzz_state \<Rightarrow> bool" where
  "nothing_stored n s \<longleftrightarrow> mem_frames (rf_storage s) = Map.empty"

lemma attack_frame_returns:
  assumes "members \<noteq> []"
  shows "returns (create_frame_from_attack dk attack room_id epoch members (fuzz_member_keys seed members)) (\<lambda>_. True)"
  by (cases attack) (simp_all add: with_member_returns assms)

lemma room_fuzz_step_returns:
  assumes "members \<noteq> []" and "nothing_stored (Suc n) s"
  shows "returns (room_fuzz_step om ed dk room_id members (fuzz_member_keys seed members) input s) (nothing_stored n)"
proof -
  obtain now attack where input: "input = (now, attack)" by fastforce
  obtain f where f: "create_frame_from_attack dk attack room_id (rf_current_epoch s) members
      (fuzz_member_keys seed members) = Done f"
    using attack_frame_returns [OF assms(1)] by (rule returnsE)
  obtain rm st res where run: "rm_process_frame om ed memory_ops now f (rf_manager s) (rf_storage s) = (rm, st, res)"
    by (metis prod.collapse)
  have st: "st = rf_storage s" "mem_frames st = Map.empty"
    using rm_process_memory [OF run] assms(2) by (simp_all add: nothing_stored_def)
  have "snd (memory_latest_log_index room_id st) = Inr None"
    by (simp add: memory_latest_log_index_def st(2))
  then show ?thesis
    using st by (cases res) (simp_all add: room_fuzz_step_def input f run nothing_stored_def Let_def split_beta)
qed

interpretation room_fuzz: asserting_loop
  "room_fuzz_step om ed dk room_id (fuzz_member_ids (Suc k)) (fuzz_member_keys seed (fuzz_member_ids (Suc k)))"
  nothing_stored
  for om :: "'x openmls" and ed dk room_id seed k
  by unfold_locales (rule room_fuzz_step_returns, rule member_ids_nonempty, simp_all)

lemma positive_count: "fuzz_member_ids n \<noteq> [] \<Longrightarrow> \<exists>k. n = Suc k"
  by (cases n) (simp_all add: fuzz_member_ids_def)

lemma room_manager_run_stores_nothing:
  "returns (room_manager_fuzz_run om ed dk env now sc)
     (\<lambda>result. case result of None \<Rightarrow> True | Some s \<Rightarrow> mem_frames (rf_storage s) = Map.empty)"
proof -
  obtain k where k: "unat (rsc_member_count sc mod 5 + 1) = Suc k"
    using positive_count [OF mod5_members] by blast
  have "returns (exec_fold (room_fuzz_step om ed dk room_id (fuzz_member_ids (Suc k))
      (fuzz_member_keys seed (fuzz_member_ids (Suc k)))) fs
      \<lparr>rf_manager = rm, rf_storage = memory_new\<lparr>mem_mls_states := m\<rparr>, rf_expected_log_index = 0,
       rf_current_epoch = 0, rf_frames_accepted = 0\<rparr>) (nothing_stored 0)" for room_id seed fs rm m
    by (rule room_fuzz.loop_returns_0) (simp add: nothing_stored_def memory_new_def)
  then show ?thesis
    by (simp add: room_manager_fuzz_run_def k Let_def memory_store_mls_state_def returns_bind_iff
        nothing_stored_def [abs_def] split: prod.split sum.split)
qed

lemma e2e_frame_returns:
  assumes "members \<noteq> []"
  shows "returns (e2e_frame dk members keys epoch room_id fi) (\<lambda>_. True)"
  by (cases fi) (simp_all add: assms create_attack_frame_def Let_def split: option.split attack_type.split)

lemma e2e_step_returns:
  assumes "members \<noteq> []" and "mem_frames (ee_storage s) = Map.empty"
  shows "returns (e2e_step om ed dk members keys epoch room_id input s) (\<lambda>s. mem_frames (ee_storage s) = Map.empty)"
proof -
  obtain now fi where input: "input = (now, fi)" by fastforce
  obtain fo where fo: "e2e_frame dk members keys epoch room_id fi = Done fo"
    using e2e_frame_returns [OF assms(1)] by (rule returnsE)
  show ?thesis
  proof (cases fo)
    case None
    then show ?thesis using assms(2) by (simp add: e2e_step_def input fo)
  next
    case (Some f)
    obtain rm st res where run: "rm_process_frame om ed memory_ops now f (ee_manager s) (ee_storage s) = (rm, st, res)"
      by (metis prod.collapse)
    then show ?thesis
      using rm_process_memory [OF run] assms(2)
      by (cases res) (simp_all add: e2e_step_def input fo Some)
  qed
qed

interpretation e2e_fuzz: asserting_loop
  "e2e_step om ed dk (fuzz_member_ids (Suc k)) keys epoch room_id" "\<lambda>_ s. mem_frames (ee_storage s) = Map.empty"
  for om :: "'x openmls" and ed dk k keys epoch room_id
  by unfold_locales (rule e2e_step_returns, rule member_ids_nonempty, simp_all)

lemma e2e_run_stores_nothing:
  "returns (e2e_run om ed dk env now sc)
     (\<lambda>result. case result of None \<Rightarrow> True | Some s \<Rightarrow> mem_frames (ee_storage s) = Map.empty)"
proof -
  obtain k where k: "unat (max (es_member_count sc mod 10) 1) = Suc k"
    using positive_count [OF max10_members] by blast
  have "returns (exec_fold (e2e_step om ed dk (fuzz_member_ids (Suc k)) keys epoch room_id) fs
      \<lparr>ee_manager = rm, ee_storage = memory_new\<lparr>mem_mls_states := m\<rparr>, ee_next_log_index = 0\<rparr>)
      (\<lambda>s. mem_frames (ee_storage s) = Map.empty)" for keys epoch room_id fs rm m
    by (rule e2e_fuzz.loop_returns_0) (simp add: memory_new_def)
  then show ?thesis
    by (simp add: e2e_run_def k Let_def memory_store_mls_state_def returns_bind_iff split: prod.split sum.split)
qed

section \<open>The storage that fails\<close>

abbreviation chaos_log :: "'x chaos_state \<Rightarrow> u128 \<Rightarrow> frame list" where
  "chaos_log s \<equiv> mem_log (chaos_inner (ch_storage s))"

text \<open>What the room manager asks to persist carries its own index.\<close>

definition indexed_actions :: "room_action list \<Rightarrow> bool" where
  "indexed_actions acts \<longleftrightarrow> (\<forall>r i g t. PersistFrame r i g t \<in> set acts \<longrightarrow> header_log_index (header g) = i)"

lemma persist_keeps_positions:
  assumes "indexed_actions acts" and "\<forall>r. positions_right (chaos_log s r)"
  shows "positions_right (chaos_log (persist_actions room_id acts s) r)"
  using assms
proof (induction room_id acts s rule: persist_actions.induct)
  case (2 room_id q i f t acts s)
  have acts: "indexed_actions acts" "header_log_index (header f) = i"
    using 2(3) by (auto simp: indexed_actions_def)
  obtain st res where store: "so_store_frame chaos_memory_ops room_id i f (ch_storage s) = (st, res)"
    by fastforce
  show ?case
  proof (cases res)
    case (Inl e)
    then have "mem_log (chaos_inner st) = chaos_log s" using chaos.store_frame_err store by blast
    with 2(1) [OF store [symmetric] Inl acts(1)] 2(4) store Inl show ?thesis by simp
  next
    case (Inr u)
    then have "i = of_nat (length (chaos_log s room_id))"
      "mem_log (chaos_inner st) = (chaos_log s)(room_id := chaos_log s room_id @ [f])"
      using chaos.store_frame_ok store by blast+
    then have "\<forall>r. positions_right (mem_log (chaos_inner st) r)"
      using 2(4) acts(2) by (simp add: positions_right_snoc)
    with 2(2) [OF store [symmetric] Inr acts(1)] store Inr show ?thesis by simp
  qed
qed (simp_all add: indexed_actions_def)

lemma chaos_load_returns:
  assumes "unat start + limit < 2 ^ 64"
  shows "returns (so_load_frames chaos_memory_ops r start limit c) (\<lambda>(c', _). mem_log (chaos_inner c') = mem_log (chaos_inner c))"
proof -
  have "memory_load_frames r start limit (chaos_inner c) \<noteq> Panic"
  proof (cases "mem_frames (chaos_inner c) r")
    case (Some fs)
    with assms show ?thesis by (simp add: memory_load_eq)
  qed (simp add: memory_load_frames_def)
  then obtain st y where inner: "memory_load_frames r start limit (chaos_inner c) = Done (st, y)"
    by (cases "memory_load_frames r start limit (chaos_inner c)") auto
  obtain c1 fl where enter: "chaos_enter c = (c1, fl)" by fastforce
  then have "chaos_inner c1 = chaos_inner c" by (auto simp: chaos_enter_def Let_def split_beta)
  then obtain c' res where load: "so_load_frames chaos_memory_ops r start limit c = Done (c', res)"
    using enter inner by (cases fl) (simp_all add: chaotic_ops_def)
  then show ?thesis using chaos.load_keeps [OF load] by simp
qed

lemma ucast_byte_small: "unat (ucast (b :: u8) :: u64) < 256"
  using byte_bound [of b] by (simp add: unsigned_ucast_eq take_bit_nat_eq_self)

text \<open>
  The effect of one operation: besides frames the room manager asked to persist, nothing changes the logs
  or moves the sequencer back.
\<close>

definition chaos_positions :: "nat \<Rightarrow> 'x chaos_state \<Rightarrow> bool" where
  "chaos_positions n s \<longleftrightarrow> (\<forall>r. positions_right (chaos_log s r))"

lemma chaos_round_trip_log:
  "returns (chaos_step om ed dk room_id members keys (now, CO_RoundTripMlsState) s)
     (\<lambda>s'. chaos_log s' = chaos_log s \<and> ch_manager s' = ch_manager s)"
proof -
  obtain st res where load: "so_load_mls_state chaos_memory_ops room_id (ch_storage s) = (st, res)" by fastforce
  have same: "mem_log (chaos_inner st) = chaos_log s" using chaos.load_mls_keeps [OF load] by simp
  have "mem_log (chaos_inner (fst (so_store_mls_state chaos_memory_ops room_id state st))) = mem_log (chaos_inner st)" for state
  proof -
    obtain st' y where store: "so_store_mls_state chaos_memory_ops room_id state st = (st', y)" by fastforce
    then show ?thesis using chaos.store_mls_ok chaos.store_mls_err by (cases y) fastforce+
  qed
  with same load show ?thesis by (auto split: sum.split option.split)
qed

text \<open>
  A room is frozen when the sequencer is past the end of its log: every index it hands out from then
  on is refused by the storage.
\<close>

definition frozen_at :: "u128 \<Rightarrow> frame list \<Rightarrow> nat \<Rightarrow> 'x chaos_state \<Rightarrow> bool" where
  "frozen_at room_id lg n s \<longleftrightarrow> chaos_log s room_id = lg \<and>
     (\<exists>room. seq_rooms (rm_sequencer (ch_manager s)) room_id = Some room \<and> length lg < unat (next_log_index room))"

lemma persist_refused:
  assumes "\<forall>r i g t. PersistFrame r i g t \<in> set acts \<longrightarrow> length (chaos_log s room_id) < unat i"
  shows "chaos_log (persist_actions room_id acts s) room_id = chaos_log s room_id"
  using assms
proof (induction room_id acts s rule: persist_actions.induct)
  case (2 room_id q i f t acts s)
  obtain st res where store: "so_store_frame chaos_memory_ops room_id i f (ch_storage s) = (st, res)"
    by fastforce
  show ?case
  proof (cases res)
    case (Inl e)
    then have "mem_log (chaos_inner st) = chaos_log s" using chaos.store_frame_err store by blast
    moreover from this have "chaos_log (persist_actions room_id acts (s\<lparr>ch_storage := st\<rparr>)) room_id
        = chaos_log (s\<lparr>ch_storage := st\<rparr>) room_id"
      using 2(3) by (intro 2(1) [OF store [symmetric] Inl]) auto
    ultimately show ?thesis using store Inl by simp
  next
    case (Inr u)
    then have "i = of_nat (length (chaos_log s room_id))" using chaos.store_frame_ok store by blast
    then have "unat i \<le> length (chaos_log s room_id)" by (simp add: unat_of_nat)
    then show ?thesis using 2(3) by fastforce
  qed
qed simp_all

lemma persist_manager [simp]: "ch_manager (persist_actions room_id acts s) = ch_manager s"
  by (induction room_id acts s rule: persist_actions.induct) (simp_all split: prod.split sum.split)

lemma persisted_room:
  assumes "rm_process_frame om ed ops now f rm s = (rm', s', Inr acts)" and "PersistFrame r i g t \<in> set acts"
  shows "r = header_room_id (header f)"
  using assms(1)
proof (rule rm_process_InrD)
  fix sq s1 sqacts
  assume seq: "seq_process_frame ops f (rm_sequencer rm) s1 = (sq, s', Inr sqacts)"
    and "opcode_enum (header f) \<noteq> Some Op_Commit \<Longrightarrow> acts = map (room_action_of now) sqacts"
    and "opcode_enum (header f) = Some Op_Commit \<Longrightarrow>
      \<exists>st. acts = map (room_action_of now) sqacts @ [PersistMlsState (header_room_id (header f)) st now]"
  then obtain a where a: "a \<in> set sqacts" "room_action_of now a = PersistFrame r i g t"
    using assms(2) by fastforce
  then have "AcceptFrame r i g \<in> set sqacts \<or> StoreFrame r i g \<in> set sqacts"
    using room_action_of_persist by fastforce
  then show ?thesis
    using seq_process_Inr(2,3) [OF seq] by (cases "opcode_enum (header f) = Some Op_Welcome") fastforce+
qed

text \<open>Processing a frame, and carrying out what the room manager asks for, keeps both invariants.\<close>

lemma process_keeps:
  assumes "rm_process_frame om ed chaos_memory_ops now f (ch_manager s) (ch_storage s) = (rm, st, res)"
  shows "chaos_positions n s \<Longrightarrow> chaos_positions m (s\<lparr>ch_manager := rm, ch_storage := st\<rparr>)"
    and "frozen_at r lg n s \<Longrightarrow> frozen_at r lg m (s\<lparr>ch_manager := rm, ch_storage := st\<rparr>)"
proof -
  note eff = chaos.rm_process_effect [OF assms]
  show "chaos_positions n s \<Longrightarrow> chaos_positions m (s\<lparr>ch_manager := rm, ch_storage := st\<rparr>)"
    using eff by (simp add: chaos_positions_def)
  assume frozen: "frozen_at r lg n s"
  then obtain room where "seq_rooms (rm_sequencer (ch_manager s)) r = Some room" "length lg < unat (next_log_index room)"
    by (auto simp: frozen_at_def)
  moreover from eff this(1) obtain room' where "seq_rooms (rm_sequencer rm) r = Some room'"
      "next_log_index room \<le> next_log_index room'" by blast
  ultimately show "frozen_at r lg m (s\<lparr>ch_manager := rm, ch_storage := st\<rparr>)"
    using eff frozen by (auto simp: frozen_at_def word_le_nat_alt)
qed

lemma persist_keeps:
  assumes "rm_process_frame om ed chaos_memory_ops now f (ch_manager s) (ch_storage s) = (rm, st, Inr acts)"
    and "header_room_id (header f) = room_id"
  shows "chaos_positions n s \<Longrightarrow>
      chaos_positions m (persist_actions room_id acts (s\<lparr>ch_manager := rm, ch_storage := st\<rparr>))"
    and "frozen_at room_id lg n s \<Longrightarrow>
      frozen_at room_id lg m (persist_actions room_id acts (s\<lparr>ch_manager := rm, ch_storage := st\<rparr>))"
proof -
  let ?s = "s\<lparr>ch_manager := rm, ch_storage := st\<rparr>"
  note eff = chaos.rm_process_effect [OF assms(1)]
  have "indexed_actions acts" using eff by (auto simp: indexed_actions_def)
  from persist_keeps_positions [OF this, of ?s]
  show "chaos_positions n s \<Longrightarrow> chaos_positions m (persist_actions room_id acts ?s)"
    using process_keeps(1) [OF assms(1), of n m] by (simp add: chaos_positions_def)
  assume frozen: "frozen_at room_id lg n s"
  then obtain room where room: "seq_rooms (rm_sequencer (ch_manager s)) room_id = Some room"
      "length lg < unat (next_log_index room)"
    by (auto simp: frozen_at_def)
  have now: "frozen_at room_id lg m ?s" by (rule process_keeps(2) [OF assms(1) frozen])
  have index: "i = next_log_index room" if p: "PersistFrame r i g t \<in> set acts" for r i g t
  proof -
    have "r = room_id" using persisted_room [OF assms(1) p] assms(2) by simp
    with eff p room(1) show ?thesis by blast
  qed
  have "chaos_log (persist_actions room_id acts ?s) room_id = chaos_log ?s room_id"
  proof (rule persist_refused, intro allI impI)
    fix r i g t
    assume "PersistFrame r i g t \<in> set acts"
    from index [OF this] show "length (chaos_log ?s room_id) < unat i"
      using room(2) now by (simp add: frozen_at_def)
  qed
  with now show "frozen_at room_id lg m (persist_actions room_id acts ?s)"
    by (simp add: frozen_at_def)
qed

lemma signed_frame_room [simp]: "header_room_id (header (fuzz_signed_frame dk key sid e r op)) = r"
  by (simp add: fuzz_signed_frame_def Let_def)

lemma send_valid_keeps:
  assumes "members \<noteq> []"
    and "P = (chaos_positions :: nat \<Rightarrow> 'x chaos_state \<Rightarrow> bool) \<or> P = frozen_at room_id lg" and "P (Suc n) s"
  shows "returns (chaos_send_valid om ed dk room_id members (fuzz_member_keys seed members) now m s) (P n)"
  unfolding chaos_send_valid_def
proof (rule with_member_returns [OF assms(1)])
  fix sid key
  let ?f = "fuzz_signed_frame dk key sid (ch_current_epoch s) room_id Op_AppMessage"
  obtain rm st res where run: "rm_process_frame om ed chaos_memory_ops now ?f (ch_manager s) (ch_storage s) = (rm, st, res)"
    by (metis prod.collapse)
  show "returns (let f = ?f; (rm, st, res) = rm_process_frame om ed chaos_memory_ops now f (ch_manager s) (ch_storage s);
      s1 = s\<lparr>ch_manager := rm, ch_storage := st\<rparr>
      in case res of Inr actions \<Rightarrow> Done (persist_actions room_id actions s1) | Inl _ \<Rightarrow> Done s1) (P n)"
  proof (cases res)
    case (Inl e)
    then show ?thesis using assms(2,3) process_keeps(1) [OF run, of "Suc n" n]
        process_keeps(2) [OF run, of _ _ "Suc n" n] by (auto simp: run Let_def)
  next
    case (Inr acts)
    note run' = run [unfolded Inr]
    show ?thesis
      using assms(2,3) persist_keeps(1) [OF run' signed_frame_room, of "Suc n" n]
        persist_keeps(2) [OF run' signed_frame_room, of _ "Suc n" n] by (auto simp: run' Let_def)
  qed
qed

lemma send_corrupted_keeps:
  assumes "members \<noteq> []"
    and "P = (chaos_positions :: nat \<Rightarrow> 'x chaos_state \<Rightarrow> bool) \<or> P = frozen_at room_id lg" and "P (Suc n) s"
  shows "returns (chaos_send_corrupted om ed dk room_id members (fuzz_member_keys seed members) now m s) (P n)"
  unfolding chaos_send_corrupted_def
proof (rule with_member_returns [OF assms(1)])
  fix sid key
  have "P n (s\<lparr>ch_manager := rm, ch_storage := st\<rparr>)"
    if "rm_process_frame om ed chaos_memory_ops now f (ch_manager s) (ch_storage s) = (rm, st, res)" for f rm st res
    using process_keeps(1) [OF that, of "Suc n" n] process_keeps(2) [OF that, of _ _ "Suc n" n] assms(2,3) by auto
  then show "returns (let f = fuzz_signed_frame dk key sid (ch_current_epoch s) room_id Op_AppMessage;
           sig = header_signature (header f);
           f = f\<lparr>header := set_signature (sig[0 := sig ! 0 XOR 0xFF]) (header f)\<rparr>;
           (rm, st, res) = rm_process_frame om ed chaos_memory_ops now f (ch_manager s) (ch_storage s)
       in Done (s\<lparr>ch_manager := rm, ch_storage := st\<rparr>)) (P n)"
    by (simp add: Let_def split: prod.split)
qed

lemma quiet_keeps:
  assumes "P = (chaos_positions :: nat \<Rightarrow> 'x chaos_state \<Rightarrow> bool) \<or> P = frozen_at room_id lg" and "P (Suc n) s"
    and "chaos_log s' = chaos_log s" and "ch_manager s' = ch_manager s"
  shows "P n s'"
  using assms by (auto simp: chaos_positions_def frozen_at_def)

lemma chaos_step_keeps:
  assumes "members \<noteq> []"
    and "P = (chaos_positions :: nat \<Rightarrow> 'x chaos_state \<Rightarrow> bool) \<or> P = frozen_at room_id lg" and "P (Suc n) s"
  shows "returns (chaos_step om ed dk room_id members (fuzz_member_keys seed members) (now, op) s) (P n)"
proof (cases op)
  case CO_QueryLatestIndex
  obtain st y where "so_latest_log_index chaos_memory_ops room_id (ch_storage s) = (st, y)" by fastforce
  with CO_QueryLatestIndex show ?thesis
    using chaos.latest_keeps by (fastforce intro: quiet_keeps [OF assms(2,3)])
next
  case (CO_LoadFrames start limit)
  have "unat (ucast start :: u64) + max (unat limit) 1 < 2 ^ 64"
    using ucast_byte_small [of start] byte_bound [of limit] by simp
  from chaos_load_returns [OF this, of room_id "ch_storage s"] show ?thesis
    unfolding CO_LoadFrames chaos_step.simps
    by (rule returns_bind) (auto intro!: quiet_keeps [OF assms(2,3)])
next
  case CO_RoundTripMlsState
  show ?thesis
    unfolding CO_RoundTripMlsState
    by (rule returns_conseq [OF chaos_round_trip_log]) (auto intro!: quiet_keeps [OF assms(2,3)])
qed (simp_all add: send_valid_keeps [OF assms] send_corrupted_keeps [OF assms])

interpretation chaos_sound: asserting_loop
  "chaos_step om ed dk room_id (fuzz_member_ids (Suc k)) (fuzz_member_keys seed (fuzz_member_ids (Suc k)))"
  chaos_positions
  for om :: "'x openmls" and ed dk room_id seed k
proof
  fix n and s :: "'x chaos_state" and x :: "instant \<times> chaos_operation"
  assume "chaos_positions (Suc n) s"
  then show "returns (chaos_step om ed dk room_id (fuzz_member_ids (Suc k))
      (fuzz_member_keys seed (fuzz_member_ids (Suc k))) x s) (chaos_positions n)"
    by (cases x) (simp only:, rule chaos_step_keeps, rule member_ids_nonempty, simp_all)
qed

interpretation chaos_frozen: asserting_loop
  "chaos_step om ed dk room_id (fuzz_member_ids (Suc k)) (fuzz_member_keys seed (fuzz_member_ids (Suc k)))"
  "frozen_at room_id lg"
  for om :: "'x openmls" and ed dk room_id seed k lg
proof
  fix n and s :: "'x chaos_state" and x :: "instant \<times> chaos_operation"
  assume "frozen_at room_id lg (Suc n) s"
  then show "returns (chaos_step om ed dk room_id (fuzz_member_ids (Suc k))
      (fuzz_member_keys seed (fuzz_member_ids (Suc k))) x s) (frozen_at room_id lg n)"
    by (cases x) (simp only:, rule chaos_step_keeps [where lg = lg], rule member_ids_nonempty, simp_all)
qed

lemma tenth_f64_bounds: "k < 10 \<Longrightarrow> 0 \<le> tenth_f64 k \<and> tenth_f64 k \<le> 1"
  by (auto simp: tenth_f64_def less_Suc_eq numeral_eq_Suc)

lemma verify_final_positions:
  assumes "\<forall>r. positions_right (mem_log (chaos_inner st) r)"
  shows "verify_final_invariants room_id st = Done ()"
proof -
  obtain st1 res where latest: "so_latest_log_index chaos_memory_ops room_id st = (st1, res)" by fastforce
  have log1: "mem_log (chaos_inner st1) = mem_log (chaos_inner st)" using chaos.latest_keeps [OF latest] by simp
  show ?thesis
  proof (cases "\<exists>i. res = Inr (Some i)")
    case True
    then obtain i where i: "res = Inr (Some i)" by blast
    have small: "unat (0 :: u64) + unat (i + 1) < 2 ^ 64" using unat_u64_bound [of "i + 1"] by simp
    obtain st2 y where load: "so_load_frames chaos_memory_ops room_id 0 (unat (i + 1)) st1 = Done (st2, y)"
      using chaos_load_returns [OF small, of room_id st1] by (auto elim: returnsE)
    have "assert_indexed (\<lambda>j f. header_log_index (header f) = of_nat j) 0 fs = Done ()" if "y = Inr fs" for fs
    proof -
      have "fs = take (unat (i + 1)) (mem_log (chaos_inner st) room_id)"
        using chaos.load_ok [OF load [unfolded that]] small log1 by simp
      then show ?thesis using assms by (simp add: assert_indexed_Done positions_right_def)
    qed
    then show ?thesis by (cases y) (simp_all add: verify_final_invariants_def latest i load)
  qed (auto simp: verify_final_invariants_def latest split: sum.split option.split)
qed

text \<open>An index that was handed out is behind the room's counter.\<close>

lemma seq_process_counter:
  assumes "seq_process_frame ops f sq s = (sq', s', Inr acts)"
    and "AcceptFrame r i g \<in> set acts \<or> StoreFrame r i g \<in> set acts"
  shows "\<exists>room. seq_rooms sq' r = Some room \<and> unat (next_log_index room) = unat i + 1"
proof -
  have "validate_frame_structure f = Inr ()" "opcode_enum (header f) \<noteq> Some Op_Welcome"
    using seq_process_Inr [OF assms(1)] assms(2) by auto
  moreover obtain sq1 s1 y where "init_room ops (header_room_id (header f)) sq s = (sq1, s1, y)"
    by (metis prod.collapse)
  ultimately show ?thesis
    using assms checked_add_Some_unat [of "next_log_index (the (seq_rooms sq1 (header_room_id (header f))))" 1]
    by (auto simp: seq_process_frame_def Let_def split: sum.splits option.splits)
qed

lemma rm_process_counter:
  assumes "rm_process_frame om ed ops now f rm s = (rm', s', Inr acts)" and "PersistFrame r i g t \<in> set acts"
  shows "\<exists>room. seq_rooms (rm_sequencer rm') r = Some room \<and> unat (next_log_index room) = unat i + 1"
  using assms(1)
proof (cases rule: rm_process_stages)
  case (sequenced s1 y sres)
  then obtain sqacts rest where acts: "sres = Inr sqacts" "acts = map (room_action_of now) sqacts @ rest"
      "\<forall>a\<in>set rest. \<exists>r st t. a = PersistMlsState r st t" by blast
  then obtain a where "a \<in> set sqacts" "room_action_of now a = PersistFrame r i g t"
    using assms(2) by fastforce
  then have "AcceptFrame r i g \<in> set sqacts \<or> StoreFrame r i g \<in> set sqacts"
    using room_action_of_persist by fastforce
  with seq_process_counter [OF sequenced(2) [unfolded acts(1)]] show ?thesis by blast
qed simp

text \<open>A frame the room manager accepts over a storage that never fails.\<close>

definition sample_calm :: chaotic_memory where
  "sample_calm = \<lparr>chaos_inner = sample_storage, failure_rate = 0, rng_state = 0, operation_count = 0\<rparr>"

abbreviation sample_app :: frame where
  "sample_app \<equiv> sample_signed (sample_member_header Op_AppMessage)"

lemma chaos_wrap_calm:
  assumes "failure_rate c = 0"
  shows "\<exists>c'. chaos_wrap operation c = (c', snd (operation (chaos_inner c))) \<and>
     chaos_inner c' = fst (operation (chaos_inner c)) \<and> failure_rate c' = 0"
  by (simp add: chaos_wrap_def chaos_enter_def assms rng_rate_0 Let_def split_beta)

lemma sample_app_accepted:
  "\<exists>rm' st'. rm_process_frame sample_openmls sample_ed25519 chaos_memory_ops 3 sample_app sample_manager sample_calm =
     (rm', st', Inr [PersistFrame 9 0 (rebuild_frame_with_index sample_app 0) 3,
                     PersistFrame 9 0 (rebuild_frame_with_index sample_app 0) 3,
                     Broadcast 9 (rebuild_frame_with_index sample_app 0) False 3])"
proof -
  let ?g = "rebuild_frame_with_index sample_app 0"
  have p: "presentable sample_openmls sample_ed25519 sample_group sample_state 9 sample_app"
    and accept: "validate_signature sample_ed25519 sample_app sample_state = Inr Accept"
    by (rule sample_signed_room; simp)+
  then have basic: "validate_frame_basic sample_openmls sample_ed25519 sample_app sample_group (Some sample_state) = Inr ()"
    and seqd: "validate_frame_structure sample_app = Inr ()" "header_room_id (header sample_app) = 9"
      "opcode_enum (header sample_app) \<noteq> Some Op_Welcome" "opcode_enum (header sample_app) \<noteq> Some Op_Commit"
    and wf: "wf_header (header sample_app)"
    by (simp_all add: presentable_def sequenced_in_def)
  obtain c1 where c1: "so_load_mls_state chaos_memory_ops 9 sample_calm = (c1, Inr (Some sample_state))"
      "chaos_inner c1 = sample_storage" "failure_rate c1 = 0"
    using chaos_wrap_calm [of sample_calm "so_load_mls_state memory_ops 9"]
    by (auto simp: chaotic_store_eqs sample_calm_def memory_load_mls_state_def)
  obtain c2 where c2: "so_latest_log_index chaos_memory_ops 9 c1 = (c2, Inr None)"
    using chaos_wrap_calm [OF c1(3), of "so_latest_log_index memory_ops 9"]
    by (auto simp: chaotic_store_eqs c1(2) memory_latest_eq latest_of_def)
  have signed: "validate_sequenced_actions_signatures sample_ed25519
      [AcceptFrame 9 0 ?g, StoreFrame 9 0 ?g, SQ_BroadcastToRoom 9 ?g] (Some sample_state) = Inr ()"
    unfolding signatures_checked_iff using accept validate_signature_rebuild [OF seqd(1) wf] by simp
  obtain sq where "seq_process_frame chaos_memory_ops sample_app sequencer_new c1 =
      (sq, c2, Inr [AcceptFrame 9 0 ?g, StoreFrame 9 0 ?g, SQ_BroadcastToRoom 9 ?g])"
    using seqd by (simp add: seq_process_frame_def init_room_def sequencer_new_def c2 checked_add_def Let_def)
  then show ?thesis
    using basic seqd signed
    by (simp add: rm_process_frame_def c1(1) Let_def del: validate_sequenced_actions_signatures.simps)
qed

section \<open>Properties\<close>

text \<open>
  C37. No input makes the storage failure target panic: whatever operations fail at whatever rate, the
  frames found in the storage at the end carry the indices 0, 1, 2 and so on, and neither reading nor
  the setup panics. This holds for every behaviour of the MLS and signature libraries.
\<close>

theorem chaos_fuzzer_never_panics:
  "storage_chaos_fuzzer om ed dk env now sc = Done ()"
proof -
  obtain k where k: "unat (csc_member_count sc mod 5 + 1) = Suc k"
    using positive_count [OF mod5_members] by blast
  have "unat (csc_failure_rate_tenth sc mod 10) < 10"
    using word_mod_less_divisor [of 10 "csc_failure_rate_tenth sc"] by (simp add: word_less_nat_alt)
  note rate = tenth_f64_bounds [OF this]
  define c where "c = \<lparr>chaos_inner = memory_new, failure_rate = tenth_f64 (unat (csc_failure_rate_tenth sc mod 10)),
    rng_state = csc_chaos_seed sc, operation_count = 0\<rparr>"
  have seeded: "chaotic_with_seed memory_new (tenth_f64 (unat (csc_failure_rate_tenth sc mod 10))) (csc_chaos_seed sc) = Done c"
    using rate by (simp add: chaotic_with_seed_def c_def)
  have "returns (exec_fold (chaos_step om ed dk room_id (fuzz_member_ids (Suc k))
      (fuzz_member_keys seed (fuzz_member_ids (Suc k)))) ops
      \<lparr>ch_manager = rm, ch_storage = st, ch_successful_frames = 0, ch_current_epoch = 0\<rparr>) (chaos_positions 0)"
    if "so_store_mls_state chaos_memory_ops r state c = (st, y)" for room_id seed ops rm st r state y
  proof (rule chaos_sound.loop_returns_0)
    have "mem_log (chaos_inner st) = mem_log memory_new"
      using that chaos.store_mls_ok chaos.store_mls_err by (cases y) (fastforce simp: c_def)+
    then show "chaos_positions (length ops)
        \<lparr>ch_manager = rm, ch_storage = st, ch_successful_frames = 0, ch_current_epoch = 0\<rparr>"
      by (simp add: chaos_positions_def memory_new_def mem_log_def)
  qed
  then have "returns (chaos_run om ed dk env now sc)
      (\<lambda>result. case result of None \<Rightarrow> True | Some s \<Rightarrow> chaos_positions 0 s)"
    by (auto simp: chaos_run_def k seeded Let_def returns_bind_iff split: prod.split sum.split)
  then obtain result where "chaos_run om ed dk env now sc = Done result"
      "case result of None \<Rightarrow> True | Some s \<Rightarrow> chaos_positions 0 s" by (rule returnsE)
  then show ?thesis
    by (cases result) (simp_all add: storage_chaos_fuzzer_def verify_final_positions chaos_positions_def)
qed




end
