(* ===== verification/Fuzz_Sender_Keys.thy ===== *)
theory Fuzz_Sender_Keys
  imports Assertions Sender_Keys
begin

text \<open>
  The fuzz target of the sender keys (\<^verbatim>\<open>fuzz/fuzz_targets/sender_key_fuzzer.rs\<close>): seed derivation, a
  run of the ratchet, and encryption with the keys it hands out. Its assertions state what the
  cryptographic libraries promise, so the theorem is relative to those promises, which are named
  below and shown to be satisfiable together.
\<close>

section \<open>Inputs\<close>

unbundle bit_operations_syntax

datatype epoch_secret_choice =
    ES_Empty | ES_Small bytes | ES_Normal bytes | ES_Large bytes | ES_Arbitrary bytes

fun epoch_secret_bytes :: "epoch_secret_choice \<Rightarrow> bytes" where
  "epoch_secret_bytes ES_Empty = []"
| "epoch_secret_bytes (ES_Small b) = b"
| "epoch_secret_bytes (ES_Normal b) = b"
| "epoch_secret_bytes (ES_Large b) = b"
| "epoch_secret_bytes (ES_Arbitrary b) = b"

datatype ratchet_operation =
    RO_Advance
  | RO_AdvanceTo u16
  | RO_Encrypt bytes
  | RO_VerifyDeterminism

record sender_key_scenario =
  sks_epoch_secret :: epoch_secret_choice
  sks_epoch :: u64
  sks_sender_index :: u32
  sks_operations :: "ratchet_operation list"
  sks_random_bytes :: bytes

section \<open>The target\<close>

record ratchet_fuzz_state =
  rfz_ratchet :: symmetric_ratchet
  rfz_last_key :: "message_key option"

definition check_advance :: "crypto \<Rightarrow> ratchet_fuzz_state \<Rightarrow> ratchet_fuzz_state exec" where
  "check_advance cr s =
     (case advance cr (rfz_ratchet s) of
        (r, Inr key) \<Rightarrow>
          assert_that (length (mkey key) = 32) (Done \<lparr>rfz_ratchet = r, rfz_last_key = Some key\<rparr>)
      | (r, Inl _) \<Rightarrow> Done (s\<lparr>rfz_ratchet := r\<rparr>))"

definition check_advance_to :: "crypto \<Rightarrow> u16 \<Rightarrow> ratchet_fuzz_state \<Rightarrow> ratchet_fuzz_state exec" where
  "check_advance_to cr target s =
     (case advance_to cr (ucast target) (rfz_ratchet s) of
        (r, Inr key) \<Rightarrow>
          assert_that (mkey_generation key = ucast target)
            (Done \<lparr>rfz_ratchet = r, rfz_last_key = Some key\<rparr>)
      | (r, Inl _) \<Rightarrow> Done (s\<lparr>rfz_ratchet := r\<rparr>))"

text \<open>\<^verbatim>\<open>decrypted.unwrap()\<close> comes after \<^verbatim>\<open>assert!(decrypted.is_ok())\<close>.\<close>

definition check_encrypt ::
    "crypto \<Rightarrow> sender_key_scenario \<Rightarrow> bytes \<Rightarrow> ratchet_fuzz_state \<Rightarrow> ratchet_fuzz_state exec" where
  "check_encrypt cr sc message s =
     (case rfz_last_key s of
        None \<Rightarrow> Done s
      | Some key \<Rightarrow>
          exec_bind (encrypt_message cr message key (sks_epoch sc) (sks_sender_index sc) (sks_random_bytes sc))
            (\<lambda>encrypted.
               assert_that (length message \<le> length (sealed_ciphertext encrypted))
                 (case decrypt_message cr encrypted key of
                    Inl _ \<Rightarrow> Panic
                  | Inr decrypted \<Rightarrow>
                      assert_that (decrypted = message)
                        (if sealed_ciphertext encrypted \<noteq> [] then
                           (let corrupted = encrypted\<lparr>sealed_ciphertext :=
                                  (sealed_ciphertext encrypted)[0 := sealed_ciphertext encrypted ! 0 XOR 0xFF]\<rparr>
                            in assert_that (isl (decrypt_message cr corrupted key)) (Done s))
                         else Done s))))"

text \<open>The loop over \<^verbatim>\<open>0..current_gen.min(10)\<close> on a second ratchet.\<close>

fun check_generations :: "crypto \<Rightarrow> nat list \<Rightarrow> symmetric_ratchet \<Rightarrow> unit exec" where
  "check_generations cr [] r = Done ()"
| "check_generations cr (expected_gen # rest) r =
     (case advance cr r of
        (r', Inr key) \<Rightarrow>
          assert_that (mkey_generation key = of_nat expected_gen) (check_generations cr rest r')
      | (r', Inl _) \<Rightarrow> check_generations cr rest r')"

definition check_determinism :: "crypto \<Rightarrow> bytes \<Rightarrow> ratchet_fuzz_state \<Rightarrow> ratchet_fuzz_state exec" where
  "check_determinism cr seed s =
     (let current_gen = ratchet_generation (rfz_ratchet s) in
      exec_bind (check_generations cr [0..<unat (min current_gen 10)] (ratchet_new seed)) (\<lambda>_. Done s))"

fun ratchet_fuzz_step ::
    "crypto \<Rightarrow> sender_key_scenario \<Rightarrow> bytes \<Rightarrow> ratchet_operation \<Rightarrow> ratchet_fuzz_state \<Rightarrow> ratchet_fuzz_state exec" where
  "ratchet_fuzz_step cr sc seed RO_Advance s = check_advance cr s"
| "ratchet_fuzz_step cr sc seed (RO_AdvanceTo target) s = check_advance_to cr target s"
| "ratchet_fuzz_step cr sc seed (RO_Encrypt message) s = check_encrypt cr sc message s"
| "ratchet_fuzz_step cr sc seed RO_VerifyDeterminism s = check_determinism cr seed s"

text \<open>A seed derived with one input changed must differ.\<close>

definition check_seed_differs :: "crypto \<Rightarrow> bytes \<Rightarrow> bytes \<Rightarrow> u64 \<Rightarrow> u32 \<Rightarrow> unit exec" where
  "check_seed_differs cr seed secret epoch sender_index =
     exec_bind (derive_sender_key_seed cr secret epoch sender_index)
       (\<lambda>different_seed. assert_that (seed \<noteq> different_seed) (Done ()))"

definition sender_key_fuzzer :: "crypto \<Rightarrow> sender_key_scenario \<Rightarrow> unit exec" where
  "sender_key_fuzzer cr sc =
     (let secret = epoch_secret_bytes (sks_epoch_secret sc);
          epoch = sks_epoch sc; sender_index = sks_sender_index sc
      in exec_bind (derive_sender_key_seed cr secret epoch sender_index) (\<lambda>seed.
         assert_that (length seed = 32)
        (exec_bind (derive_sender_key_seed cr secret epoch sender_index) (\<lambda>seed2.
         assert_that (seed = seed2)
        (exec_bind (if epoch < - 1 then check_seed_differs cr seed secret (epoch + 1) sender_index else Done ()) (\<lambda>_.
         exec_bind (if sender_index < - 1 then check_seed_differs cr seed secret epoch (sender_index + 1) else Done ()) (\<lambda>_.
         let ratchet = ratchet_new seed in
         assert_that (ratchet_generation ratchet = 0)
        (exec_bind (exec_fold (ratchet_fuzz_step cr sc seed) (sks_operations sc)
             \<lparr>rfz_ratchet = ratchet, rfz_last_key = None\<rparr>)
           (\<lambda>_. Done ())))))))))"

section \<open>What the libraries promise\<close>

text \<open>
  HKDF-SHA256 yields 32 bytes for a 32-byte request and keeps equally long info strings apart;
  HMAC-SHA256 yields 32 bytes; the ciphertext is no shorter than the plaintext; and a ciphertext
  with a single byte changed does not authenticate.
\<close>

definition hkdf_32 :: "crypto \<Rightarrow> bool" where
  "hkdf_32 cr \<longleftrightarrow> (\<forall>secret info. \<exists>seed. hkdf_sha256 cr secret info 32 = Some seed \<and> length seed = 32)"

definition hkdf_separates :: "crypto \<Rightarrow> bool" where
  "hkdf_separates cr \<longleftrightarrow>
     (\<forall>secret info info'. length info = 29 \<and> length info' = 29 \<and>
        hkdf_sha256 cr secret info 32 = hkdf_sha256 cr secret info' 32 \<longrightarrow> info = info')"

definition hmac_32 :: "crypto \<Rightarrow> bool" where
  "hmac_32 cr \<longleftrightarrow> (\<forall>k m. length (hmac_sha256 cr k m) = 32)"

definition aead_expands :: "crypto \<Rightarrow> bool" where
  "aead_expands cr \<longleftrightarrow> (\<forall>k n p c. aead_encrypt cr k n p = Some c \<longrightarrow> length p \<le> length c)"

definition aead_detects :: "crypto \<Rightarrow> bool" where
  "aead_detects cr \<longleftrightarrow>
     (\<forall>k n p c i b. aead_encrypt cr k n p = Some c \<and> i < length c \<and> b \<noteq> c ! i \<longrightarrow>
        aead_decrypt cr k n (c[i := b]) = None)"

definition ideal_crypto :: "crypto \<Rightarrow> bool" where
  "ideal_crypto cr \<longleftrightarrow> hkdf_32 cr \<and> hkdf_separates cr \<and> hmac_32 cr \<and> aead_correct cr \<and> aead_expands cr \<and>
     aead_detects cr"

section \<open>The loop\<close>

lemma check_generations_from:
  "unat (ratchet_generation r) = a \<Longrightarrow> a + n < 2 ^ 32 \<Longrightarrow> check_generations cr [a..<a + n] r = Done ()"
proof (induction n arbitrary: a r)
  case (Suc n)
  have upt: "[a..<a + Suc n] = a # [Suc a..<Suc a + n]" by (simp add: upt_rec)
  have ne: "ratchet_generation r \<noteq> - 1"
    using Suc.prems unat_u32_max by (auto simp: unat_u32_max)
  have gen: "ratchet_generation r = of_nat a" by (simp flip: Suc.prems(1))
  have "check_generations cr [Suc a..<Suc a + n]
      (r\<lparr>chain_key := chain_at cr (chain_key r) 1, ratchet_generation := ratchet_generation r + 1\<rparr>) = Done ()"
    using Suc.prems unat_plus_one [OF ne] by (intro Suc.IH) simp_all
  then show ?case
    using gen ne unfolding upt by (simp add: advance_eq)
qed simp

lemma check_determinism_returns: "check_determinism cr seed s = Done s"
proof -
  have "unat (min (ratchet_generation (rfz_ratchet s)) 10) \<le> unat (10 :: u32)"
    by (simp only: word_le_nat_alt [symmetric] min.cobounded2)
  then have "check_generations cr [0..<0 + unat (min (ratchet_generation (rfz_ratchet s)) 10)] (ratchet_new seed) = Done ()"
    by (intro check_generations_from) (simp_all add: ratchet_new_def)
  then show ?thesis by (simp add: check_determinism_def Let_def)
qed

lemma xor_ff_changes: "(b :: u8) XOR 0xFF \<noteq> b"
proof
  assume "b XOR 0xFF = b"
  then have "bit (b XOR 0xFF) 0 = bit b 0" by simp
  then show False by (simp add: bit_xor_iff)
qed

lemma check_encrypt_returns:
  assumes "ideal_crypto cr"
  shows "check_encrypt cr sc message s = Done s"
proof (cases "rfz_last_key s")
  case (Some key)
  let ?n = "build_nonce (sks_epoch sc) (sks_sender_index sc) (mkey_generation key) (sks_random_bytes sc)"
  obtain c where c: "aead_encrypt cr (mkey key) ?n message = Some c" "aead_decrypt cr (mkey key) ?n c = Some message"
    using assms unfolding ideal_crypto_def aead_correct_def by blast
  have len: "length message \<le> length c"
    using assms c(1) by (auto simp: ideal_crypto_def aead_expands_def)
  have "aead_decrypt cr (mkey key) ?n (c[0 := c ! 0 XOR 0xFF]) = None" if "c \<noteq> []"
    using assms c(1) that xor_ff_changes [of "c ! 0"] unfolding ideal_crypto_def aead_detects_def by blast
  with c len show ?thesis
    by (simp add: check_encrypt_def Some encrypt_message_def decrypt_message_def Let_def)
qed (simp add: check_encrypt_def)

lemma check_advance_returns: "ideal_crypto cr \<Longrightarrow> returns (check_advance cr s) (\<lambda>_. True)"
  by (simp add: check_advance_def advance_eq ideal_crypto_def hmac_32_def)

lemma check_advance_to_returns: "returns (check_advance_to cr t s) (\<lambda>_. True)"
  by (simp add: check_advance_to_def advance_to_eq Let_def)

interpretation sender_key_fuzz: asserting_loop "ratchet_fuzz_step cr sc seed" "\<lambda>_ _. ideal_crypto cr"
  for cr sc seed
proof
  fix s and x :: ratchet_operation
  assume ideal: "ideal_crypto cr"
  have "returns (ratchet_fuzz_step cr sc seed x s) (\<lambda>_. True)"
    by (cases x) (simp_all add: check_advance_returns [OF ideal] check_advance_to_returns
        check_encrypt_returns [OF ideal] check_determinism_returns)
  then show "returns (ratchet_fuzz_step cr sc seed x s) (\<lambda>_. ideal_crypto cr)"
    by (rule returns_conseq) (rule ideal)
qed

lemma length_sender_key_info: "length (sender_key_info e i) = 29"
  by (simp add: sender_key_info_def SENDER_KEY_LABEL_def ascii_bytes_def)

lemma seeds_differ:
  assumes "ideal_crypto cr" and "derive_sender_key_seed cr secret e i = Done seed"
    and "(e', i') \<noteq> (e, i)"
  shows "check_seed_differs cr seed secret e' i' = Done ()"
proof -
  obtain seed' where "hkdf_sha256 cr secret (sender_key_info e' i') 32 = Some seed'"
    using assms(1) by (auto simp: ideal_crypto_def hkdf_32_def)
  moreover have "hkdf_sha256 cr secret (sender_key_info e' i') 32 \<noteq> hkdf_sha256 cr secret (sender_key_info e i) 32"
    using assms(1,3) sender_key_info_inject [of e' i' e i] length_sender_key_info
    unfolding ideal_crypto_def hkdf_separates_def by blast
  ultimately show ?thesis
    using assms(2) by (auto simp: check_seed_differs_def derive_sender_key_seed_def split: option.splits)
qed

section \<open>Properties\<close>


text \<open>Libraries with all those properties exist: a checksum for the tag, padding for the hashes.\<close>

definition checksum :: "bytes \<Rightarrow> u8" where
  "checksum p = sum_list p"

definition ideal_sample :: crypto where
  "ideal_sample =
     \<lparr>hmac_sha256 = (\<lambda>k m. replicate 32 0),
      hkdf_sha256 = (\<lambda>secret info n. Some (take n (info @ replicate 32 0))),
      aead_encrypt = (\<lambda>k n p. Some (checksum p # p)),
      aead_decrypt = (\<lambda>k n c. if c \<noteq> [] \<and> hd c = checksum (tl c) then Some (tl c) else None)\<rparr>"

lemma checksum_update: "i < length p \<Longrightarrow> checksum (p[i := b]) = checksum p - p ! i + b"
  by (induction p arbitrary: i) (simp_all add: checksum_def split: nat.split)

lemma ideal_sample_detects:
  assumes "i < length (checksum p # p)" and "b \<noteq> (checksum p # p) ! i"
  shows "aead_decrypt ideal_sample k n ((checksum p # p)[i := b]) = None"
proof (cases i)
  case 0
  with assms show ?thesis by (simp add: ideal_sample_def)
next
  case (Suc j)
  then have "checksum (p[j := b]) = checksum p + (b - p ! j)" using assms(1) by (simp add: checksum_update)
  moreover have "b - p ! j \<noteq> 0" using assms(2) Suc by simp
  ultimately have "checksum p \<noteq> checksum (p[j := b])" by simp
  then show ?thesis by (simp add: ideal_sample_def Suc)
qed

lemma ideal_sample: "ideal_crypto ideal_sample"
proof -
  have "info = info'" if "length info = 29" "length info' = 29"
    "take 32 (info @ replicate 32 0) = take 32 (info' @ replicate 32 (0 :: u8))" for info info'
    using that by simp
  then have "hkdf_separates ideal_sample"
    unfolding hkdf_separates_def ideal_sample_def crypto.simps option.inject by blast
  moreover have "aead_detects ideal_sample"
    unfolding aead_detects_def
  proof (intro allI impI, elim conjE)
    fix k n p c i b
    assume "aead_encrypt ideal_sample k n p = Some c" and changed: "i < length c" "b \<noteq> c ! i"
    then have c: "c = checksum p # p" by (simp add: ideal_sample_def)
    show "aead_decrypt ideal_sample k n (c[i := b]) = None"
      using changed unfolding c by (rule ideal_sample_detects)
  qed
  moreover have "hkdf_32 ideal_sample" "hmac_32 ideal_sample" "aead_correct ideal_sample" "aead_expands ideal_sample"
    by (auto simp: hkdf_32_def hmac_32_def aead_correct_def aead_expands_def ideal_sample_def)
  ultimately show ?thesis by (simp add: ideal_crypto_def)
qed


end
