(* ===== verification/Spec2Isabelle.thy ===== *)
theory Spec2Isabelle
  imports Server_Runtime Real_World Scenario_Harness Sim_Server Environments Transports
    Fuzz_Connection Fuzz_Frames Fuzz_Rooms Fuzz_Sender_Keys
begin

text \<open>
  Lockframe is an end-to-end encrypted group messaging system: clients keep one MLS group and one
  set of sender keys per room, a server numbers, stores and forwards the frames of every room
  without reading them, and both speak a binary protocol of 128-byte headers and CBOR payloads. This
  development models the workspace under \<^verbatim>\<open>src/crates\<close> and \<^verbatim>\<open>src/fuzz\<close> as functions of Isabelle/HOL and proves what
  makes its parts correct, alone and together. It also proves where the code does not do what it
  means to; those results are stated as theorems about the code as it is.

  \<^bold>\<open>The program.\<close> Bytes become frames (\<^verbatim>\<open>lockframe-proto\<close>). On the server a runtime reads frames from
  streams and hands each to the driver, which keeps one session machine per connection, a registry
  of rooms and sessions, and a room manager; the room manager checks epoch and membership, lets the
  sequencer assign the log index, checks the signature and returns actions that the runtime executes
  against the storage and the connections (\<^verbatim>\<open>lockframe-server\<close>, \<^verbatim>\<open>lockframe-core\<close>). On the client an event
  handler drives the groups and the sender-key ratchets (\<^verbatim>\<open>lockframe-client\<close>, \<^verbatim>\<open>lockframe-crypto\<close>).
  The test harness compares clients with a reference model and runs the driver and the session
  machine in a simulated world (\<^verbatim>\<open>lockframe-harness\<close>); the fuzz targets feed arbitrary bytes to single
  parts and assert what they expect (\<^verbatim>\<open>fuzz/fuzz_targets\<close>).

  \<^bold>\<open>Theories and sources.\<close>
  \<^item> \<^verbatim>\<open>Lockframe_Prelude\<close>: machine words and their byte codecs, results with panics, formatting, and the
    contracts \<open>preserved_by\<close>, \<open>monotone_steps\<close> and \<open>simulation\<close> that lift facts about one step to all runs.
  \<^item> \<^verbatim>\<open>Opcodes\<close>, \<^verbatim>\<open>Frame_Header\<close>, \<^verbatim>\<open>Frames\<close>, \<^verbatim>\<open>Payloads\<close>: \<^verbatim>\<open>opcodes.rs\<close>, \<^verbatim>\<open>flags.rs\<close>, \<^verbatim>\<open>header.rs\<close>, \<^verbatim>\<open>frame.rs\<close>,
    \<^verbatim>\<open>errors.rs\<close> and \<^verbatim>\<open>payloads/\<close> of the protocol crate. The parser accepts exactly the serialisations, and
    payloads survive the way over the wire.
  \<^item> \<^verbatim>\<open>Session_Connection\<close>: \<^verbatim>\<open>lockframe-core/src/connection.rs\<close>. The handshake agrees, the state machine
    refines its diagram and never moves backwards, and when timeouts fire.
  \<^item> \<^verbatim>\<open>Sender_Keys\<close>, \<^verbatim>\<open>Sender_Key_Store\<close>: \<^verbatim>\<open>lockframe-crypto/src/sender_keys\<close> and the client's store. Closed
    form of the key schedule, keys and nonces never repeat, in-order delivery with losses.
  \<^item> \<^verbatim>\<open>Mls_State\<close>, \<^verbatim>\<open>Mls_Group_Model\<close>: \<^verbatim>\<open>lockframe-core/src/mls\<close>. What an accepted signature binds, and that
    the exported state is faithful to the group.
  \<^item> \<^verbatim>\<open>Storage_Backends\<close>: the storage trait as a record of operations, the memory backend and the one that
    injects failures, with the contracts \<open>storage_contract\<close> and \<open>reliable_storage\<close> both are measured by.
  \<^item> \<^verbatim>\<open>Sequencer_Model\<close>, \<^verbatim>\<open>Registry_Model\<close>, \<^verbatim>\<open>Room_Manager\<close>, \<^verbatim>\<open>Server_Driver\<close>, \<^verbatim>\<open>Server_Runtime\<close>: the files of the same
    names in \<^verbatim>\<open>lockframe-server/src\<close>, the last one \<^verbatim>\<open>lib.rs\<close>. Gapless numbering, refinement of the
    registry to a relation, authenticity of what is accepted, agreement of the driver's books, and
    the log under every interleaving of the connection tasks (contract \<open>task_invariant\<close>).
  \<^item> \<^verbatim>\<open>Client_Machine\<close>: \<^verbatim>\<open>lockframe-client/src/client.rs\<close>, \<^verbatim>\<open>event.rs\<close>, \<^verbatim>\<open>error.rs\<close>. Frames are always handled,
    delivered messages are authentic and not replayed, groups belong to the client (contract
    \<open>client_invariant\<close>), commits put sender keys back in step.
  \<^item> \<^verbatim>\<open>Reference_Model\<close>, \<^verbatim>\<open>Real_World\<close>: \<^verbatim>\<open>lockframe-harness/src/model\<close> and the wrapper of
    \<^verbatim>\<open>tests/model_based_test.rs\<close>. The model is consistent, real clients give its results for operations of
    single clients, and do not after a membership change.
  \<^item> \<^verbatim>\<open>Environments\<close>: \<^verbatim>\<open>env.rs\<close>, \<^verbatim>\<open>mls/provider.rs\<close>, \<^verbatim>\<open>system_env.rs\<close> and \<^verbatim>\<open>sim_env.rs\<close>. Both environments satisfy
    the contract \<open>environment\<close>; the derived numbers lose no randomness, and what a failing operating
    system makes of them.
  \<^item> \<^verbatim>\<open>Transports\<close>: \<^verbatim>\<open>transport.rs\<close>, \<^verbatim>\<open>main.rs\<close> and the binding and accept loop of \<^verbatim>\<open>lib.rs\<close> in the server, and
    \<^verbatim>\<open>sim_transport.rs\<close>. When a server comes up and in which state, and that it never returns.
  \<^item> \<^verbatim>\<open>Scenario_Harness\<close>, \<^verbatim>\<open>Sim_Server\<close>: \<^verbatim>\<open>lockframe-harness/src/scenario\<close> and \<^verbatim>\<open>sim_server.rs\<close>. The outcome of every
    scenario; the simulated server keeps its books, and its runs are runs of the runtime.
  \<^item> \<^verbatim>\<open>Assertions\<close> and the theories \<^verbatim>\<open>Fuzz_\<close>\<open>\<dots>\<close>: the nine fuzz targets (connections, frame boundaries and
    CBOR, sequencer, room manager, pipeline, failing storage, sender keys, signatures), each as a loop that panics where
    the target asserts (contract \<open>asserting_loop\<close>). Which targets can never fail, when the others do, and
    which of their assertions are vacuous.
  \<^item> This theory: a message from one client through the bytes of the stream, the runtime and the log
    of the server to another client.

  \<^bold>\<open>Conventions.\<close> A struct is a record and an enum a datatype; names that would clash carry a prefix.
  A method with \<^verbatim>\<open>&mut self\<close> returns the new state with its result, also when it fails, because the code
  may fail after a change. Errors are the left summand of a sum; \<open>exec\<close> adds \<open>Panic\<close>. Integers keep their
  width and wrap as in release builds; debug assertions are absent there and in the model. Time,
  randomness and the iteration order of hash tables are arguments. Log lines that have no effect are
  dropped where they are not returned as actions.

  \<^bold>\<open>Parameters.\<close> Libraries outside the repository are records of functions: \<open>ciborium\<close> (CBOR), \<open>crypto\<close>
  (HMAC, HKDF, AEAD), \<open>ed25519\<close>, \<open>dalek\<close> (its signing half), \<open>openmls\<close>, \<open>quic_libs\<close> (addresses, files, TLS, QUIC).
  The seeded generators, the system's random source and what the network accepts are functions or
  arguments too. Theorems name what they need of them (for instance that
  decryption inverts encryption, or that a signature verifies for one message only) as hypotheses,
  and every such theorem is applied to a concrete instance.

  \<^bold>\<open>Bounds and fuel.\<close> A client handles sync responses inside sync responses; the recursion of
  \<open>client_handle_frame\<close> is bounded by a depth whose exhaustion is the value \<open>None\<close>, and any depth above the
  length of the payload is enough. The ratchet skips at most 1000 generations and has 4294967295 keys;
  delivery theorems carry these limits. The accept loop of the server has no exit; it is a
  \<^verbatim>\<open>partial_function\<close> whose value \<open>None\<close> means that it does not return. No other definition needs fuel. The
  theorems on fuzz targets that count in 64 bits bound the number of inputs.

  \<^bold>\<open>Not modelled.\<close> What is left is input and output or has no content of its own: the inside of
  sockets, QUIC, TLS and the asynchronous scheduler, which belong to other libraries; the parsing of
  the command line and the installation of the logger in \<^verbatim>\<open>main.rs\<close>; the trait of
  \<^verbatim>\<open>lockframe-core/src/transport.rs\<close>, which has no method bodies; texts of \<^verbatim>\<open>Debug\<close> formatters; module
  declarations and re-exports; generators of random test inputs; and the unit and integration tests other
  than the wrapper above, which only call what is modelled on fixed inputs. In the runtime the writing
  to streams is modelled as the list of deliveries, and tasks interleave at their lock acquisitions.
  A helper that names a part of a larger function is to be read against the lines of that function.
\<close>

section \<open>From one client to another\<close>

lemma proto_crypto_encrypted [simp]: "proto_to_crypto_encrypted (crypto_to_proto_encrypted m) = m"
  by (simp add: proto_to_crypto_encrypted_def crypto_to_proto_encrypted_def)

definition message_header :: "'x client_services \<Rightarrow> room_id \<Rightarrow> 'x client_room \<Rightarrow> 'x client \<Rightarrow> frame_header" where
  "message_header cs r room a =
     set_epoch (grp_epoch (cs_openmls cs) (rs_mls_group room))
       (set_sender_id (cl_sender_id a) (set_room_id r (header_new Op_AppMessage)))"

lemma message_header_wf [simp]: "wf_header (message_header cs r room a)"
  by (simp add: message_header_def)

lemma sign_frame_header_sel [simp]:
  "header_room_id (sign_frame_header om g h) = header_room_id h"
  "header_sender_id (sign_frame_header om g h) = header_sender_id h"
  "header_epoch (sign_frame_header om g h) = header_epoch h"
  "opcode_enum (sign_frame_header om g h) = opcode_enum h"
  "header_magic (sign_frame_header om g h) = header_magic h"
  "header_version (sign_frame_header om g h) = header_version h"
  "wf_header h \<Longrightarrow> wf_header (sign_frame_header om g h)"
  by (simp_all add: sign_frame_header_def Let_def split: option.split)

lemma send_message_frame:
  assumes "handle_send_message cs inp r p a = Done (a', Inr [CA_Send f])" and "cl_rooms a r = Some room"
  obtains data where "f = frame_new (sign_frame_header (cs_openmls cs) (rs_mls_group room) (message_header cs r room a)) data"
  using assms
  by (auto simp: handle_send_message_def message_header_def Let_def split: exec.splits prod.splits sum.splits)

lemma sealed_sent_count:
  assumes "store_encrypt cr i p rnd st = Done (st', Inr m)"
  shows "sent_count i st < 4294967295"
proof -
  obtain q q' :: symmetric_ratchet where "ratchets st i = Some q" "ratchet_generation q < ratchet_generation q'"
    by (rule store_encrypt_Inr [OF assms]) (rule that)
  moreover have "unat (ratchet_generation q') < 4294967296"
    using unsigned_less [of "ratchet_generation q'"] by simp
  ultimately show ?thesis
    by (simp add: sent_count_def store_generation_def word_less_nat_alt)
qed

text \<open>
  The two clients alone: the frame a member's client sends for a message, with whatever log index the
  server gives it, is delivered by the client of any member whose keys are in step and whose validator
  accepts the frame, with the plaintext, the sender's identity and the index.
\<close>

lemma sent_message_delivered:
  assumes "cl_rooms a r = Some ra" and "cl_rooms b r = Some rb"
    and "aead_correct (cs_crypto cs)"
    and "synced (cs_crypto cs) seed (my_leaf_index ra) (rs_sender_keys ra) (rs_sender_keys rb)"
    and "lag (my_leaf_index ra) (rs_sender_keys ra) (rs_sender_keys rb) \<le> 1000"
    and "store_encrypt (cs_crypto cs) (my_leaf_index ra) p (in_random inp) (rs_sender_keys ra) = Done (ka, Inr m)"
    and "reads_back (ser_encrypted_message (cs_cbor cs)) (de_encrypted_message (cs_cbor cs)) (crypto_to_proto_encrypted m)"
    and "grp_epoch (cs_openmls cs) (rs_mls_group rb) = grp_epoch (cs_openmls cs) (rs_mls_group ra)"
    and "member_id_by_leaf_index (cs_openmls cs) (rs_mls_group rb) (my_leaf_index ra) = Some (cl_sender_id a)"
  shows "\<exists>a' f. handle_send_message cs inp r p a = Done (a', Inr [CA_Send f]) \<and>
    (\<forall>i. grp_validate_frame (cs_openmls cs) (cs_ed25519 cs) (rs_mls_group rb) (rebuild_frame_with_index f i)
         (Some (export_validation_state (cs_openmls cs) (rs_mls_group rb))) = Inr () \<longrightarrow>
       (\<exists>b' kb ts. client_handle_frame 1 cs (rebuild_frame_with_index f i) b =
            Some (Done (b', Inr [CA_DeliverMessage r (cl_sender_id a) p i ts])) \<and>
          cl_rooms b' r = Some (rb\<lparr>rs_sender_keys := kb\<rparr>) \<and>
          synced (cs_crypto cs) seed (my_leaf_index ra) ka kb \<and> lag (my_leaf_index ra) ka kb = 0))"
proof -
  have count: "sent_count (my_leaf_index ra) (rs_sender_keys ra) < 4294967295"
    using assms(6) by (rule sealed_sent_count)
  from seal_step [OF assms(3,4) count, of p "in_random inp"] assms(5,6) obtain kb where kb:
    "store_decrypt (cs_crypto cs) m (rs_sender_keys rb) = (kb, Inr p)"
    "synced (cs_crypto cs) seed (my_leaf_index ra) ka kb" "lag (my_leaf_index ra) ka kb = 0" by auto
  from store_encrypt_Inr [OF assms(6)] have leaf: "sealed_sender_index m = my_leaf_index ra" by blast
  let ?data = "fst (ser_encrypted_message (cs_cbor cs) (crypto_to_proto_encrypted m))"
  let ?f = "frame_new (sign_frame_header (cs_openmls cs) (rs_mls_group ra) (message_header cs r ra a)) ?data"
  have "\<exists>a'. handle_send_message cs inp r p a = Done (a', Inr [CA_Send ?f])"
    using assms(1,6,7)
    by (auto simp: handle_send_message_def message_header_def serialize_encrypted_message_def reads_back_def Let_def
        split: prod.splits)
  moreover have "\<exists>b' ts. client_handle_frame 1 cs (rebuild_frame_with_index ?f i) b =
            Some (Done (b', Inr [CA_DeliverMessage r (cl_sender_id a) p i ts])) \<and>
          cl_rooms b' r = Some (rb\<lparr>rs_sender_keys := kb\<rparr>)"
    if "grp_validate_frame (cs_openmls cs) (cs_ed25519 cs) (rs_mls_group rb) (rebuild_frame_with_index ?f i)
         (Some (export_validation_state (cs_openmls cs) (rs_mls_group rb))) = Inr ()" for i
  proof -
    have "msg_sender_index (crypto_to_proto_encrypted m) = my_leaf_index ra"
      using leaf by (simp add: crypto_to_proto_encrypted_def)
    with that assms(2,7,8,9) kb(1) show ?thesis
      by (simp add: handle_app_message_def deserialize_encrypted_message_def reads_back_def Let_def message_header_def)
  qed
  ultimately show ?thesis using kb(2,3) by blast
qed

definition sample_sender :: "nat client" where
  "sample_sender = \<lparr>cl_sender_id = 6, cl_rooms = [9 \<mapsto> \<lparr>rs_mls_group = sample_group\<lparr>grp_member_id := 6\<rparr>,
     rs_sender_keys = \<lparr>store_epoch = 2, ratchets = [1 \<mapsto> ratchet_new [1, 2]]\<rparr>, my_leaf_index = 1\<rparr>],
     cl_pending_joins = []\<rparr>"

lemma sample_message_valid:
  assumes "header_sender_id (header f) = 6" and "header_epoch (header f) = 2"
  shows "grp_validate_frame sample_openmls (cs_ed25519 sample_client_services) sample_group f
     (Some (export_validation_state sample_openmls sample_group)) = Inr ()"
  using assms
  by (simp add: grp_validate_frame_def validate_frame_def validate_signature_def Let_def export_validation_state_def
      sample_members_def with_keys_def is_member_def member_key_def grp_epoch_def
      sample_group_def sample_client_services_def)

text \<open>What the server needs to accept the frame, and the receiver to accept its numbered copy.\<close>

definition accepted_all_along ::
  "('x, memory_storage) services \<Rightarrow> 'x mls_group \<Rightarrow> mls_group_state \<Rightarrow> u128 \<Rightarrow> ('x, memory_storage) server_driver \<Rightarrow>
     u64 \<Rightarrow> 'x client_services \<Rightarrow> 'x client_room \<Rightarrow> nat \<Rightarrow> frame \<Rightarrow> bool" where
  "accepted_all_along sv grp st r d sid cs rb n f \<longleftrightarrow>
     submittable sv grp st r d sid f \<and> signed_well sv st f \<and> length (payload f) \<le> unat MAX_PAYLOAD_SIZE \<and>
     grp_validate_frame (cs_openmls cs) (cs_ed25519 cs) (rs_mls_group rb) (rebuild_frame_with_index f (of_nat n))
       (Some (export_validation_state (cs_openmls cs) (rs_mls_group rb))) = Inr ()"


text \<open>A server with two members, the second of which listens on session 8.\<close>

definition sample_chat_state :: mls_group_state where
  "sample_chat_state = with_keys 9 2 [] [5, 6] [5 \<mapsto> [], 6 \<mapsto> []] []"

definition sample_chat_services :: "(nat, memory_storage) services" where
  "sample_chat_services = sample_services\<lparr>sv_ed25519 := cs_ed25519 sample_client_services\<rparr>"

definition sample_chat :: "(nat, memory_storage) server_world" where
  "sample_chat =
     \<lparr>w_driver = (w_driver sample_world)\<lparr>
        d_registry := fst (subscribe 8 9 (fst (register_session 8 session_info_new registry_new))),
        d_storage := memory_new\<lparr>mem_mls_states := [9 \<mapsto> sample_chat_state]\<rparr>\<rparr>,
      w_open = {7, 8}, w_tasks = []\<rparr>"

lemma sample_chat_facts:
  "serving sample_group sample_chat_state 9 0 (w_driver sample_chat)"
  "mem_log (d_storage (w_driver sample_chat)) 9 = []" "w_tasks sample_chat = []"
  "(8 :: u64) \<in> set (hash_order sample_chat_services (driver_sessions_in_room (w_driver sample_chat) 9))"
  "(8 :: u64) \<in> w_open sample_chat"
  by (simp_all add: serving_def sample_chat_def sample_world_def standing_def sequencer_new_def memory_new_def
      mem_log_def driver_sessions_in_room_def sessions_in_room_def subscribe_def register_session_def registry_new_def
      sample_chat_services_def sample_services_def)

lemma sample_chat_accepts:
  assumes "wf_frame f" and "header_room_id (header f) = 9" and "header_sender_id (header f) = 6"
    and "header_epoch (header f) = 2" and "opcode_enum (header f) = Some Op_AppMessage"
    and "cs_openmls cs = sample_openmls" and "cs_ed25519 cs = cs_ed25519 sample_client_services"
    and "rs_mls_group rb = sample_group"
  shows "accepted_all_along sample_chat_services sample_group sample_chat_state 9 (w_driver sample_chat) 7 cs rb 0 f"
proof -
  let ?sv = sample_chat_services
  have wf: "wf_header (header f)" "header_magic (header f) = MAGIC" "header_version (header f) = VERSION"
      "unat (header_payload_size (header f)) = length (payload f)" "length (payload f) \<le> unat MAX_PAYLOAD_SIZE"
    using wf_frameD [OF assms(1)] by (simp_all add: valid_header_def)
  have "presentable (sv_openmls ?sv) (sv_ed25519 ?sv) sample_group sample_chat_state 9 f"
    using wf assms(2-5)
    by (simp add: presentable_def validate_frame_basic_def sequenced_in_def validate_frame_structure_def MAX_EPOCH_def
        Let_def sample_chat_state_def with_keys_def is_member_def member_key_def sample_chat_services_def
        sample_services_def sample_client_services_def)
  then have "submittable ?sv sample_group sample_chat_state 9 (w_driver sample_chat) 7 f"
    using assms(5) by (simp add: submittable_def sample_chat_def sample_world_def)
  moreover have "signed_well ?sv sample_chat_state f"
    using assms(3)
    by (simp add: signed_well_def validate_signature_def sample_chat_state_def with_keys_def is_member_def member_key_def
        sample_chat_services_def sample_client_services_def Let_def)
  moreover have "grp_validate_frame sample_openmls (cs_ed25519 sample_client_services) sample_group
      (rebuild_frame_with_index f 0) (Some (export_validation_state sample_openmls sample_group)) = Inr ()"
    by (rule sample_message_valid) (use assms(3,4) in simp_all)
  ultimately show ?thesis using wf(5) assms(6-8) by (simp add: accepted_all_along_def)
qed


lemma app_message_invalid:
  assumes "\<And>g st. \<exists>e. grp_validate_frame (cs_openmls cs) (cs_ed25519 cs) g f (Some st) = Inl e"
  shows "\<exists>e. handle_app_message cs r f c = Done (c, Inl e)"
proof (cases "cl_rooms c r")
  case (Some room)
  obtain e where "grp_validate_frame (cs_openmls cs) (cs_ed25519 cs) (rs_mls_group room) f
      (Some (export_validation_state (cs_openmls cs) (rs_mls_group room))) = Inl e"
    using assms by blast
  with Some show ?thesis by (simp add: handle_app_message_def Let_def)
qed (simp add: handle_app_message_def)

lemma long_signature_rejected:
  assumes "wf_header (header f)" and "signature_from_slice ed (header_signature (header f)) = Some sig"
    and "\<And>key m. vk_verify ed key m sig \<Longrightarrow> length m = 64"
  shows "validate_signature ed f st \<noteq> Inr Accept"
  using assms(2,3) length_signing_data [OF assms(1)] by (fastforce simp: validate_signature_Accept)

text \<open>
  C26. With a real signature scheme the validator never accepts: the client signs the first 64 bytes
  of the header, the validator verifies the 56 bytes of the signing data. If a signature verifies
  only for the message it was made for, then every message a client sends is refused by every
  receiving client, whatever the receiver's state and the server's index, and the receiver
  is unchanged.
\<close>

theorem sent_message_never_delivered:
  assumes "cl_rooms a r = Some ra" and "handle_send_message cs inp r p a = Done (a', Inr [CA_Send f])"
    and "\<And>m. length m = 64 \<Longrightarrow> \<exists>sig. om_signer_sign (cs_openmls cs) (grp_signer (rs_mls_group ra)) m = Some sig \<and>
      length sig = 64 \<and> signature_from_slice (cs_ed25519 cs) sig = Some sig \<and>
      (\<forall>key m'. vk_verify (cs_ed25519 cs) key m' sig \<longrightarrow> m' = m)"
  shows "\<exists>e. client_handle_frame 1 cs (rebuild_frame_with_index f i) b = Some (Done (b, Inl e))"
proof -
  let ?h = "message_header cs r ra a" and ?om = "cs_openmls cs" and ?f = "rebuild_frame_with_index f i"
  obtain data where f: "f = frame_new (sign_frame_header ?om (rs_mls_group ra) ?h) data"
    using send_message_frame [OF assms(2,1)] .
  have len: "length (take 64 (to_bytes ?h)) = 64"
    by (simp add: HEADER_SIZE_def)
  then obtain sig where sig: "om_signer_sign ?om (grp_signer (rs_mls_group ra)) (take 64 (to_bytes ?h)) = Some sig"
      "length sig = 64" "signature_from_slice (cs_ed25519 cs) sig = Some sig"
      "\<forall>key m'. vk_verify (cs_ed25519 cs) key m' sig \<longrightarrow> m' = take 64 (to_bytes ?h)"
    using assms(3) by blast
  have "header_signature (header ?f) = sig"
    using sig(1,2) by (simp add: f sign_frame_header_def)
  moreover have "wf_header (header ?f)"
    by (simp add: f rebuild_frame_with_index_def)
  moreover have "length m' = 64" if "vk_verify (cs_ed25519 cs) key m' sig" for key m'
    using sig(4) that len by metis
  ultimately have "validate_signature (cs_ed25519 cs) ?f st \<noteq> Inr Accept" for st
    using sig(3) by (intro long_signature_rejected) auto
  then have "\<exists>e. grp_validate_frame ?om (cs_ed25519 cs) g ?f (Some st) = Inl e" for g st
    by (auto simp: grp_validate_frame_def validate_frame_def Let_def split: sum.split validation_result.split)
  moreover have "opcode_enum (header ?f) = Some Op_AppMessage"
    by (simp add: f message_header_def)
  ultimately show ?thesis using app_message_invalid [of cs ?f] by simp
qed

definition sample_strict :: "nat client_services" where
  "sample_strict = sample_client_services\<lparr>cs_ed25519 :=
     \<lparr>vk_from_bytes = Some, signature_from_slice = Some, vk_verify = (\<lambda>key m sig. m = sig)\<rparr>\<rparr>"

theorem sent_message_never_delivered_witness:
  "\<exists>a' f e. handle_send_message sample_strict sample_inputs 9 [4, 2] sample_sender = Done (a', Inr [CA_Send f]) \<and>
     client_handle_frame 1 sample_strict (rebuild_frame_with_index f 3) sample_receiver =
       Some (Done (sample_receiver, Inl e))"
proof -
  let ?keys = "\<lparr>store_epoch = 2, ratchets = [1 \<mapsto> ratchet_new [1, 2]]\<rparr>"
  have "synced sample_crypto [1, 2] 1 ?keys ?keys" "sent_count 1 ?keys = 0"
    by (simp_all add: synced_def on_chain_def ratchet_new_def sent_count_def store_generation_def)
  then obtain ka m where "store_encrypt sample_crypto 1 [4, 2] (in_random sample_inputs) ?keys = Done (ka, Inr m)"
    using seal_step [OF sample_crypto_ok(1)] by force
  then obtain a' f where f: "handle_send_message sample_strict sample_inputs 9 [4, 2] sample_sender
      = Done (a', Inr [CA_Send f])"
    by (simp add: handle_send_message_def sample_sender_def sample_strict_def sample_client_services_def
        serialize_encrypted_message_def sample_cbor_def Let_def)
  from sent_message_never_delivered [OF _ this, of _ 3 sample_receiver] show ?thesis
    using f by (fastforce simp: sample_sender_def sample_strict_def)
qed

end
